theory Spec2Isabelle
  imports Complex_Main "HOL-Library.Sublist"
begin

section \<open>The streaming cityscape component and the content validation\<close>

text \<open>
  A shallow embedding of \<^verbatim>\<open>ThreeCityscape\<close> (the second module of
  \<^verbatim>\<open>src/components/LogoSpinner.tsx\<close>) and of the validation code of
  \<^verbatim>\<open>src/App.tsx\<close>. Every \<^verbatim>\<open>useRef\<close> cell of the component is a field
  of the record \<open>cityscape\<close>; every handler, effect and callback is a function from the
  state to the state. JavaScript numbers are modelled as reals: rounding, infinities and
  NaN are outside the model. A ref that may hold \<^verbatim>\<open>null\<close> is an \<open>option\<close>,
  or a flag where only its presence is read. The component compares and concatenates
  its strings and does nothing else with them, so they are HOL strings there; the
  validation code takes lengths and trims, and there a string is the list of its UTF-16
  code units.
\<close>

subsection \<open>Constants\<close>

definition HIGH_ANGLE_INITIAL_CAMERA_Y :: real where [simp]: "HIGH_ANGLE_INITIAL_CAMERA_Y = 300"
definition HIGH_ANGLE_INITIAL_CAMERA_Z :: real where [simp]: "HIGH_ANGLE_INITIAL_CAMERA_Z = 100"
definition HIGH_ANGLE_FORWARD_SPEED :: real where [simp]: "HIGH_ANGLE_FORWARD_SPEED = 6 / 10"

definition MIN_FOV :: real where [simp]: "MIN_FOV = 30"
definition MAX_FOV :: real where [simp]: "MAX_FOV = 90"
definition DEFAULT_FOV :: real where [simp]: "DEFAULT_FOV = 60"
definition FOV_STEP :: real where [simp]: "FOV_STEP = 2"

definition KEYBOARD_ROTATION_SPEED :: real where [simp]: "KEYBOARD_ROTATION_SPEED = 2 / 100"
definition MOUSE_AZIMUTH_SENSITIVITY_PER_FRAME :: real where
  [simp]: "MOUSE_AZIMUTH_SENSITIVITY_PER_FRAME = 15 / 1000"

definition GENERATION_TRIGGER_DISTANCE :: real where [simp]: "GENERATION_TRIGGER_DISTANCE = 400"
definition CLUSTER_SPAWN_AHEAD_OFFSET :: real where [simp]: "CLUSTER_SPAWN_AHEAD_OFFSET = 600"
definition MIN_DISTANCE_BETWEEN_TRIGGER_POINTS :: real where
  [simp]: "MIN_DISTANCE_BETWEEN_TRIGGER_POINTS = 300"
definition MAX_ACTIVE_CLUSTER_REQUESTS :: int where [simp]: "MAX_ACTIVE_CLUSTER_REQUESTS = 1"
definition FADE_IN_DURATION :: real where [simp]: "FADE_IN_DURATION = 35 / 100"
definition INTER_CLUSTER_SPACING :: real where [simp]: "INTER_CLUSTER_SPACING = 225"

subsection \<open>Vectors\<close>

record vec3 =
  vx :: real
  vy :: real
  vz :: real

definition vec :: "real \<Rightarrow> real \<Rightarrow> real \<Rightarrow> vec3" where
  "vec a b c = \<lparr>vx = a, vy = b, vz = c\<rparr>"

definition lengthSq :: "vec3 \<Rightarrow> real" where
  "lengthSq v = vx v * vx v + vy v * vy v + vz v * vz v"

definition distanceToSquared :: "vec3 \<Rightarrow> vec3 \<Rightarrow> real" where
  "distanceToSquared a b =
     (let dx = vx a - vx b; dy = vy a - vy b; dz = vz a - vz b
      in dx * dx + dy * dy + dz * dz)"

definition distanceTo :: "vec3 \<Rightarrow> vec3 \<Rightarrow> real" where
  "distanceTo a b = sqrt (distanceToSquared a b)"

definition multiplyScalar :: "vec3 \<Rightarrow> real \<Rightarrow> vec3" where
  "multiplyScalar v k = vec (vx v * k) (vy v * k) (vz v * k)"

definition addv :: "vec3 \<Rightarrow> vec3 \<Rightarrow> vec3" where
  "addv a b = vec (vx a + vx b) (vy a + vy b) (vz a + vz b)"

definition addScaledVector :: "vec3 \<Rightarrow> vec3 \<Rightarrow> real \<Rightarrow> vec3" where
  "addScaledVector a v k = vec (vx a + vx v * k) (vy a + vy v * k) (vz a + vz v * k)"

definition crossVectors :: "vec3 \<Rightarrow> vec3 \<Rightarrow> vec3" where
  "crossVectors a b =
     vec (vy a * vz b - vz a * vy b) (vz a * vx b - vx a * vz b) (vx a * vy b - vy a * vx b)"

text \<open>\<^verbatim>\<open>Vector3.normalize\<close> divides by \<^verbatim>\<open>length() || 1\<close>.\<close>

definition normalize :: "vec3 \<Rightarrow> vec3" where
  "normalize v =
     (let l = sqrt (lengthSq v); d = (if l = 0 then 1 else l)
      in vec (vx v / d) (vy v / d) (vz v / d))"

subsection \<open>Building descriptions and scene objects\<close>

record dimensions =
  height :: real
  width :: "real option"
  depth :: "real option"
  radius :: "real option"

text \<open>
  \<^verbatim>\<open>CityElementData\<close>. The field \<open>shape\<close> is kept a string: the builder has a
  fallback for a shape that is neither \<^verbatim>\<open>'box'\<close> nor \<^verbatim>\<open>'cylinder'\<close>.
\<close>

record cityElementData =
  elem_id :: string
  shape :: string
  position :: vec3
  dims :: dimensions
  orientationY :: "real option"

record landscapeData =
  topColor :: string
  horizonColor :: string
  buildings :: "cityElementData list"

text \<open>The edge geometry that \<^verbatim>\<open>createOrUpdateLineSegments\<close> builds.\<close>

datatype edges = BoxEdges real real real | CylinderEdges real real

text \<open>
  A \<^verbatim>\<open>THREE.LineSegments\<close> object with its material and \<^verbatim>\<open>userData\<close>.
  \<open>uuid\<close> is the identity of the object (and of the material made with it),
  \<open>geometry\<close> the identity of the geometry buffer attached to it. The two
  \<^verbatim>\<open>userData\<close> flags are read for truthiness only, so \<^verbatim>\<open>undefined\<close>
  is \<open>False\<close>.
\<close>

record lineSegments =
  uuid :: nat
  geometry :: nat
  geometry_edges :: edges
  mat_color :: nat
  mat_opacity :: real
  mat_transparent :: bool
  seg_position :: vec3
  rotation_y :: real
  ud_id :: string
  ud_height :: real
  isDynamicallyGenerated :: bool
  isAppearing :: bool
  creationTime :: "real option"

datatype resource = Geometry nat | Material nat

record camera =
  cam_fov :: real
  cam_aspect :: real
  cam_position :: vec3

record mount =
  rect_left :: real
  rect_width :: real
  clientWidth :: real
  clientHeight :: real

text \<open>The outcome of one sub-cluster promise, as \<^verbatim>\<open>Promise.allSettled\<close> reports it.\<close>

datatype settled = Fulfilled "cityElementData list option" | Rejected

text \<open>
  A batch whose \<^verbatim>\<open>Promise.allSettled\<close> continuation has not run yet: the
  \<^verbatim>\<open>targetCenters\<close> its closure holds and the id prefixes it passed to
  \<^verbatim>\<open>generateBuildingCluster\<close>.
\<close>

record batch =
  targetCenters :: "vec3 list"
  prefixes :: "string list"

text \<open>Calls to the collaborators, in the order they are made.\<close>

datatype effect =
  ScreenshotInitiated
  | OffscreenRender "nat list"
  | MainRender
  | Download
  | ConsoleError

text \<open>
  The refs of the component, the city colour it was rendered with, and what the
  environment holds for it: \<open>pending\<close> are the batches whose continuation has not run
  yet, \<open>composing\<close> counts the snapshots whose render phase is over and whose
  images have not been loaded and composed yet, \<open>nextObject\<close> is the next unused
  object identity, \<open>disposed\<close> lists the geometries and materials on which
  \<^verbatim>\<open>dispose()\<close> was called, \<open>effects\<close> the calls to the collaborators. \<open>sceneRef\<close>, \<open>rendererRef\<close> and \<open>clockRef\<close> say
  whether the ref is filled; \<open>skyMeshRef\<close> holds the \<^verbatim>\<open>visible\<close> flag of the sky
  mesh and \<open>cityElementsGroupRef\<close> the children of the city group.
\<close>

record cityscape =
  mountRef :: "mount option"
  sceneRef :: bool
  cameraRef :: "camera option"
  rendererRef :: bool
  skyMeshRef :: "bool option"
  cityElementsGroupRef :: "lineSegments list option"
  cameraAzimuthAngleRef :: real
  cameraFovRef :: real
  isCapturingRef :: bool
  isRotatingLeftRef :: bool
  isRotatingRightRef :: bool
  normalizedMouseXRef :: real
  initialPinchDistanceRef :: "real option"
  initialFovAtPinchStartRef :: "real option"
  dynamicallyGeneratedBuildingsRef :: "string set"
  generationTriggerPointsRef :: "vec3 list"
  activeClusterRequestsRef :: int
  nextClusterIdCounterRef :: nat
  clockRef :: bool
  cityColorTHREE :: nat
  pending :: "batch list"
  composing :: nat
  nextObject :: nat
  disposed :: "resource list"
  effects :: "effect list"

subsection \<open>The imperative handle\<close>

datatype direction = Left | Right

definition turnViewDirection :: "direction \<Rightarrow> cityscape \<Rightarrow> cityscape" where
  "turnViewDirection d s =
     (let turnAngle = pi / 4 in
      case d of
        Left \<Rightarrow> s\<lparr>cameraAzimuthAngleRef := cameraAzimuthAngleRef s - turnAngle\<rparr>
      | Right \<Rightarrow> s\<lparr>cameraAzimuthAngleRef := cameraAzimuthAngleRef s + turnAngle\<rparr>)"

definition zoomCameraByFactor :: "real \<Rightarrow> cityscape \<Rightarrow> cityscape" where
  "zoomCameraByFactor factor s =
     (if cameraRef s = None then s
      else let fovChange = DEFAULT_FOV * factor in
        s\<lparr>cameraFovRef := max MIN_FOV (min MAX_FOV (cameraFovRef s + fovChange))\<rparr>)"

subsection \<open>Pointer, wheel and touch handlers\<close>

definition handleMouseWheel :: "real \<Rightarrow> cityscape \<Rightarrow> cityscape" where
  "handleMouseWheel deltaY s =
     (if cameraRef s = None then s
      else let newFov = cameraFovRef s + sgn deltaY * FOV_STEP in
        s\<lparr>cameraFovRef := max MIN_FOV (min MAX_FOV newFov)\<rparr>)"

text \<open>
  \<^verbatim>\<open>updateNormalizedPointerX\<close>. A bounding rectangle of width 0 makes the
  JavaScript quotient infinite or NaN; the model has the HOL quotient there.
\<close>

definition updateNormalizedPointerX :: "real \<Rightarrow> cityscape \<Rightarrow> cityscape" where
  "updateNormalizedPointerX clientX s =
     (case mountRef s of
        None \<Rightarrow> s
      | Some m \<Rightarrow>
          let pointerX = clientX - rect_left m in
          s\<lparr>normalizedMouseXRef := (pointerX / rect_width m) * 2 - 1\<rparr>)"

definition mouseMoveHandler :: "real \<Rightarrow> cityscape \<Rightarrow> cityscape" where
  "mouseMoveHandler clientX s = updateNormalizedPointerX clientX s"

definition mouseLeaveHandler :: "cityscape \<Rightarrow> cityscape" where
  "mouseLeaveHandler s = s\<lparr>normalizedMouseXRef := 0\<rparr>"

record touch =
  clientX :: real
  clientY :: real

definition calculateTouchDistance :: "touch \<Rightarrow> touch \<Rightarrow> real" where
  "calculateTouchDistance touch1 touch2 =
     (let dx = clientX touch1 - clientX touch2; dy = clientY touch1 - clientY touch2
      in sqrt (dx * dx + dy * dy))"

fun touchStartHandler :: "touch list \<Rightarrow> cityscape \<Rightarrow> cityscape" where
  "touchStartHandler [t0, t1] s =
     (if mountRef s = None then s
      else s\<lparr>initialPinchDistanceRef := Some (calculateTouchDistance t0 t1),
             initialFovAtPinchStartRef := Some (cameraFovRef s),
             normalizedMouseXRef := 0\<rparr>)"
| "touchStartHandler [t0] s =
     (if mountRef s = None then s
      else updateNormalizedPointerX (clientX t0)
             (s\<lparr>initialPinchDistanceRef := None, initialFovAtPinchStartRef := None\<rparr>))"
| "touchStartHandler ts s = s"

fun touchMoveHandler :: "touch list \<Rightarrow> cityscape \<Rightarrow> cityscape" where
  "touchMoveHandler [t0, t1] s =
     (if mountRef s = None then s
      else case (initialPinchDistanceRef s, initialFovAtPinchStartRef s) of
        (Some d0, Some f0) \<Rightarrow>
          let currentDistance = calculateTouchDistance t0 t1 in
          if d0 = 0 then s
          else let scale = currentDistance / d0 in
            s\<lparr>cameraFovRef := max MIN_FOV (min MAX_FOV (f0 * scale))\<rparr>
      | _ \<Rightarrow> s)"
| "touchMoveHandler [t0] s =
     (if mountRef s = None then s else updateNormalizedPointerX (clientX t0) s)"
| "touchMoveHandler ts s = s"

definition touchEndHandler :: "touch list \<Rightarrow> cityscape \<Rightarrow> cityscape" where
  "touchEndHandler ts s =
     (let s1 = s\<lparr>normalizedMouseXRef := 0\<rparr>;
          s2 = (if length ts < 2
                then s1\<lparr>initialPinchDistanceRef := None, initialFovAtPinchStartRef := None\<rparr>
                else s1)
      in case ts of [t0] \<Rightarrow> updateNormalizedPointerX (clientX t0) s2 | _ \<Rightarrow> s2)"

datatype key = ArrowLeft | ArrowRight | OtherKey

definition handleKeyDown :: "key \<Rightarrow> cityscape \<Rightarrow> cityscape" where
  "handleKeyDown k s =
     (case k of
        ArrowLeft \<Rightarrow> s\<lparr>isRotatingLeftRef := True\<rparr>
      | ArrowRight \<Rightarrow> s\<lparr>isRotatingRightRef := True\<rparr>
      | OtherKey \<Rightarrow> s)"

definition handleKeyUp :: "key \<Rightarrow> cityscape \<Rightarrow> cityscape" where
  "handleKeyUp k s =
     (case k of
        ArrowLeft \<Rightarrow> s\<lparr>isRotatingLeftRef := False\<rparr>
      | ArrowRight \<Rightarrow> s\<lparr>isRotatingRightRef := False\<rparr>
      | OtherKey \<Rightarrow> s)"

subsection \<open>The geometry builder\<close>

text \<open>
  \<^verbatim>\<open>createOrUpdateLineSegments\<close>. The source tests the optional dimensions for
  truthiness, so a dimension that is absent or 0 selects the next branch (\<open>dimValue\<close>
  is read only where \<open>truthyDim\<close> holds). Every call constructs two geometries:
  a \<^verbatim>\<open>BoxGeometry\<close> or \<^verbatim>\<open>CylinderGeometry\<close>, which gets the identity
  \<open>nextObject\<close> and is disposed before the call returns, and the
  \<^verbatim>\<open>EdgesGeometry\<close> made from it, which gets the next identity and is the one
  attached. A new \<^verbatim>\<open>LineSegments\<close> object, with its material, gets the identity
  after that.
\<close>

fun truthyDim :: "real option \<Rightarrow> bool" where
  "truthyDim (Some v) = (v \<noteq> 0)"
| "truthyDim None = False"

fun dimValue :: "real option \<Rightarrow> real" where
  "dimValue (Some v) = v"
| "dimValue None = 0"

definition buildEdges :: "cityElementData \<Rightarrow> edges" where
  "buildEdges elementData =
     (let d = dims elementData in
      if shape elementData = ''box'' \<and> truthyDim (width d) \<and> height d \<noteq> 0
         \<and> truthyDim (depth d)
      then BoxEdges (dimValue (width d)) (height d) (dimValue (depth d))
      else if shape elementData = ''cylinder'' \<and> truthyDim (radius d) \<and> height d \<noteq> 0
      then CylinderEdges (dimValue (radius d)) (height d)
      else BoxEdges 10 10 10)"

text \<open>\<^verbatim>\<open>dimensions.height || 0\<close>\<close>

definition heightOr0 :: "cityElementData \<Rightarrow> real" where
  "heightOr0 elementData = (if height (dims elementData) = 0 then 0 else height (dims elementData))"

definition placedAt :: "cityElementData \<Rightarrow> vec3" where
  "placedAt elementData =
     vec (vx (position elementData))
         (vy (position elementData) + heightOr0 elementData / 2)
         (vz (position elementData))"

text \<open>
  \<open>now\<close> is what \<^verbatim>\<open>clockRef.current.getElapsedTime()\<close> returns; it is read
  only when \<open>isDynamicFadeIn\<close> holds and the clock is there.
\<close>

definition createOrUpdateLineSegments ::
  "cityElementData \<Rightarrow> lineSegments option \<Rightarrow> bool \<Rightarrow> real \<Rightarrow> cityscape
     \<Rightarrow> lineSegments \<times> cityscape" where
  "createOrUpdateLineSegments elementData existingSegments isDynamicFadeIn now s =
     (let edges = buildEdges elementData;
          g = nextObject s;
          s0 = s\<lparr>nextObject := g + 2, disposed := disposed s @ [Geometry g]\<rparr>
      in
      case existingSegments of
        Some ex \<Rightarrow>
          let ex1 = ex\<lparr>geometry := g + 1, geometry_edges := edges,
                      mat_color := cityColorTHREE s\<rparr>;
              ex2 = (if isDynamicFadeIn \<and> clockRef s
                     then ex1\<lparr>mat_transparent := True, mat_opacity := 1 / 100,
                              isDynamicallyGenerated := True, isAppearing := True,
                              creationTime := Some now\<rparr>
                     else ex1\<lparr>mat_opacity := 1, mat_transparent := False\<rparr>)
          in (ex2, s0\<lparr>disposed := disposed s0 @ [Geometry (geometry ex)]\<rparr>)
      | None \<Rightarrow>
          let fade = (isDynamicFadeIn \<and> clockRef s);
              segments =
                \<lparr>uuid = g + 2, geometry = g + 1, geometry_edges = edges,
                 mat_color = cityColorTHREE s,
                 mat_opacity = (if fade then 1 / 100 else 1),
                 mat_transparent = fade,
                 seg_position = placedAt elementData,
                 rotation_y = (case orientationY elementData of Some r \<Rightarrow> r | None \<Rightarrow> 0),
                 ud_id = elem_id elementData,
                 ud_height = heightOr0 elementData,
                 isDynamicallyGenerated = fade,
                 isAppearing = fade,
                 creationTime = (if fade then Some now else None)\<rparr>
          in (segments, s0\<lparr>nextObject := g + 3\<rparr>))"

subsection \<open>The frame callback\<close>

fun showNat :: "nat \<Rightarrow> string" where
  "showNat n =
     (if n < 10 then [char_of (48 + n)]
      else showNat (n div 10) @ [char_of (48 + n mod 10)])"

declare showNat.simps [simp del]

text \<open>The template \<^verbatim>\<open>`dyn_c${n}_`\<close>.\<close>

definition dyn_c :: "nat \<Rightarrow> string" where
  "dyn_c n = ''dyn_c'' @ showNat n @ ''_''"

definition forwardDirection :: "real \<Rightarrow> vec3" where
  "forwardDirection azimuth = normalize (vec (sin azimuth) 0 (- cos azimuth))"

text \<open>The camera's \<^verbatim>\<open>up\<close> vector is never changed from the default (0,1,0).\<close>

definition rightDirection :: "vec3 \<Rightarrow> vec3" where
  "rightDirection forward = normalize (crossVectors forward (vec 0 1 0))"

definition triggerNewGeneration :: "vec3 \<Rightarrow> vec3 \<Rightarrow> vec3 list \<Rightarrow> bool" where
  "triggerNewGeneration cameraPosition nextClusterPotentialCenter points =
     (if points = []
      then lengthSq cameraPosition
             > (GENERATION_TRIGGER_DISTANCE * (1 / 2)) * (GENERATION_TRIGGER_DISTANCE * (1 / 2))
      else list_all
             (\<lambda>existingPoint.
                \<not> distanceToSquared nextClusterPotentialCenter existingPoint
                    < MIN_DISTANCE_BETWEEN_TRIGGER_POINTS * MIN_DISTANCE_BETWEEN_TRIGGER_POINTS)
             points)"

text \<open>
  \<^verbatim>\<open>Math.floor(Math.random() * 5) + 1\<close>, with \<open>random\<close> the value drawn
  (in the interval from 0 to 1, 1 excluded).
\<close>

definition numClustersToGenerate :: "real \<Rightarrow> nat" where
  "numClustersToGenerate random = nat \<lfloor>random * 5\<rfloor> + 1"

definition targetCenter :: "vec3 \<Rightarrow> vec3 \<Rightarrow> nat \<Rightarrow> nat \<Rightarrow> vec3" where
  "targetCenter baseSpawnPointAhead right n i =
     (let lateralOffset = (real i - (real n - 1) / 2) * INTER_CLUSTER_SPACING
      in addv baseSpawnPointAhead (multiplyScalar right lateralOffset))"

definition issueBatch :: "vec3 \<Rightarrow> vec3 \<Rightarrow> real \<Rightarrow> cityscape \<Rightarrow> cityscape" where
  "issueBatch cameraPosition forward random s =
     (let baseSpawnPointAhead = addScaledVector cameraPosition forward CLUSTER_SPAWN_AHEAD_OFFSET;
          right = rightDirection forward;
          n = numClustersToGenerate random;
          k = nextClusterIdCounterRef s
      in s\<lparr>activeClusterRequestsRef := activeClusterRequestsRef s + 1,
            generationTriggerPointsRef := generationTriggerPointsRef s @ [baseSpawnPointAhead],
            nextClusterIdCounterRef := k + n,
            pending := pending s @
              [\<lparr>targetCenters = map (targetCenter baseSpawnPointAhead right n) [0..<n],
                prefixes = map (\<lambda>i. dyn_c (k + i)) [0..<n]\<rparr>]\<rparr>)"

text \<open>
  The fade-in step for one child. An element is flagged appearing only together with
  its creation time; without one the JavaScript difference is NaN, and the model leaves
  the element alone.
\<close>

definition fadeIn :: "real \<Rightarrow> lineSegments \<Rightarrow> lineSegments" where
  "fadeIn elapsedTimeTotal element =
     (if isDynamicallyGenerated element \<and> isAppearing element then
        (case creationTime element of
           None \<Rightarrow> element
         | Some created \<Rightarrow>
             let timeElapsed = elapsedTimeTotal - created;
                 newOpacity = min 1 (timeElapsed / FADE_IN_DURATION);
                 element1 = element\<lparr>mat_opacity := newOpacity\<rparr>
             in if newOpacity \<ge> 1 then element1\<lparr>isAppearing := False\<rparr> else element1)
      else element)"

text \<open>
  \<^verbatim>\<open>animate\<close>, one frame. \<open>elapsedTimeTotal\<close> is the clock reading of the frame.
  The camera's orientation and the sky plane, which follow from the position computed
  here and are read by the renderer only, are not part of the state.
\<close>

definition animate :: "real \<Rightarrow> real \<Rightarrow> cityscape \<Rightarrow> cityscape" where
  "animate elapsedTimeTotal random s =
     (case (cameraRef s, cityElementsGroupRef s, skyMeshRef s) of
        (Some cam, Some children, Some sky) \<Rightarrow>
          if \<not> sceneRef s \<or> \<not> rendererRef s \<or> \<not> clockRef s then s
          else if isCapturingRef s then s
          else
            let cam1 = (if \<bar>cam_fov cam - cameraFovRef s\<bar> > 1 / 100
                        then cam\<lparr>cam_fov := cameraFovRef s\<rparr> else cam);
                a1 = (if isRotatingLeftRef s
                      then cameraAzimuthAngleRef s - KEYBOARD_ROTATION_SPEED
                      else cameraAzimuthAngleRef s);
                a2 = (if isRotatingRightRef s then a1 + KEYBOARD_ROTATION_SPEED else a1);
                a3 = a2 + normalizedMouseXRef s * MOUSE_AZIMUTH_SENSITIVITY_PER_FRAME;
                forward = forwardDirection a3;
                cameraPosition = addScaledVector (cam_position cam1) forward HIGH_ANGLE_FORWARD_SPEED;
                cam2 = cam1\<lparr>cam_position := cameraPosition\<rparr>;
                s1 = s\<lparr>cameraRef := Some cam2, cameraAzimuthAngleRef := a3\<rparr>;
                nextClusterPotentialCenter =
                  addScaledVector cameraPosition forward CLUSTER_SPAWN_AHEAD_OFFSET;
                s2 = (if triggerNewGeneration cameraPosition nextClusterPotentialCenter
                           (generationTriggerPointsRef s1)
                         \<and> activeClusterRequestsRef s1 < MAX_ACTIVE_CLUSTER_REQUESTS
                      then issueBatch cameraPosition forward random s1 else s1)
            in s2\<lparr>cityElementsGroupRef := Some (map (fadeIn elapsedTimeTotal) children),
                  effects := effects s2 @ [MainRender]\<rparr>
      | _ \<Rightarrow> s)"

subsection \<open>Settling a batch\<close>

definition translated :: "vec3 \<Rightarrow> cityElementData \<Rightarrow> cityElementData" where
  "translated clusterTargetCenter b_data =
     b_data\<lparr>position := (position b_data)
        \<lparr>vx := vx (position b_data) + vx clusterTargetCenter,
         vz := vz (position b_data) + vz clusterTargetCenter\<rparr>\<rparr>"

text \<open>
  The inner \<^verbatim>\<open>newClusterBuildings.forEach\<close>; \<^verbatim>\<open>Group.add\<close> appends the
  new object to the children.
\<close>

fun addCluster :: "vec3 \<Rightarrow> real \<Rightarrow> cityElementData list \<Rightarrow> cityscape \<Rightarrow> cityscape" where
  "addCluster clusterTargetCenter now [] s = s"
| "addCluster clusterTargetCenter now (b_data # rest) s =
     (let b1 = translated clusterTargetCenter b_data;
          (buildingMesh, s1) = createOrUpdateLineSegments b1 None True now s;
          s2 = s1\<lparr>cityElementsGroupRef :=
                    map_option (\<lambda>g. g @ [buildingMesh]) (cityElementsGroupRef s1)\<rparr>;
          s3 = s2\<lparr>dynamicallyGeneratedBuildingsRef :=
                    insert (elem_id b1) (dynamicallyGeneratedBuildingsRef s2)\<rparr>
      in addCluster clusterTargetCenter now rest s3)"

text \<open>The \<^verbatim>\<open>results.forEach\<close> of the \<^verbatim>\<open>then\<close> callback.\<close>

fun applyResults :: "(settled \<times> vec3) list \<Rightarrow> real \<Rightarrow> cityscape \<Rightarrow> cityscape" where
  "applyResults [] now s = s"
| "applyResults ((Fulfilled (Some newClusterBuildings), c) # rest) now s =
     applyResults rest now
       (if cityElementsGroupRef s \<noteq> None then addCluster c now newClusterBuildings s else s)"
| "applyResults ((Fulfilled None, c) # rest) now s = applyResults rest now s"
| "applyResults ((Rejected, c) # rest) now s =
     applyResults rest now (s\<lparr>effects := effects s @ [ConsoleError]\<rparr>)"

text \<open>
  The continuation of the \<open>k\<close>-th pending batch: the \<^verbatim>\<open>then\<close> callback followed by
  the \<^verbatim>\<open>finally\<close> callback. \<^verbatim>\<open>Promise.allSettled\<close> reports one result per
  promise, so a result list of another length is no event of the program.
\<close>

definition settleBatch :: "nat \<Rightarrow> settled list \<Rightarrow> real \<Rightarrow> cityscape \<Rightarrow> cityscape" where
  "settleBatch k results now s =
     (if k < length (pending s) \<and> length results = length (targetCenters (pending s ! k))
      then
        let b = pending s ! k;
            s1 = s\<lparr>pending := take k (pending s) @ drop (Suc k) (pending s)\<rparr>;
            s2 = applyResults (zip results (targetCenters b)) now s1
        in s2\<lparr>activeClusterRequestsRef := activeClusterRequestsRef s2 - 1\<rparr>
      else s)"

subsection \<open>The landscape effect\<close>

definition disposeChild :: "lineSegments \<Rightarrow> resource list" where
  "disposeChild child = [Geometry (geometry child), Material (uuid child)]"

text \<open>
  \<^verbatim>\<open>group.children.slice().forEach\<close> with a test: every child that passes it has
  its geometry and its material disposed and is removed from the group.
\<close>

definition removeChildren :: "(lineSegments \<Rightarrow> bool) \<Rightarrow> cityscape \<Rightarrow> cityscape" where
  "removeChildren doomed s =
     (case cityElementsGroupRef s of
        None \<Rightarrow> s
      | Some children \<Rightarrow>
          s\<lparr>cityElementsGroupRef := Some (filter (\<lambda>child. \<not> doomed child) children),
            disposed := disposed s @ concat (map disposeChild (filter doomed children))\<rparr>)"

text \<open>Step 1 of the effect.\<close>

definition clearDynamicBuildings :: "cityscape \<Rightarrow> cityscape" where
  "clearDynamicBuildings s =
     (if dynamicallyGeneratedBuildingsRef s \<noteq> {} then
        (removeChildren (\<lambda>child. ud_id child \<in> dynamicallyGeneratedBuildingsRef s) s)
          \<lparr>dynamicallyGeneratedBuildingsRef := {},
           generationTriggerPointsRef := [],
           activeClusterRequestsRef := 0,
           nextClusterIdCounterRef := 0\<rparr>
      else s)"

text \<open>Replacing the first child that passes the test models the mutation of the object
  that \<^verbatim>\<open>children.find\<close> returned.\<close>

fun replaceFirst :: "('a \<Rightarrow> bool) \<Rightarrow> 'a \<Rightarrow> 'a list \<Rightarrow> 'a list" where
  "replaceFirst P y [] = []"
| "replaceFirst P y (x # xs) = (if P x then y # xs else x # replaceFirst P y xs)"

text \<open>The body of \<^verbatim>\<open>landscapeData.buildings.forEach\<close>.\<close>

definition mergeBuilding :: "cityElementData \<Rightarrow> cityscape \<Rightarrow> cityscape" where
  "mergeBuilding b_data s =
     (if elem_id b_data \<in> dynamicallyGeneratedBuildingsRef s then s
      else case cityElementsGroupRef s of
        None \<Rightarrow> s
      | Some children \<Rightarrow>
          (case find (\<lambda>c. ud_id c = elem_id b_data) children of
             Some element \<Rightarrow>
               let element1 = element\<lparr>mat_color := cityColorTHREE s\<rparr>;
                   (element2, s1) = createOrUpdateLineSegments b_data (Some element1) False 0 s;
                   element3 = element2
                     \<lparr>seg_position := placedAt b_data,
                      rotation_y := (case orientationY b_data of
                                       Some r \<Rightarrow> r | None \<Rightarrow> rotation_y element2),
                      ud_height := heightOr0 b_data,
                      isDynamicallyGenerated := False,
                      isAppearing := False\<rparr>
               in s1\<lparr>cityElementsGroupRef :=
                       Some (replaceFirst (\<lambda>c. ud_id c = elem_id b_data) element3 children)\<rparr>
           | None \<Rightarrow>
               let (element, s1) = createOrUpdateLineSegments b_data None False 0 s
               in s1\<lparr>cityElementsGroupRef := Some (children @ [element])\<rparr>))"

fun updateOrAdd :: "cityElementData list \<Rightarrow> cityscape \<Rightarrow> cityscape" where
  "updateOrAdd [] s = s"
| "updateOrAdd (b_data # rest) s = updateOrAdd rest (mergeBuilding b_data s)"

text \<open>Step 2 of the effect.\<close>

definition reconcile :: "landscapeData option \<Rightarrow> cityscape \<Rightarrow> cityscape" where
  "reconcile landscape s =
     (case landscape of
        None \<Rightarrow> removeChildren (\<lambda>child. True) s
      | Some l \<Rightarrow>
          if buildings l = [] then removeChildren (\<lambda>child. True) s
          else
            let newInitialElementIds = set (map elem_id (buildings l));
                s1 = updateOrAdd (buildings l) s
            in removeChildren
                 (\<lambda>child. \<not> isDynamicallyGenerated child \<and> ud_id child \<notin> newInitialElementIds)
                 s1)"

definition landscapeEffect :: "landscapeData option \<Rightarrow> cityscape \<Rightarrow> cityscape" where
  "landscapeEffect landscape s =
     (if cityElementsGroupRef s = None \<or> \<not> sceneRef s then s
      else reconcile landscape (clearDynamicBuildings s))"

subsection \<open>The snapshot\<close>

text \<open>Where the render phase (the \<^verbatim>\<open>try\<close> block) may throw.\<close>

datatype fault = GreenRendererFails | GreenRenderFails | WhiteRendererFails | WhiteRenderFails

text \<open>How the composition ends, once both images are loaded or one of them has failed
  to load: with the download, with a logged image-loading error, or silently when the
  canvas gives no 2D context.\<close>

datatype composition = Downloaded | ImageLoadFails | NoDrawingContext

definition originalColor :: "(nat \<times> nat) list \<Rightarrow> nat \<Rightarrow> lineSegments \<Rightarrow> nat" where
  "originalColor originalMaterialColors cityColor element =
     (case map_of originalMaterialColors (uuid element) of
        Some c \<Rightarrow> c
      | None \<Rightarrow> cityColor)"

definition mapChildren :: "(lineSegments \<Rightarrow> lineSegments) \<Rightarrow> cityscape \<Rightarrow> cityscape" where
  "mapChildren f s = s\<lparr>cityElementsGroupRef := map_option (map f) (cityElementsGroupRef s)\<rparr>"

definition childColors :: "cityscape \<Rightarrow> nat list" where
  "childColors s = (case cityElementsGroupRef s of None \<Rightarrow> [] | Some g \<Rightarrow> map mat_color g)"

text \<open>The \<^verbatim>\<open>try\<close> block: the state it leaves and whether it threw.\<close>

definition renderPhase :: "fault option \<Rightarrow> (nat \<times> nat) list \<Rightarrow> camera \<Rightarrow> cityscape
     \<Rightarrow> cityscape \<times> bool" where
  "renderPhase flt originalMaterialColors cam s =
     (let s1 = s\<lparr>cameraRef := Some (cam\<lparr>cam_aspect := 1\<rparr>)\<rparr> in
      if flt = Some GreenRendererFails then (s1, True)
      else
        let s2 = mapChildren
                   (\<lambda>e. e\<lparr>mat_color := originalColor originalMaterialColors (cityColorTHREE s) e\<rparr>)
                   s1;
            s3 = s2\<lparr>skyMeshRef := Some False\<rparr>
        in if flt = Some GreenRenderFails then (s3, True)
           else
             let s4 = s3\<lparr>effects := effects s3 @ [OffscreenRender (childColors s3)]\<rparr>;
                 s5 = mapChildren (\<lambda>e. e\<lparr>mat_color := 0xffffff\<rparr>) s4
             in if flt = Some WhiteRendererFails \<or> flt = Some WhiteRenderFails then (s5, True)
                else (s5\<lparr>effects := effects s5 @ [OffscreenRender (childColors s5)]\<rparr>, False))"

text \<open>The per-child body of the \<^verbatim>\<open>finally\<close> block (as in \<open>fadeIn\<close>, an
  appearing element has its creation time).\<close>

definition restoreChild :: "(nat \<times> nat) list \<Rightarrow> nat \<Rightarrow> bool \<Rightarrow> real \<Rightarrow> lineSegments
     \<Rightarrow> lineSegments" where
  "restoreChild originalMaterialColors cityColor clock now element =
     (let e1 = element\<lparr>mat_color := originalColor originalMaterialColors cityColor element\<rparr> in
      if isDynamicallyGenerated e1 \<and> isAppearing e1 \<and> clock then
        (case creationTime e1 of
           Some created \<Rightarrow>
             e1\<lparr>mat_opacity := min 1 ((now - created) / FADE_IN_DURATION), mat_transparent := True\<rparr>
         | None \<Rightarrow> e1\<lparr>mat_transparent := True\<rparr>)
      else if isDynamicallyGenerated e1 \<and> \<not> isAppearing e1 then
        e1\<lparr>mat_opacity := 1, mat_transparent := True\<rparr>
      else e1\<lparr>mat_opacity := 1, mat_transparent := False\<rparr>)"

text \<open>The entries of \<^verbatim>\<open>originalMaterialColors\<close>.\<close>

definition savedColors :: "cityscape \<Rightarrow> (nat \<times> nat) list" where
  "savedColors s =
     (case cityElementsGroupRef s of
        None \<Rightarrow> []
      | Some g \<Rightarrow> map (\<lambda>e. (uuid e, mat_color e)) g)"

text \<open>
  What the handler does between its guards and the \<^verbatim>\<open>try\<close> block: the
  collaborator is notified, the flag is set, and every child is made opaque.
\<close>

definition beginCapture :: "cityscape \<Rightarrow> cityscape" where
  "beginCapture s =
     (let s1 = s\<lparr>effects := effects s @ [ScreenshotInitiated]\<rparr>;
          s2 = s1\<lparr>isCapturingRef := True\<rparr>
      in mapChildren (\<lambda>e. e\<lparr>mat_opacity := 1, mat_transparent := False\<rparr>) s2)"

text \<open>The \<^verbatim>\<open>finally\<close> block; \<open>now\<close> is the clock reading in it.\<close>

definition endCapture :: "(nat \<times> nat) list \<Rightarrow> real \<Rightarrow> bool \<Rightarrow> real \<Rightarrow> cityscape
     \<Rightarrow> cityscape" where
  "endCapture originalMaterialColors originalAspect originalSkyVisible now s =
     (let s1 = s\<lparr>cameraRef := map_option (\<lambda>c. c\<lparr>cam_aspect := originalAspect\<rparr>) (cameraRef s)\<rparr>;
          s2 = mapChildren
                 (restoreChild originalMaterialColors (cityColorTHREE s) (clockRef s) now) s1
      in s2\<lparr>skyMeshRef := Some originalSkyVisible, isCapturingRef := False\<rparr>)"

text \<open>
  \<^verbatim>\<open>handleCanvasClickAndCapture\<close> from its first line to its
  \<^verbatim>\<open>await\<close>, which is what one invocation runs in one piece: the guards, the
  render phase and the \<^verbatim>\<open>finally\<close> block. \<open>flt\<close> says where the render
  phase throws, if it does. After a render phase that did not throw, the handler waits
  for its two images to load, and \<open>composing\<close> counts it; the rest of the handler
  is \<open>composeCover\<close>. When the render phase throws, the exception leaves the
  handler after the \<^verbatim>\<open>finally\<close> block and nothing more of it runs.
\<close>

definition handleCanvasClickAndCapture :: "fault option \<Rightarrow> real \<Rightarrow> cityscape \<Rightarrow> cityscape" where
  "handleCanvasClickAndCapture flt now s =
     (case (cameraRef s, mountRef s, skyMeshRef s) of
        (Some cam, Some m, Some originalSkyVisible) \<Rightarrow>
          if \<not> rendererRef s \<or> \<not> sceneRef s then s
          else if isCapturingRef s then s
          else
            let originalMaterialColors = savedColors s;
                s1 = beginCapture s;
                originalAspect = cam_aspect cam;
                (s2, threw) = renderPhase flt originalMaterialColors cam s1;
                s3 = endCapture originalMaterialColors originalAspect originalSkyVisible now s2
            in if threw then s3 else s3\<lparr>composing := composing s3 + 1\<rparr>
      | _ \<Rightarrow> s)"

text \<open>
  The rest of the handler, after the \<^verbatim>\<open>await\<close>, for one of the snapshots that
  are waiting for their images: the cover is drawn on a canvas of its own and
  downloaded. It touches no ref.
\<close>

definition composeCover :: "composition \<Rightarrow> cityscape \<Rightarrow> cityscape" where
  "composeCover composed s =
     (if composing s = 0 then s
      else s\<lparr>composing := composing s - 1,
             effects := effects s @
               (case composed of
                  Downloaded \<Rightarrow> [Download]
                | ImageLoadFails \<Rightarrow> [ConsoleError]
                | NoDrawingContext \<Rightarrow> [])\<rparr>)"

subsection \<open>The component as a transition system\<close>

text \<open>
  The state once the set-up effect has run on a mount of the given size, for a city
  colour: the camera at its initial position, an empty city group, every handler
  registered.
\<close>

definition mounted :: "mount \<Rightarrow> nat \<Rightarrow> cityscape" where
  "mounted m cityColor =
     \<lparr>mountRef = Some m,
      sceneRef = True,
      cameraRef = Some \<lparr>cam_fov = DEFAULT_FOV,
                        cam_aspect = clientWidth m / max 1 (clientHeight m),
                        cam_position = vec 0 HIGH_ANGLE_INITIAL_CAMERA_Y HIGH_ANGLE_INITIAL_CAMERA_Z\<rparr>,
      rendererRef = True,
      skyMeshRef = Some True,
      cityElementsGroupRef = Some [],
      cameraAzimuthAngleRef = 0,
      cameraFovRef = DEFAULT_FOV,
      isCapturingRef = False,
      isRotatingLeftRef = False,
      isRotatingRightRef = False,
      normalizedMouseXRef = 0,
      initialPinchDistanceRef = None,
      initialFovAtPinchStartRef = None,
      dynamicallyGeneratedBuildingsRef = {},
      generationTriggerPointsRef = [],
      activeClusterRequestsRef = 0,
      nextClusterIdCounterRef = 0,
      clockRef = True,
      cityColorTHREE = cityColor,
      pending = [],
      composing = 0,
      nextObject = 0,
      disposed = [],
      effects = []\<rparr>"

text \<open>What the browser, React and the UI shell can make the component do.\<close>

datatype event =
  TurnViewDirection direction
  | ZoomCameraByFactor real
  | MouseWheel real
  | MouseMove real
  | MouseLeave
  | TouchStart "touch list"
  | TouchMove "touch list"
  | TouchEnd "touch list"
  | KeyDown key
  | KeyUp key
  | Frame real real
  | Settle nat "settled list" real
  | LandscapeChange "landscapeData option"
  | Capture "fault option" real
  | Composed composition

fun step :: "event \<Rightarrow> cityscape \<Rightarrow> cityscape" where
  "step (TurnViewDirection d) s = turnViewDirection d s"
| "step (ZoomCameraByFactor factor) s = zoomCameraByFactor factor s"
| "step (MouseWheel deltaY) s = handleMouseWheel deltaY s"
| "step (MouseMove x) s = mouseMoveHandler x s"
| "step MouseLeave s = mouseLeaveHandler s"
| "step (TouchStart ts) s = touchStartHandler ts s"
| "step (TouchMove ts) s = touchMoveHandler ts s"
| "step (TouchEnd ts) s = touchEndHandler ts s"
| "step (KeyDown k) s = handleKeyDown k s"
| "step (KeyUp k) s = handleKeyUp k s"
| "step (Frame elapsedTimeTotal random) s = animate elapsedTimeTotal random s"
| "step (Settle k results now) s = settleBatch k results now s"
| "step (LandscapeChange landscape) s = landscapeEffect landscape s"
| "step (Capture flt now) s = handleCanvasClickAndCapture flt now s"
| "step (Composed composed) s = composeCover composed s"

fun run :: "event list \<Rightarrow> cityscape \<Rightarrow> cityscape" where
  "run [] s = s"
| "run (e # es) s = run es (step e s)"

subsection \<open>Validation of generated content\<close>

text \<open>
  A JavaScript string is the list of its UTF-16 code units, which is what
  \<^verbatim>\<open>length\<close>, \<^verbatim>\<open>substring\<close>, \<^verbatim>\<open>includes\<close>,
  \<^verbatim>\<open>trim\<close> and \<^verbatim>\<open>===\<close> work on. \<open>js\<close> is the string that
  an ASCII literal of the source denotes.
\<close>

type_synonym jsString = "nat list"

definition js :: "string \<Rightarrow> jsString" where
  "js literal = map of_char literal"

text \<open>
  What \<^verbatim>\<open>JSON.parse\<close> returns. An object is the list of its properties, each key
  once.
\<close>

datatype json =
  JNull
  | JBool bool
  | JNumber real
  | JString jsString
  | JArray "json list"
  | JObject "(jsString \<times> json) list"

text \<open>
  Reading a property of a value that is not \<^verbatim>\<open>null\<close>; \<open>None\<close> is
  \<^verbatim>\<open>undefined\<close>. Of the names the program reads, arrays and strings have
  \<^verbatim>\<open>length\<close> only.
\<close>

fun getProp :: "json \<Rightarrow> jsString \<Rightarrow> json option" where
  "getProp (JObject kvs) k = map_of kvs k"
| "getProp (JArray xs) k =
     (if k = js ''length'' then Some (JNumber (real (length xs))) else None)"
| "getProp (JString str) k =
     (if k = js ''length'' then Some (JNumber (real (length str))) else None)"
| "getProp v k = None"

fun truthy :: "json \<Rightarrow> bool" where
  "truthy JNull = False"
| "truthy (JBool b) = b"
| "truthy (JNumber n) = (n \<noteq> 0)"
| "truthy (JString str) = (str \<noteq> [])"
| "truthy v = True"

text \<open>\<^verbatim>\<open>typeof v === 'object' && v !== null\<close>\<close>

fun isObject :: "json \<Rightarrow> bool" where
  "isObject (JObject kvs) = True"
| "isObject (JArray xs) = True"
| "isObject v = False"

fun isNumber :: "json option \<Rightarrow> bool" where
  "isNumber (Some (JNumber n)) = True"
| "isNumber v = False"

fun isString :: "json option \<Rightarrow> bool" where
  "isString (Some (JString str)) = True"
| "isString v = False"

text \<open>\<^verbatim>\<open>typeof v !== 'number' || v <= 0\<close>, negated.\<close>

fun isPositiveNumber :: "json option \<Rightarrow> bool" where
  "isPositiveNumber (Some (JNumber n)) = (\<not> n \<le> 0)"
| "isPositiveNumber v = False"

text \<open>
  The code units that \<^verbatim>\<open>trim\<close> removes: white space and line terminators
  (U+0009 to U+000D, U+0020, U+00A0, U+1680, U+2000 to U+200A, U+2028, U+2029, U+202F,
  U+205F, U+3000, U+FEFF).
\<close>

definition whiteSpace :: "nat \<Rightarrow> bool" where
  "whiteSpace u =
     (u \<in> {0x9, 0xA, 0xB, 0xC, 0xD, 0x20, 0xA0, 0x1680, 0x2028, 0x2029, 0x202F, 0x205F,
            0x3000, 0xFEFF}
      \<or> (0x2000 \<le> u \<and> u \<le> 0x200A))"

text \<open>\<^verbatim>\<open>str.trim() === ''\<close>\<close>

definition trimsToEmpty :: "jsString \<Rightarrow> bool" where
  "trimsToEmpty str = list_all whiteSpace str"

text \<open>\<^verbatim>\<open>isValidBuildingElement\<close>, check by check.\<close>

definition isValidBuildingElement :: "json \<Rightarrow> bool" where
  "isValidBuildingElement el =
     (if \<not> isObject el then False
      else if \<not> isString (getProp el (js ''id''))
              \<or> (case getProp el (js ''id'') of
                    Some (JString i) \<Rightarrow> trimsToEmpty i
                  | _ \<Rightarrow> False)
           then False
      else if getProp el (js ''type'') \<noteq> Some (JString (js ''building'')) then False
      else if getProp el (js ''shape'') \<noteq> Some (JString (js ''box''))
              \<and> getProp el (js ''shape'') \<noteq> Some (JString (js ''cylinder'')) then False
      else case getProp el (js ''position'') of
        None \<Rightarrow> False
      | Some pos \<Rightarrow>
          if \<not> isObject pos then False
          else if \<not> isNumber (getProp pos (js ''x''))
                  \<or> \<not> isNumber (getProp pos (js ''y''))
                  \<or> \<not> isNumber (getProp pos (js ''z'')) then False
          else if getProp pos (js ''y'') \<noteq> Some (JNumber 0) then False
          else case getProp el (js ''dimensions'') of
            None \<Rightarrow> False
          | Some dm \<Rightarrow>
              if \<not> isObject dm then False
              else if \<not> isPositiveNumber (getProp dm (js ''height'')) then False
              else if getProp el (js ''shape'') = Some (JString (js ''box''))
                      \<and> (\<not> isPositiveNumber (getProp dm (js ''width''))
                           \<or> \<not> isPositiveNumber (getProp dm (js ''depth''))) then False
              else if getProp el (js ''shape'') = Some (JString (js ''cylinder''))
                      \<and> \<not> isPositiveNumber (getProp dm (js ''radius'')) then False
              else if getProp el (js ''orientationY'') \<noteq> None
                      \<and> \<not> isNumber (getProp el (js ''orientationY''))
                   then False
              else True)"

text \<open>The application state that \<^verbatim>\<open>generateNewLandscape\<close> sets.\<close>

record app =
  app_landscapeData :: "json option"
  app_isLoading :: bool
  app_error :: "jsString option"

text \<open>
  What the content service answers: the response text, already trimmed and stripped of
  a code fence (\<^verbatim>\<open>jsonStr\<close>), or an exception, which is an \<^verbatim>\<open>Error\<close>
  with a message or some other value.
\<close>

datatype response = Text jsString | Throws "jsString option"

definition minBuildings :: nat where [simp]: "minBuildings = 25"
definition maxBuildings :: nat where [simp]: "maxBuildings = 50"

text \<open>The condition under which \<^verbatim>\<open>setLandscapeData(parsedData)\<close> is called, for
  parsed data that is not \<^verbatim>\<open>null\<close>.\<close>

definition landscapeAccepted :: "json \<Rightarrow> bool" where
  "landscapeAccepted parsedData =
     (case getProp parsedData (js ''sky'') of
        None \<Rightarrow> False
      | Some sky \<Rightarrow>
          truthy sky
          \<and> isString (getProp sky (js ''topColor''))
          \<and> isString (getProp sky (js ''horizonColor''))
          \<and> (case getProp parsedData (js ''buildings'') of
                Some (JArray bs) \<Rightarrow>
                  length bs \<ge> minBuildings \<and> length bs \<le> maxBuildings
                  \<and> list_all isValidBuildingElement bs
              | _ \<Rightarrow> False))"

definition rawResponseLog :: "jsString \<Rightarrow> jsString" where
  "rawResponseLog jsonStr =
     (if length jsonStr < 2000 then jsonStr else take 1997 jsonStr @ js ''...'')"

definition parseFailureMessage :: "jsString \<Rightarrow> jsString" where
  "parseFailureMessage jsonStr =
     js ''Failed to parse landscape data from API. Invalid JSON structure. Raw: ''
       @ rawResponseLog jsonStr"

text \<open>The message of the outer \<^verbatim>\<open>catch\<close>.\<close>

definition errorMessage :: "jsString option \<Rightarrow> jsString" where
  "errorMessage err =
     (case err of
        None \<Rightarrow> js ''Failed to generate landscape data. Please try again.''
      | Some message \<Rightarrow>
          if sublist (js ''API key not valid'') message
          then js ''API Key is not valid. Please check your configuration.''
          else js ''Error: '' @ message)"

definition landscapeFailed :: "jsString option \<Rightarrow> app \<Rightarrow> app" where
  "landscapeFailed err a =
     a\<lparr>app_error := Some (errorMessage err), app_landscapeData := None, app_isLoading := False\<rparr>"

text \<open>
  \<^verbatim>\<open>generateNewLandscape\<close> from its first line to its last; \<open>apiKey\<close> says
  whether the key is configured, \<open>parse\<close> is \<^verbatim>\<open>JSON.parse\<close>, with \<open>None\<close>
  for a \<^verbatim>\<open>SyntaxError\<close>. Reading \<^verbatim>\<open>sky\<close> of \<^verbatim>\<open>null\<close> throws
  inside the inner \<^verbatim>\<open>try\<close>, as the explicit \<^verbatim>\<open>throw\<close> of the validation does.
\<close>

definition generateNewLandscape ::
  "bool \<Rightarrow> (jsString \<Rightarrow> json option) \<Rightarrow> response \<Rightarrow> app \<Rightarrow> app" where
  "generateNewLandscape apiKey parse resp a =
     (if \<not> apiKey then
        a\<lparr>app_error := Some (js ''API_KEY is missing. Cannot generate landscape data.''),
          app_isLoading := False,
          app_landscapeData := None\<rparr>
      else
        let a1 = a\<lparr>app_isLoading := True, app_error := None\<rparr> in
        case resp of
          Throws err \<Rightarrow> landscapeFailed err a1
        | Text jsonStr \<Rightarrow>
            (case parse jsonStr of
               None \<Rightarrow> landscapeFailed (Some (parseFailureMessage jsonStr)) a1
             | Some parsedData \<Rightarrow>
                 if parsedData \<noteq> JNull \<and> landscapeAccepted parsedData
                 then a1\<lparr>app_landscapeData := Some parsedData, app_isLoading := False\<rparr>
                 else landscapeFailed (Some (parseFailureMessage jsonStr)) a1))"

text \<open>
  The condition \<^verbatim>\<open>error && !isLoading\<close> under which the application renders
  the error message.
\<close>

definition errorShown :: "app \<Rightarrow> bool" where
  "errorShown a =
     (case app_error a of
        None \<Rightarrow> False
      | Some message \<Rightarrow> message \<noteq> [] \<and> \<not> app_isLoading a)"

text \<open>\<^verbatim>\<open>{...b, id: `${clusterIdPrefix}${b.id}`}\<close> for an element that passed the
  validation, hence an object with a string \<^verbatim>\<open>id\<close>.\<close>

fun withPrefix :: "jsString \<Rightarrow> json \<Rightarrow> json" where
  "withPrefix clusterIdPrefix (JObject kvs) =
     (case map_of kvs (js ''id'') of
        Some (JString i) \<Rightarrow>
          JObject ((js ''id'', JString (clusterIdPrefix @ i))
                   # filter (\<lambda>kv. fst kv \<noteq> js ''id'') kvs)
      | _ \<Rightarrow> JObject kvs)"
| "withPrefix clusterIdPrefix v = v"

definition generateBuildingCluster ::
  "bool \<Rightarrow> (jsString \<Rightarrow> json option) \<Rightarrow> response \<Rightarrow> jsString
     \<Rightarrow> json list option" where
  "generateBuildingCluster apiKey parse resp clusterIdPrefix =
     (if \<not> apiKey then None
      else case resp of
        Throws err \<Rightarrow> None
      | Text jsonStr \<Rightarrow>
          (case parse jsonStr of
             Some (JArray parsedClusterData) \<Rightarrow>
               if length parsedClusterData \<ge> 5 \<and> length parsedClusterData \<le> 8
                  \<and> list_all isValidBuildingElement parsedClusterData
               then Some (map (withPrefix clusterIdPrefix) parsedClusterData)
               else None
           | _ \<Rightarrow> None))"

subsection \<open>Invariants and sample inputs\<close>

text \<open>Every ref that the set-up effect fills is filled.\<close>

definition present :: "cityscape \<Rightarrow> bool" where
  "present s =
     (mountRef s \<noteq> None \<and> sceneRef s \<and> cameraRef s \<noteq> None \<and> rendererRef s
      \<and> skyMeshRef s \<noteq> None \<and> cityElementsGroupRef s \<noteq> None \<and> clockRef s)"

definition fovClamped :: "cityscape \<Rightarrow> bool" where
  "fovClamped s = (MIN_FOV \<le> cameraFovRef s \<and> cameraFovRef s \<le> MAX_FOV)"

text \<open>The events of the pointer, the keyboard and the imperative handle.\<close>

fun isInput :: "event \<Rightarrow> bool" where
  "isInput (Frame t r) = False"
| "isInput (Settle k rs now) = False"
| "isInput (LandscapeChange l) = False"
| "isInput (Capture flt now) = False"
| "isInput (Composed composed) = False"
| "isInput e = True"

definition mount0 :: mount where
  "mount0 = \<lparr>rect_left = 0, rect_width = 800, clientWidth = 800, clientHeight = 600\<rparr>"

definition lime :: nat where
  "lime = 0xa3e635"

text \<open>Any two recorded points are at least the minimum separation apart.\<close>

definition separated :: "vec3 list \<Rightarrow> bool" where
  "separated ps =
     (\<forall>i < length ps. \<forall>j < length ps.
        i \<noteq> j \<longrightarrow> MIN_DISTANCE_BETWEEN_TRIGGER_POINTS \<le> distanceTo (ps ! i) (ps ! j))"

text \<open>
  A run with two triggers: the first frame issues a batch, the batch fails, the view is
  turned by a quarter circle, and the next frame issues the second batch.
\<close>

definition twoTriggers :: "event list" where
  "twoTriggers =
     [Frame 0 0, Settle 0 [Rejected] 1, TurnViewDirection Right, TurnViewDirection Right,
      Frame 2 0]"

text \<open>A building as a cluster request returns it, in cluster-local coordinates.\<close>

definition streamed0 :: cityElementData where
  "streamed0 =
     \<lparr>elem_id = ''dyn_c0_bld_1'', shape = ''box'', position = vec 1 0 2,
      dims = \<lparr>height = 20, width = Some 10, depth = Some 10, radius = None\<rparr>,
      orientationY = None\<rparr>"

text \<open>
  A run in which a landscape arrives while a batch is in flight: the first batch brings a
  building, the second batch is issued after a quarter turn and is still pending when
  the landscape effect runs; then comes the next frame.
\<close>

definition overlap :: "landscapeData option \<Rightarrow> event list" where
  "overlap l =
     [Frame 0 0, Settle 0 [Fulfilled (Some [streamed0])] 1,
      TurnViewDirection Right, TurnViewDirection Right, Frame 2 0,
      LandscapeChange l, Frame 3 0]"

text \<open>
  What a mesh built for a streamed building looks like: \<open>b_data\<close> is the building as
  the request returned it, \<open>offset\<close> the translation applied to it.
\<close>

definition streamedFrom :: "cityElementData \<Rightarrow> vec3 \<Rightarrow> real \<Rightarrow> lineSegments \<Rightarrow> bool" where
  "streamedFrom b_data offset now element =
     (isDynamicallyGenerated element \<and> isAppearing element
      \<and> creationTime element = Some now
      \<and> mat_opacity element = 1 / 100 \<and> mat_transparent element
      \<and> ud_id element = elem_id b_data
      \<and> seg_position element = addv (placedAt b_data) offset)"

text \<open>Six buildings of a cluster, in cluster-local coordinates.\<close>

definition cluster6 :: "cityElementData list" where
  "cluster6 =
     map (\<lambda>i. \<lparr>elem_id = ''dyn_c1_bld_'' @ showNat i, shape = ''box'',
                position = vec (real i * 15 - 40) 0 (20 - real i * 10),
                dims = \<lparr>height = 50 + real i, width = Some 10, depth = Some 12, radius = None\<rparr>,
                orientationY = None\<rparr>)
       [0..<6]"

text \<open>
  The mounted component with a batch of three requests pending, the second of them for
  the centre (100,0,200).
\<close>

definition awaiting :: cityscape where
  "awaiting =
     (mounted mount0 lime)
       \<lparr>activeClusterRequestsRef := 1,
        nextClusterIdCounterRef := 3,
        pending := [\<lparr>targetCenters = [vec (- 125) 0 200, vec 100 0 200, vec 325 0 200],
                     prefixes = [dyn_c 0, dyn_c 1, dyn_c 2]\<rparr>]\<rparr>"

text \<open>The number of buildings that the fulfilled results of a batch bring.\<close>

fun delivered :: "settled list \<Rightarrow> nat" where
  "delivered [] = 0"
| "delivered (Fulfilled (Some newClusterBuildings) # rest) =
     length newClusterBuildings + delivered rest"
| "delivered (Fulfilled None # rest) = delivered rest"
| "delivered (Rejected # rest) = delivered rest"

text \<open>\<^verbatim>\<open>group.children\<close>\<close>

definition children :: "cityscape \<Rightarrow> lineSegments list" where
  "children s = (case cityElementsGroupRef s of None \<Rightarrow> [] | Some g \<Rightarrow> g)"

text \<open>A building that passes the validation, and a landscape of 25 of them.\<close>

definition validBox :: json where
  "validBox =
     JObject [(js ''id'', JString (js ''bld_1'')), (js ''type'', JString (js ''building'')),
              (js ''shape'', JString (js ''box'')),
              (js ''position'',
                 JObject [(js ''x'', JNumber 10), (js ''y'', JNumber 0), (js ''z'', JNumber (- 20))]),
              (js ''dimensions'',
                 JObject [(js ''width'', JNumber 10), (js ''height'', JNumber 50),
                          (js ''depth'', JNumber 12)])]"

definition skyline :: "nat \<Rightarrow> json" where
  "skyline n =
     JObject [(js ''sky'', JObject [(js ''topColor'', JString (js ''#2c003e'')),
                                    (js ''horizonColor'', JString (js ''#ff00cc''))]),
              (js ''buildings'', JArray (replicate n validBox))]"

definition freshApp :: app where
  "freshApp = \<lparr>app_landscapeData = None, app_isLoading = True, app_error = None\<rparr>"

text \<open>
  The children flagged dynamic have their ids in the dynamic-id set, and the others have
  distinct ids.
\<close>

definition tidy :: "cityscape \<Rightarrow> bool" where
  "tidy s =
     ((\<forall>c \<in> set (children s).
         isDynamicallyGenerated c \<longrightarrow> ud_id c \<in> dynamicallyGeneratedBuildingsRef s)
      \<and> distinct (map ud_id (filter (\<lambda>c. \<not> isDynamicallyGenerated c) (children s))))"

text \<open>A landscape of 25 buildings.\<close>

definition tower :: "nat \<Rightarrow> cityElementData" where
  "tower i =
     \<lparr>elem_id = ''bld_'' @ showNat i,
      shape = (if even i then ''box'' else ''cylinder''),
      position = vec (real i * 12 - 150) 0 (- (real i * 20)),
      dims = \<lparr>height = 40 + real i, width = Some 10, depth = Some 10, radius = Some 5\<rparr>,
      orientationY = None\<rparr>"

definition plaza :: landscapeData where
  "plaza = \<lparr>topColor = ''#2c003e'', horizonColor = ''#ff00cc'', buildings = map tower [0..<25]\<rparr>"

text \<open>Two lists of children that agree, position by position, on id and dynamic flag.\<close>

definition sameTags :: "lineSegments list \<Rightarrow> lineSegments list \<Rightarrow> bool" where
  "sameTags cs' cs =
     list_all2 (\<lambda>a b. ud_id a = ud_id b \<and> isDynamicallyGenerated a = isDynamicallyGenerated b)
       cs' cs"

text \<open>A run after which one streamed building is in the group and no batch is pending.\<close>

definition oneStreamed :: "event list" where
  "oneStreamed = [Frame 0 0, Settle 0 [Fulfilled (Some [streamed0])] 1]"

section \<open>Frame conditions\<close>

text \<open>What each operation leaves alone.\<close>

lemma createOrUpdateLineSegments_frame [simp]:
  "mountRef (snd (createOrUpdateLineSegments b ex f now s)) = mountRef s"
  "sceneRef (snd (createOrUpdateLineSegments b ex f now s)) = sceneRef s"
  "cameraRef (snd (createOrUpdateLineSegments b ex f now s)) = cameraRef s"
  "rendererRef (snd (createOrUpdateLineSegments b ex f now s)) = rendererRef s"
  "skyMeshRef (snd (createOrUpdateLineSegments b ex f now s)) = skyMeshRef s"
  "cityElementsGroupRef (snd (createOrUpdateLineSegments b ex f now s)) = cityElementsGroupRef s"
  "cameraAzimuthAngleRef (snd (createOrUpdateLineSegments b ex f now s))
     = cameraAzimuthAngleRef s"
  "cameraFovRef (snd (createOrUpdateLineSegments b ex f now s)) = cameraFovRef s"
  "isCapturingRef (snd (createOrUpdateLineSegments b ex f now s)) = isCapturingRef s"
  "isRotatingLeftRef (snd (createOrUpdateLineSegments b ex f now s)) = isRotatingLeftRef s"
  "isRotatingRightRef (snd (createOrUpdateLineSegments b ex f now s)) = isRotatingRightRef s"
  "normalizedMouseXRef (snd (createOrUpdateLineSegments b ex f now s)) = normalizedMouseXRef s"
  "initialPinchDistanceRef (snd (createOrUpdateLineSegments b ex f now s))
     = initialPinchDistanceRef s"
  "initialFovAtPinchStartRef (snd (createOrUpdateLineSegments b ex f now s))
     = initialFovAtPinchStartRef s"
  "dynamicallyGeneratedBuildingsRef (snd (createOrUpdateLineSegments b ex f now s))
     = dynamicallyGeneratedBuildingsRef s"
  "generationTriggerPointsRef (snd (createOrUpdateLineSegments b ex f now s))
     = generationTriggerPointsRef s"
  "activeClusterRequestsRef (snd (createOrUpdateLineSegments b ex f now s))
     = activeClusterRequestsRef s"
  "nextClusterIdCounterRef (snd (createOrUpdateLineSegments b ex f now s))
     = nextClusterIdCounterRef s"
  "clockRef (snd (createOrUpdateLineSegments b ex f now s)) = clockRef s"
  "cityColorTHREE (snd (createOrUpdateLineSegments b ex f now s)) = cityColorTHREE s"
  "pending (snd (createOrUpdateLineSegments b ex f now s)) = pending s"
  "composing (snd (createOrUpdateLineSegments b ex f now s)) = composing s"
  "effects (snd (createOrUpdateLineSegments b ex f now s)) = effects s"
  by (simp_all add: createOrUpdateLineSegments_def Let_def split: option.splits)

lemma addCluster_frame [simp]:
  "mountRef (addCluster c now bs s) = mountRef s"
  "sceneRef (addCluster c now bs s) = sceneRef s"
  "cameraRef (addCluster c now bs s) = cameraRef s"
  "rendererRef (addCluster c now bs s) = rendererRef s"
  "skyMeshRef (addCluster c now bs s) = skyMeshRef s"
  "cameraAzimuthAngleRef (addCluster c now bs s) = cameraAzimuthAngleRef s"
  "cameraFovRef (addCluster c now bs s) = cameraFovRef s"
  "isCapturingRef (addCluster c now bs s) = isCapturingRef s"
  "isRotatingLeftRef (addCluster c now bs s) = isRotatingLeftRef s"
  "isRotatingRightRef (addCluster c now bs s) = isRotatingRightRef s"
  "normalizedMouseXRef (addCluster c now bs s) = normalizedMouseXRef s"
  "initialPinchDistanceRef (addCluster c now bs s) = initialPinchDistanceRef s"
  "initialFovAtPinchStartRef (addCluster c now bs s) = initialFovAtPinchStartRef s"
  "generationTriggerPointsRef (addCluster c now bs s) = generationTriggerPointsRef s"
  "activeClusterRequestsRef (addCluster c now bs s) = activeClusterRequestsRef s"
  "nextClusterIdCounterRef (addCluster c now bs s) = nextClusterIdCounterRef s"
  "clockRef (addCluster c now bs s) = clockRef s"
  "cityColorTHREE (addCluster c now bs s) = cityColorTHREE s"
  "pending (addCluster c now bs s) = pending s"
  "composing (addCluster c now bs s) = composing s"
  "effects (addCluster c now bs s) = effects s"
  "(cityElementsGroupRef (addCluster c now bs s) = None) = (cityElementsGroupRef s = None)"
  by (induction bs arbitrary: s; simp add: split_beta Let_def)+

lemma applyResults_frame [simp]:
  "mountRef (applyResults rs now s) = mountRef s"
  "sceneRef (applyResults rs now s) = sceneRef s"
  "cameraRef (applyResults rs now s) = cameraRef s"
  "rendererRef (applyResults rs now s) = rendererRef s"
  "skyMeshRef (applyResults rs now s) = skyMeshRef s"
  "cameraAzimuthAngleRef (applyResults rs now s) = cameraAzimuthAngleRef s"
  "cameraFovRef (applyResults rs now s) = cameraFovRef s"
  "isCapturingRef (applyResults rs now s) = isCapturingRef s"
  "isRotatingLeftRef (applyResults rs now s) = isRotatingLeftRef s"
  "isRotatingRightRef (applyResults rs now s) = isRotatingRightRef s"
  "normalizedMouseXRef (applyResults rs now s) = normalizedMouseXRef s"
  "initialPinchDistanceRef (applyResults rs now s) = initialPinchDistanceRef s"
  "initialFovAtPinchStartRef (applyResults rs now s) = initialFovAtPinchStartRef s"
  "generationTriggerPointsRef (applyResults rs now s) = generationTriggerPointsRef s"
  "activeClusterRequestsRef (applyResults rs now s) = activeClusterRequestsRef s"
  "nextClusterIdCounterRef (applyResults rs now s) = nextClusterIdCounterRef s"
  "clockRef (applyResults rs now s) = clockRef s"
  "cityColorTHREE (applyResults rs now s) = cityColorTHREE s"
  "pending (applyResults rs now s) = pending s"
  "composing (applyResults rs now s) = composing s"
  "(cityElementsGroupRef (applyResults rs now s) = None) = (cityElementsGroupRef s = None)"
  by (induction rs now s rule: applyResults.induct; simp)+

lemma settleBatch_frame [simp]:
  "mountRef (settleBatch k rs now s) = mountRef s"
  "sceneRef (settleBatch k rs now s) = sceneRef s"
  "cameraRef (settleBatch k rs now s) = cameraRef s"
  "rendererRef (settleBatch k rs now s) = rendererRef s"
  "skyMeshRef (settleBatch k rs now s) = skyMeshRef s"
  "cameraAzimuthAngleRef (settleBatch k rs now s) = cameraAzimuthAngleRef s"
  "cameraFovRef (settleBatch k rs now s) = cameraFovRef s"
  "isCapturingRef (settleBatch k rs now s) = isCapturingRef s"
  "isRotatingLeftRef (settleBatch k rs now s) = isRotatingLeftRef s"
  "isRotatingRightRef (settleBatch k rs now s) = isRotatingRightRef s"
  "normalizedMouseXRef (settleBatch k rs now s) = normalizedMouseXRef s"
  "initialPinchDistanceRef (settleBatch k rs now s) = initialPinchDistanceRef s"
  "initialFovAtPinchStartRef (settleBatch k rs now s) = initialFovAtPinchStartRef s"
  "generationTriggerPointsRef (settleBatch k rs now s) = generationTriggerPointsRef s"
  "nextClusterIdCounterRef (settleBatch k rs now s) = nextClusterIdCounterRef s"
  "clockRef (settleBatch k rs now s) = clockRef s"
  "cityColorTHREE (settleBatch k rs now s) = cityColorTHREE s"
  "composing (settleBatch k rs now s) = composing s"
  "(cityElementsGroupRef (settleBatch k rs now s) = None) = (cityElementsGroupRef s = None)"
  by (simp_all add: settleBatch_def Let_def)

lemma removeChildren_frame [simp]:
  "mountRef (removeChildren P s) = mountRef s"
  "sceneRef (removeChildren P s) = sceneRef s"
  "cameraRef (removeChildren P s) = cameraRef s"
  "rendererRef (removeChildren P s) = rendererRef s"
  "skyMeshRef (removeChildren P s) = skyMeshRef s"
  "cameraAzimuthAngleRef (removeChildren P s) = cameraAzimuthAngleRef s"
  "cameraFovRef (removeChildren P s) = cameraFovRef s"
  "isCapturingRef (removeChildren P s) = isCapturingRef s"
  "isRotatingLeftRef (removeChildren P s) = isRotatingLeftRef s"
  "isRotatingRightRef (removeChildren P s) = isRotatingRightRef s"
  "normalizedMouseXRef (removeChildren P s) = normalizedMouseXRef s"
  "initialPinchDistanceRef (removeChildren P s) = initialPinchDistanceRef s"
  "initialFovAtPinchStartRef (removeChildren P s) = initialFovAtPinchStartRef s"
  "dynamicallyGeneratedBuildingsRef (removeChildren P s) = dynamicallyGeneratedBuildingsRef s"
  "generationTriggerPointsRef (removeChildren P s) = generationTriggerPointsRef s"
  "activeClusterRequestsRef (removeChildren P s) = activeClusterRequestsRef s"
  "nextClusterIdCounterRef (removeChildren P s) = nextClusterIdCounterRef s"
  "clockRef (removeChildren P s) = clockRef s"
  "cityColorTHREE (removeChildren P s) = cityColorTHREE s"
  "pending (removeChildren P s) = pending s"
  "composing (removeChildren P s) = composing s"
  "nextObject (removeChildren P s) = nextObject s"
  "effects (removeChildren P s) = effects s"
  "(cityElementsGroupRef (removeChildren P s) = None) = (cityElementsGroupRef s = None)"
  by (simp_all add: removeChildren_def split: option.splits)

lemma mergeBuilding_frame [simp]:
  "mountRef (mergeBuilding b s) = mountRef s"
  "sceneRef (mergeBuilding b s) = sceneRef s"
  "cameraRef (mergeBuilding b s) = cameraRef s"
  "rendererRef (mergeBuilding b s) = rendererRef s"
  "skyMeshRef (mergeBuilding b s) = skyMeshRef s"
  "cameraAzimuthAngleRef (mergeBuilding b s) = cameraAzimuthAngleRef s"
  "cameraFovRef (mergeBuilding b s) = cameraFovRef s"
  "isCapturingRef (mergeBuilding b s) = isCapturingRef s"
  "isRotatingLeftRef (mergeBuilding b s) = isRotatingLeftRef s"
  "isRotatingRightRef (mergeBuilding b s) = isRotatingRightRef s"
  "normalizedMouseXRef (mergeBuilding b s) = normalizedMouseXRef s"
  "initialPinchDistanceRef (mergeBuilding b s) = initialPinchDistanceRef s"
  "initialFovAtPinchStartRef (mergeBuilding b s) = initialFovAtPinchStartRef s"
  "dynamicallyGeneratedBuildingsRef (mergeBuilding b s) = dynamicallyGeneratedBuildingsRef s"
  "generationTriggerPointsRef (mergeBuilding b s) = generationTriggerPointsRef s"
  "activeClusterRequestsRef (mergeBuilding b s) = activeClusterRequestsRef s"
  "nextClusterIdCounterRef (mergeBuilding b s) = nextClusterIdCounterRef s"
  "clockRef (mergeBuilding b s) = clockRef s"
  "cityColorTHREE (mergeBuilding b s) = cityColorTHREE s"
  "pending (mergeBuilding b s) = pending s"
  "composing (mergeBuilding b s) = composing s"
  "effects (mergeBuilding b s) = effects s"
  "(cityElementsGroupRef (mergeBuilding b s) = None) = (cityElementsGroupRef s = None)"
  by (simp_all add: mergeBuilding_def split_beta Let_def split: option.splits)

lemma updateOrAdd_frame [simp]:
  "mountRef (updateOrAdd bs s) = mountRef s"
  "sceneRef (updateOrAdd bs s) = sceneRef s"
  "cameraRef (updateOrAdd bs s) = cameraRef s"
  "rendererRef (updateOrAdd bs s) = rendererRef s"
  "skyMeshRef (updateOrAdd bs s) = skyMeshRef s"
  "cameraAzimuthAngleRef (updateOrAdd bs s) = cameraAzimuthAngleRef s"
  "cameraFovRef (updateOrAdd bs s) = cameraFovRef s"
  "isCapturingRef (updateOrAdd bs s) = isCapturingRef s"
  "isRotatingLeftRef (updateOrAdd bs s) = isRotatingLeftRef s"
  "isRotatingRightRef (updateOrAdd bs s) = isRotatingRightRef s"
  "normalizedMouseXRef (updateOrAdd bs s) = normalizedMouseXRef s"
  "initialPinchDistanceRef (updateOrAdd bs s) = initialPinchDistanceRef s"
  "initialFovAtPinchStartRef (updateOrAdd bs s) = initialFovAtPinchStartRef s"
  "dynamicallyGeneratedBuildingsRef (updateOrAdd bs s) = dynamicallyGeneratedBuildingsRef s"
  "generationTriggerPointsRef (updateOrAdd bs s) = generationTriggerPointsRef s"
  "activeClusterRequestsRef (updateOrAdd bs s) = activeClusterRequestsRef s"
  "nextClusterIdCounterRef (updateOrAdd bs s) = nextClusterIdCounterRef s"
  "clockRef (updateOrAdd bs s) = clockRef s"
  "cityColorTHREE (updateOrAdd bs s) = cityColorTHREE s"
  "pending (updateOrAdd bs s) = pending s"
  "composing (updateOrAdd bs s) = composing s"
  "effects (updateOrAdd bs s) = effects s"
  "(cityElementsGroupRef (updateOrAdd bs s) = None) = (cityElementsGroupRef s = None)"
  by (induction bs arbitrary: s; simp)+

lemma reconcile_frame [simp]:
  "mountRef (reconcile l s) = mountRef s"
  "sceneRef (reconcile l s) = sceneRef s"
  "cameraRef (reconcile l s) = cameraRef s"
  "rendererRef (reconcile l s) = rendererRef s"
  "skyMeshRef (reconcile l s) = skyMeshRef s"
  "cameraAzimuthAngleRef (reconcile l s) = cameraAzimuthAngleRef s"
  "cameraFovRef (reconcile l s) = cameraFovRef s"
  "isCapturingRef (reconcile l s) = isCapturingRef s"
  "isRotatingLeftRef (reconcile l s) = isRotatingLeftRef s"
  "isRotatingRightRef (reconcile l s) = isRotatingRightRef s"
  "normalizedMouseXRef (reconcile l s) = normalizedMouseXRef s"
  "initialPinchDistanceRef (reconcile l s) = initialPinchDistanceRef s"
  "initialFovAtPinchStartRef (reconcile l s) = initialFovAtPinchStartRef s"
  "dynamicallyGeneratedBuildingsRef (reconcile l s) = dynamicallyGeneratedBuildingsRef s"
  "generationTriggerPointsRef (reconcile l s) = generationTriggerPointsRef s"
  "activeClusterRequestsRef (reconcile l s) = activeClusterRequestsRef s"
  "nextClusterIdCounterRef (reconcile l s) = nextClusterIdCounterRef s"
  "clockRef (reconcile l s) = clockRef s"
  "cityColorTHREE (reconcile l s) = cityColorTHREE s"
  "pending (reconcile l s) = pending s"
  "composing (reconcile l s) = composing s"
  "effects (reconcile l s) = effects s"
  "(cityElementsGroupRef (reconcile l s) = None) = (cityElementsGroupRef s = None)"
  by (simp_all add: reconcile_def Let_def split: option.splits)

lemma clearDynamicBuildings_frame [simp]:
  "mountRef (clearDynamicBuildings s) = mountRef s"
  "sceneRef (clearDynamicBuildings s) = sceneRef s"
  "cameraRef (clearDynamicBuildings s) = cameraRef s"
  "rendererRef (clearDynamicBuildings s) = rendererRef s"
  "skyMeshRef (clearDynamicBuildings s) = skyMeshRef s"
  "cameraAzimuthAngleRef (clearDynamicBuildings s) = cameraAzimuthAngleRef s"
  "cameraFovRef (clearDynamicBuildings s) = cameraFovRef s"
  "isCapturingRef (clearDynamicBuildings s) = isCapturingRef s"
  "isRotatingLeftRef (clearDynamicBuildings s) = isRotatingLeftRef s"
  "isRotatingRightRef (clearDynamicBuildings s) = isRotatingRightRef s"
  "normalizedMouseXRef (clearDynamicBuildings s) = normalizedMouseXRef s"
  "initialPinchDistanceRef (clearDynamicBuildings s) = initialPinchDistanceRef s"
  "initialFovAtPinchStartRef (clearDynamicBuildings s) = initialFovAtPinchStartRef s"
  "clockRef (clearDynamicBuildings s) = clockRef s"
  "cityColorTHREE (clearDynamicBuildings s) = cityColorTHREE s"
  "pending (clearDynamicBuildings s) = pending s"
  "composing (clearDynamicBuildings s) = composing s"
  "nextObject (clearDynamicBuildings s) = nextObject s"
  "effects (clearDynamicBuildings s) = effects s"
  "dynamicallyGeneratedBuildingsRef (clearDynamicBuildings s) = {}"
  "(cityElementsGroupRef (clearDynamicBuildings s) = None) = (cityElementsGroupRef s = None)"
  by (simp_all add: clearDynamicBuildings_def)

lemma landscapeEffect_frame [simp]:
  "mountRef (landscapeEffect l s) = mountRef s"
  "sceneRef (landscapeEffect l s) = sceneRef s"
  "cameraRef (landscapeEffect l s) = cameraRef s"
  "rendererRef (landscapeEffect l s) = rendererRef s"
  "skyMeshRef (landscapeEffect l s) = skyMeshRef s"
  "cameraAzimuthAngleRef (landscapeEffect l s) = cameraAzimuthAngleRef s"
  "cameraFovRef (landscapeEffect l s) = cameraFovRef s"
  "isCapturingRef (landscapeEffect l s) = isCapturingRef s"
  "isRotatingLeftRef (landscapeEffect l s) = isRotatingLeftRef s"
  "isRotatingRightRef (landscapeEffect l s) = isRotatingRightRef s"
  "normalizedMouseXRef (landscapeEffect l s) = normalizedMouseXRef s"
  "initialPinchDistanceRef (landscapeEffect l s) = initialPinchDistanceRef s"
  "initialFovAtPinchStartRef (landscapeEffect l s) = initialFovAtPinchStartRef s"
  "clockRef (landscapeEffect l s) = clockRef s"
  "cityColorTHREE (landscapeEffect l s) = cityColorTHREE s"
  "pending (landscapeEffect l s) = pending s"
  "composing (landscapeEffect l s) = composing s"
  "effects (landscapeEffect l s) = effects s"
  "(cityElementsGroupRef (landscapeEffect l s) = None) = (cityElementsGroupRef s = None)"
  by (simp_all add: landscapeEffect_def)

lemma animate_frame [simp]:
  "mountRef (animate t r s) = mountRef s"
  "sceneRef (animate t r s) = sceneRef s"
  "rendererRef (animate t r s) = rendererRef s"
  "skyMeshRef (animate t r s) = skyMeshRef s"
  "cameraFovRef (animate t r s) = cameraFovRef s"
  "isCapturingRef (animate t r s) = isCapturingRef s"
  "isRotatingLeftRef (animate t r s) = isRotatingLeftRef s"
  "isRotatingRightRef (animate t r s) = isRotatingRightRef s"
  "normalizedMouseXRef (animate t r s) = normalizedMouseXRef s"
  "initialPinchDistanceRef (animate t r s) = initialPinchDistanceRef s"
  "initialFovAtPinchStartRef (animate t r s) = initialFovAtPinchStartRef s"
  "dynamicallyGeneratedBuildingsRef (animate t r s) = dynamicallyGeneratedBuildingsRef s"
  "clockRef (animate t r s) = clockRef s"
  "cityColorTHREE (animate t r s) = cityColorTHREE s"
  "composing (animate t r s) = composing s"
  "nextObject (animate t r s) = nextObject s"
  "disposed (animate t r s) = disposed s"
  "(cameraRef (animate t r s) = None) = (cameraRef s = None)"
  "(cityElementsGroupRef (animate t r s) = None) = (cityElementsGroupRef s = None)"
  by (simp_all add: animate_def issueBatch_def Let_def split: option.splits)

lemma handleCanvasClickAndCapture_frame [simp]:
  "mountRef (handleCanvasClickAndCapture flt now s) = mountRef s"
  "sceneRef (handleCanvasClickAndCapture flt now s) = sceneRef s"
  "rendererRef (handleCanvasClickAndCapture flt now s) = rendererRef s"
  "skyMeshRef (handleCanvasClickAndCapture flt now s) = skyMeshRef s"
  "cameraAzimuthAngleRef (handleCanvasClickAndCapture flt now s) = cameraAzimuthAngleRef s"
  "cameraFovRef (handleCanvasClickAndCapture flt now s) = cameraFovRef s"
  "isRotatingLeftRef (handleCanvasClickAndCapture flt now s) = isRotatingLeftRef s"
  "isRotatingRightRef (handleCanvasClickAndCapture flt now s) = isRotatingRightRef s"
  "normalizedMouseXRef (handleCanvasClickAndCapture flt now s) = normalizedMouseXRef s"
  "initialPinchDistanceRef (handleCanvasClickAndCapture flt now s) = initialPinchDistanceRef s"
  "initialFovAtPinchStartRef (handleCanvasClickAndCapture flt now s)
     = initialFovAtPinchStartRef s"
  "dynamicallyGeneratedBuildingsRef (handleCanvasClickAndCapture flt now s)
     = dynamicallyGeneratedBuildingsRef s"
  "generationTriggerPointsRef (handleCanvasClickAndCapture flt now s)
     = generationTriggerPointsRef s"
  "activeClusterRequestsRef (handleCanvasClickAndCapture flt now s) = activeClusterRequestsRef s"
  "nextClusterIdCounterRef (handleCanvasClickAndCapture flt now s) = nextClusterIdCounterRef s"
  "clockRef (handleCanvasClickAndCapture flt now s) = clockRef s"
  "cityColorTHREE (handleCanvasClickAndCapture flt now s) = cityColorTHREE s"
  "pending (handleCanvasClickAndCapture flt now s) = pending s"
  "nextObject (handleCanvasClickAndCapture flt now s) = nextObject s"
  "disposed (handleCanvasClickAndCapture flt now s) = disposed s"
  "(cameraRef (handleCanvasClickAndCapture flt now s) = None) = (cameraRef s = None)"
  "(cityElementsGroupRef (handleCanvasClickAndCapture flt now s) = None) = (cityElementsGroupRef s = None)"
  by (simp_all add: handleCanvasClickAndCapture_def beginCapture_def endCapture_def
      renderPhase_def mapChildren_def Let_def split: option.splits)

lemma composeCover_frame [simp]:
  "mountRef (composeCover composed s) = mountRef s"
  "sceneRef (composeCover composed s) = sceneRef s"
  "cameraRef (composeCover composed s) = cameraRef s"
  "rendererRef (composeCover composed s) = rendererRef s"
  "skyMeshRef (composeCover composed s) = skyMeshRef s"
  "cityElementsGroupRef (composeCover composed s) = cityElementsGroupRef s"
  "cameraAzimuthAngleRef (composeCover composed s) = cameraAzimuthAngleRef s"
  "cameraFovRef (composeCover composed s) = cameraFovRef s"
  "isCapturingRef (composeCover composed s) = isCapturingRef s"
  "isRotatingLeftRef (composeCover composed s) = isRotatingLeftRef s"
  "isRotatingRightRef (composeCover composed s) = isRotatingRightRef s"
  "normalizedMouseXRef (composeCover composed s) = normalizedMouseXRef s"
  "initialPinchDistanceRef (composeCover composed s) = initialPinchDistanceRef s"
  "initialFovAtPinchStartRef (composeCover composed s) = initialFovAtPinchStartRef s"
  "dynamicallyGeneratedBuildingsRef (composeCover composed s)
     = dynamicallyGeneratedBuildingsRef s"
  "generationTriggerPointsRef (composeCover composed s) = generationTriggerPointsRef s"
  "activeClusterRequestsRef (composeCover composed s) = activeClusterRequestsRef s"
  "nextClusterIdCounterRef (composeCover composed s) = nextClusterIdCounterRef s"
  "clockRef (composeCover composed s) = clockRef s"
  "cityColorTHREE (composeCover composed s) = cityColorTHREE s"
  "pending (composeCover composed s) = pending s"
  "nextObject (composeCover composed s) = nextObject s"
  "disposed (composeCover composed s) = disposed s"
  by (simp_all add: composeCover_def)

lemma updateNormalizedPointerX_frame [simp]:
  "mountRef (updateNormalizedPointerX x s) = mountRef s"
  "sceneRef (updateNormalizedPointerX x s) = sceneRef s"
  "cameraRef (updateNormalizedPointerX x s) = cameraRef s"
  "rendererRef (updateNormalizedPointerX x s) = rendererRef s"
  "skyMeshRef (updateNormalizedPointerX x s) = skyMeshRef s"
  "cityElementsGroupRef (updateNormalizedPointerX x s) = cityElementsGroupRef s"
  "cameraAzimuthAngleRef (updateNormalizedPointerX x s) = cameraAzimuthAngleRef s"
  "cameraFovRef (updateNormalizedPointerX x s) = cameraFovRef s"
  "isCapturingRef (updateNormalizedPointerX x s) = isCapturingRef s"
  "isRotatingLeftRef (updateNormalizedPointerX x s) = isRotatingLeftRef s"
  "isRotatingRightRef (updateNormalizedPointerX x s) = isRotatingRightRef s"
  "initialPinchDistanceRef (updateNormalizedPointerX x s) = initialPinchDistanceRef s"
  "initialFovAtPinchStartRef (updateNormalizedPointerX x s) = initialFovAtPinchStartRef s"
  "dynamicallyGeneratedBuildingsRef (updateNormalizedPointerX x s)
     = dynamicallyGeneratedBuildingsRef s"
  "generationTriggerPointsRef (updateNormalizedPointerX x s) = generationTriggerPointsRef s"
  "activeClusterRequestsRef (updateNormalizedPointerX x s) = activeClusterRequestsRef s"
  "nextClusterIdCounterRef (updateNormalizedPointerX x s) = nextClusterIdCounterRef s"
  "clockRef (updateNormalizedPointerX x s) = clockRef s"
  "cityColorTHREE (updateNormalizedPointerX x s) = cityColorTHREE s"
  "pending (updateNormalizedPointerX x s) = pending s"
  "composing (updateNormalizedPointerX x s) = composing s"
  "nextObject (updateNormalizedPointerX x s) = nextObject s"
  "disposed (updateNormalizedPointerX x s) = disposed s"
  "effects (updateNormalizedPointerX x s) = effects s"
  by (simp_all add: updateNormalizedPointerX_def Let_def split: option.splits)

lemma touchStartHandler_frame [simp]:
  "mountRef (touchStartHandler ts s) = mountRef s"
  "sceneRef (touchStartHandler ts s) = sceneRef s"
  "cameraRef (touchStartHandler ts s) = cameraRef s"
  "rendererRef (touchStartHandler ts s) = rendererRef s"
  "skyMeshRef (touchStartHandler ts s) = skyMeshRef s"
  "cityElementsGroupRef (touchStartHandler ts s) = cityElementsGroupRef s"
  "cameraAzimuthAngleRef (touchStartHandler ts s) = cameraAzimuthAngleRef s"
  "cameraFovRef (touchStartHandler ts s) = cameraFovRef s"
  "isCapturingRef (touchStartHandler ts s) = isCapturingRef s"
  "isRotatingLeftRef (touchStartHandler ts s) = isRotatingLeftRef s"
  "isRotatingRightRef (touchStartHandler ts s) = isRotatingRightRef s"
  "dynamicallyGeneratedBuildingsRef (touchStartHandler ts s) = dynamicallyGeneratedBuildingsRef s"
  "generationTriggerPointsRef (touchStartHandler ts s) = generationTriggerPointsRef s"
  "activeClusterRequestsRef (touchStartHandler ts s) = activeClusterRequestsRef s"
  "nextClusterIdCounterRef (touchStartHandler ts s) = nextClusterIdCounterRef s"
  "clockRef (touchStartHandler ts s) = clockRef s"
  "cityColorTHREE (touchStartHandler ts s) = cityColorTHREE s"
  "pending (touchStartHandler ts s) = pending s"
  "composing (touchStartHandler ts s) = composing s"
  "nextObject (touchStartHandler ts s) = nextObject s"
  "disposed (touchStartHandler ts s) = disposed s"
  "effects (touchStartHandler ts s) = effects s"
  by (induction ts s rule: touchStartHandler.induct; simp)+

lemma touchMoveHandler_frame [simp]:
  "mountRef (touchMoveHandler ts s) = mountRef s"
  "sceneRef (touchMoveHandler ts s) = sceneRef s"
  "cameraRef (touchMoveHandler ts s) = cameraRef s"
  "rendererRef (touchMoveHandler ts s) = rendererRef s"
  "skyMeshRef (touchMoveHandler ts s) = skyMeshRef s"
  "cityElementsGroupRef (touchMoveHandler ts s) = cityElementsGroupRef s"
  "cameraAzimuthAngleRef (touchMoveHandler ts s) = cameraAzimuthAngleRef s"
  "isCapturingRef (touchMoveHandler ts s) = isCapturingRef s"
  "isRotatingLeftRef (touchMoveHandler ts s) = isRotatingLeftRef s"
  "isRotatingRightRef (touchMoveHandler ts s) = isRotatingRightRef s"
  "initialPinchDistanceRef (touchMoveHandler ts s) = initialPinchDistanceRef s"
  "initialFovAtPinchStartRef (touchMoveHandler ts s) = initialFovAtPinchStartRef s"
  "dynamicallyGeneratedBuildingsRef (touchMoveHandler ts s) = dynamicallyGeneratedBuildingsRef s"
  "generationTriggerPointsRef (touchMoveHandler ts s) = generationTriggerPointsRef s"
  "activeClusterRequestsRef (touchMoveHandler ts s) = activeClusterRequestsRef s"
  "nextClusterIdCounterRef (touchMoveHandler ts s) = nextClusterIdCounterRef s"
  "clockRef (touchMoveHandler ts s) = clockRef s"
  "cityColorTHREE (touchMoveHandler ts s) = cityColorTHREE s"
  "pending (touchMoveHandler ts s) = pending s"
  "composing (touchMoveHandler ts s) = composing s"
  "nextObject (touchMoveHandler ts s) = nextObject s"
  "disposed (touchMoveHandler ts s) = disposed s"
  "effects (touchMoveHandler ts s) = effects s"
  by (induction ts s rule: touchMoveHandler.induct; simp add: Let_def split: option.splits)+

lemma touchEndHandler_frame [simp]:
  "mountRef (touchEndHandler ts s) = mountRef s"
  "sceneRef (touchEndHandler ts s) = sceneRef s"
  "cameraRef (touchEndHandler ts s) = cameraRef s"
  "rendererRef (touchEndHandler ts s) = rendererRef s"
  "skyMeshRef (touchEndHandler ts s) = skyMeshRef s"
  "cityElementsGroupRef (touchEndHandler ts s) = cityElementsGroupRef s"
  "cameraAzimuthAngleRef (touchEndHandler ts s) = cameraAzimuthAngleRef s"
  "cameraFovRef (touchEndHandler ts s) = cameraFovRef s"
  "isCapturingRef (touchEndHandler ts s) = isCapturingRef s"
  "isRotatingLeftRef (touchEndHandler ts s) = isRotatingLeftRef s"
  "isRotatingRightRef (touchEndHandler ts s) = isRotatingRightRef s"
  "dynamicallyGeneratedBuildingsRef (touchEndHandler ts s) = dynamicallyGeneratedBuildingsRef s"
  "generationTriggerPointsRef (touchEndHandler ts s) = generationTriggerPointsRef s"
  "activeClusterRequestsRef (touchEndHandler ts s) = activeClusterRequestsRef s"
  "nextClusterIdCounterRef (touchEndHandler ts s) = nextClusterIdCounterRef s"
  "clockRef (touchEndHandler ts s) = clockRef s"
  "cityColorTHREE (touchEndHandler ts s) = cityColorTHREE s"
  "pending (touchEndHandler ts s) = pending s"
  "composing (touchEndHandler ts s) = composing s"
  "nextObject (touchEndHandler ts s) = nextObject s"
  "disposed (touchEndHandler ts s) = disposed s"
  "effects (touchEndHandler ts s) = effects s"
  by (simp_all add: touchEndHandler_def Let_def split: list.splits)

lemma input_frame:
  assumes "isInput e"
  shows "mountRef (step e s) = mountRef s"
    and "sceneRef (step e s) = sceneRef s"
    and "cameraRef (step e s) = cameraRef s"
    and "rendererRef (step e s) = rendererRef s"
    and "skyMeshRef (step e s) = skyMeshRef s"
    and "cityElementsGroupRef (step e s) = cityElementsGroupRef s"
    and "isCapturingRef (step e s) = isCapturingRef s"
    and "dynamicallyGeneratedBuildingsRef (step e s) = dynamicallyGeneratedBuildingsRef s"
    and "generationTriggerPointsRef (step e s) = generationTriggerPointsRef s"
    and "activeClusterRequestsRef (step e s) = activeClusterRequestsRef s"
    and "nextClusterIdCounterRef (step e s) = nextClusterIdCounterRef s"
    and "clockRef (step e s) = clockRef s"
    and "cityColorTHREE (step e s) = cityColorTHREE s"
    and "pending (step e s) = pending s"
    and "composing (step e s) = composing s"
    and "nextObject (step e s) = nextObject s"
    and "disposed (step e s) = disposed s"
    and "effects (step e s) = effects s"
  using assms
  by (cases e; simp add: turnViewDirection_def zoomCameraByFactor_def handleMouseWheel_def
        mouseMoveHandler_def mouseLeaveHandler_def handleKeyDown_def handleKeyUp_def Let_def
        split: direction.splits key.splits)+

section \<open>The refs stay filled\<close>

lemma step_present:
  assumes "present s"
  shows "present (step e s)"
proof (cases "isInput e")
  case True
  with assms show ?thesis by (simp add: present_def input_frame)
next
  case False
  with assms show ?thesis by (cases e) (simp_all add: present_def)
qed

lemma run_present: "present s \<Longrightarrow> present (run es s)"
  by (induction es arbitrary: s) (simp_all add: step_present)

lemma mounted_present: "present (mounted m c)"
  by (simp add: present_def mounted_def)

lemma touchMove_clamped: "fovClamped s \<Longrightarrow> fovClamped (touchMoveHandler ts s)"
  by (induction ts s rule: touchMoveHandler.induct)
     (auto simp: fovClamped_def Let_def split: option.splits)

lemma step_clamped:
  assumes "fovClamped s"
  shows "fovClamped (step e s)"
proof (cases e)
  case (TurnViewDirection d)
  with assms show ?thesis
    by (simp add: fovClamped_def turnViewDirection_def Let_def split: direction.splits)
next
  case (ZoomCameraByFactor k)
  with assms show ?thesis by (auto simp: fovClamped_def zoomCameraByFactor_def Let_def)
next
  case (MouseWheel d)
  with assms show ?thesis by (auto simp: fovClamped_def handleMouseWheel_def Let_def)
next
  case (TouchMove ts)
  with assms show ?thesis by (simp add: touchMove_clamped)
next
  case (KeyDown k)
  with assms show ?thesis by (simp add: fovClamped_def handleKeyDown_def split: key.splits)
next
  case (KeyUp k)
  with assms show ?thesis by (simp add: fovClamped_def handleKeyUp_def split: key.splits)
qed (use assms in \<open>simp_all add: fovClamped_def mouseMoveHandler_def mouseLeaveHandler_def\<close>)

lemma run_clamped: "fovClamped s \<Longrightarrow> fovClamped (run es s)"
  by (induction es arbitrary: s) (simp_all add: step_clamped)

lemma mounted_clamped: "fovClamped (mounted m c)"
  by (simp add: fovClamped_def mounted_def)

section \<open>Zoom\<close>

text \<open>
  C6. Whatever the component is made to do from its mounted state (wheel events of any
  delta, pinch gestures of any distance ratio, \<^verbatim>\<open>zoomCameraByFactor\<close> with any
  factor, and every other event in between), the target field of view
  \<^verbatim>\<open>cameraFovRef.current\<close> lies between 30 and 90 degrees after every event.
\<close>

theorem fov_always_clamped:
  "MIN_FOV \<le> cameraFovRef (run es (mounted m c)) \<and> cameraFovRef (run es (mounted m c)) \<le> MAX_FOV"
  using run_clamped [OF mounted_clamped, of es m c] by (simp only: fovClamped_def)

text \<open>Zooming by the factors 100 and -100, then a wheel event and a hundredfold pinch.\<close>

theorem fov_always_clamped_witness:
  "cameraFovRef (run [ZoomCameraByFactor 100] (mounted mount0 lime)) = 90
   \<and> cameraFovRef (run [ZoomCameraByFactor 100, ZoomCameraByFactor (- 100)] (mounted mount0 lime)) = 30
   \<and> MIN_FOV \<le> cameraFovRef (run [ZoomCameraByFactor 100, ZoomCameraByFactor (- 100),
        MouseWheel 53, TouchStart [\<lparr>clientX = 0, clientY = 0\<rparr>, \<lparr>clientX = 3, clientY = 4\<rparr>],
        TouchMove [\<lparr>clientX = 0, clientY = 0\<rparr>, \<lparr>clientX = 300, clientY = 400\<rparr>]]
        (mounted mount0 lime))
   \<and> cameraFovRef (run [ZoomCameraByFactor 100, ZoomCameraByFactor (- 100),
        MouseWheel 53, TouchStart [\<lparr>clientX = 0, clientY = 0\<rparr>, \<lparr>clientX = 3, clientY = 4\<rparr>],
        TouchMove [\<lparr>clientX = 0, clientY = 0\<rparr>, \<lparr>clientX = 300, clientY = 400\<rparr>]]
        (mounted mount0 lime)) \<le> MAX_FOV"
  using fov_always_clamped [of "[ZoomCameraByFactor 100, ZoomCameraByFactor (- 100),
        MouseWheel 53, TouchStart [\<lparr>clientX = 0, clientY = 0\<rparr>, \<lparr>clientX = 3, clientY = 4\<rparr>],
        TouchMove [\<lparr>clientX = 0, clientY = 0\<rparr>, \<lparr>clientX = 300, clientY = 400\<rparr>]]" mount0 lime]
  by (simp add: mounted_def mount0_def zoomCameraByFactor_def)

text \<open>
  C10. In every state the mounted component can reach, a wheel event moves the target
  field of view by the step of 2 degrees in the direction of the sign of
  \<^verbatim>\<open>deltaY\<close>, whatever its magnitude, and the result is clamped to the range from
  30 to 90; an event with \<^verbatim>\<open>deltaY\<close> equal to 0 leaves the target unchanged.
\<close>

theorem wheel_step:
  "cameraFovRef (handleMouseWheel deltaY (run es (mounted m c)))
     = max MIN_FOV (min MAX_FOV
         (cameraFovRef (run es (mounted m c))
            + (if deltaY > 0 then FOV_STEP else if deltaY < 0 then - FOV_STEP else 0)))
   \<and> cameraFovRef (handleMouseWheel 0 (run es (mounted m c))) = cameraFovRef (run es (mounted m c))"
proof -
  let ?s = "run es (mounted m c)"
  have "present ?s" by (rule run_present [OF mounted_present])
  then obtain cam where cam: "cameraRef ?s = Some cam" by (auto simp: present_def)
  have "fovClamped ?s" by (rule run_clamped [OF mounted_clamped])
  then have rng: "30 \<le> cameraFovRef ?s" "cameraFovRef ?s \<le> 90" by (simp_all add: fovClamped_def)
  show ?thesis using cam rng by (simp add: handleMouseWheel_def Let_def sgn_real_def)
qed

text \<open>A large positive delta from the default 60 gives 62, a tiny negative one 58.\<close>

theorem wheel_step_witness:
  "cameraFovRef (handleMouseWheel 5300 (run [] (mounted mount0 lime))) = 62
   \<and> cameraFovRef (handleMouseWheel (- 1 / 1000) (run [] (mounted mount0 lime))) = 58
   \<and> cameraFovRef (handleMouseWheel 0 (run [MouseWheel 1] (mounted mount0 lime))) = 62"
  using wheel_step [of 5300 "[]" mount0 lime] wheel_step [of "- 1 / 1000" "[]" mount0 lime]
    wheel_step [of 0 "[MouseWheel 1]" mount0 lime]
  by (simp add: mounted_def handleMouseWheel_def)

section \<open>Trigger points\<close>

lemma distanceToSquared_commute: "distanceToSquared a b = distanceToSquared b a"
  by (simp add: distanceToSquared_def Let_def algebra_simps)

lemma distanceTo_commute: "distanceTo a b = distanceTo b a"
  by (simp add: distanceTo_def distanceToSquared_commute)

lemma far_enough:
  assumes "\<not> distanceToSquared a b < 90000"
  shows "300 \<le> distanceTo a b"
proof -
  from assms have "(300::real)\<^sup>2 \<le> distanceToSquared a b" by (simp add: power2_eq_square)
  then have "300 \<le> sqrt (distanceToSquared a b)" by (rule real_le_rsqrt)
  then show ?thesis by (simp add: distanceTo_def)
qed

lemma separated_Nil: "separated []"
  by (simp add: separated_def)

lemma separated_snoc:
  assumes "separated ps" and "\<forall>q \<in> set ps. MIN_DISTANCE_BETWEEN_TRIGGER_POINTS \<le> distanceTo p q"
  shows "separated (ps @ [p])"
  unfolding separated_def
proof (intro allI impI)
  fix i j
  assume i: "i < length (ps @ [p])" and j: "j < length (ps @ [p])" and ne: "i \<noteq> j"
  consider "i < length ps" "j < length ps" | "i < length ps" "j = length ps"
    | "i = length ps" "j < length ps"
    using i j ne by (cases "i < length ps"; cases "j < length ps") auto
  then show "MIN_DISTANCE_BETWEEN_TRIGGER_POINTS \<le> distanceTo ((ps @ [p]) ! i) ((ps @ [p]) ! j)"
  proof cases
    case 1
    with assms(1) ne show ?thesis by (simp add: separated_def nth_append)
  next
    case 2
    then have "ps ! i \<in> set ps" by simp
    with assms(2) have "MIN_DISTANCE_BETWEEN_TRIGGER_POINTS \<le> distanceTo p (ps ! i)" by blast
    with 2 show ?thesis by (simp add: nth_append distanceTo_commute)
  next
    case 3
    then have "ps ! j \<in> set ps" by simp
    with assms(2) have "MIN_DISTANCE_BETWEEN_TRIGGER_POINTS \<le> distanceTo p (ps ! j)" by blast
    with 3 show ?thesis by (simp add: nth_append)
  qed
qed

lemma trigger_far:
  assumes "triggerNewGeneration cameraPosition candidate ps"
  shows "\<forall>q \<in> set ps. MIN_DISTANCE_BETWEEN_TRIGGER_POINTS \<le> distanceTo candidate q"
proof (cases "ps = []")
  case True
  then show ?thesis by simp
next
  case False
  with assms have "list_all (\<lambda>q. \<not> distanceToSquared candidate q
      < MIN_DISTANCE_BETWEEN_TRIGGER_POINTS * MIN_DISTANCE_BETWEEN_TRIGGER_POINTS) ps"
    by (simp add: triggerNewGeneration_def)
  then show ?thesis by (auto simp: list_all_iff intro: far_enough)
qed

lemma issueBatch_points:
  "generationTriggerPointsRef (issueBatch cameraPosition forward random s)
     = generationTriggerPointsRef s
         @ [addScaledVector cameraPosition forward CLUSTER_SPAWN_AHEAD_OFFSET]"
  by (simp add: issueBatch_def Let_def)

lemma animate_separated:
  assumes "separated (generationTriggerPointsRef s)"
  shows "separated (generationTriggerPointsRef (animate t r s))"
  using assms
  by (auto simp: animate_def Let_def issueBatch_points split: option.splits
      intro!: separated_snoc dest: trigger_far)

lemma landscapeEffect_points:
  "generationTriggerPointsRef (landscapeEffect l s) = generationTriggerPointsRef s
   \<or> generationTriggerPointsRef (landscapeEffect l s) = []"
  by (simp add: landscapeEffect_def clearDynamicBuildings_def)

lemma step_separated:
  assumes "separated (generationTriggerPointsRef s)"
  shows "separated (generationTriggerPointsRef (step e s))"
proof (cases "isInput e")
  case True
  with assms show ?thesis by (simp add: input_frame)
next
  case False
  then show ?thesis
  proof (cases e)
    case (Frame t r)
    with assms show ?thesis by (simp add: animate_separated)
  next
    case (LandscapeChange l)
    with assms landscapeEffect_points [of l s] show ?thesis by (auto simp: separated_Nil)
  qed (use assms in simp_all)
qed

lemma run_separated:
  "separated (generationTriggerPointsRef s) \<Longrightarrow> separated (generationTriggerPointsRef (run es s))"
  by (induction es arbitrary: s) (simp_all add: step_separated)

text \<open>Evaluating runs from the mounted state.\<close>

lemma forwardDirection_0: "forwardDirection 0 = vec 0 0 (- 1)"
  by (simp add: forwardDirection_def normalize_def vec_def lengthSq_def)

lemma forwardDirection_quarter: "forwardDirection (pi / 2) = vec 1 0 0"
  by (simp add: forwardDirection_def normalize_def vec_def lengthSq_def)

lemmas sim =
  mounted_def mount0_def lime_def animate_def issueBatch_def triggerNewGeneration_def
  numClustersToGenerate_def targetCenter_def rightDirection_def settleBatch_def
  turnViewDirection_def landscapeEffect_def clearDynamicBuildings_def reconcile_def
  removeChildren_def forwardDirection_0 forwardDirection_quarter
  vec_def addScaledVector_def addv_def multiplyScalar_def crossVectors_def normalize_def
  lengthSq_def distanceToSquared_def Let_def

lemma run_append: "run (es @ fs) s = run fs (run es s)"
  by (induction es arbitrary: s) simp_all

lemma twoTriggers_points:
  "generationTriggerPointsRef (run twoTriggers (mounted mount0 lime))
     = [vec 0 300 (- (2503 / 5)), vec (3003 / 5) 300 (497 / 5)]"
  by (simp add: twoTriggers_def sim)

text \<open>
  C4. In every state the mounted component can reach, any two distinct entries of the
  trigger point list are at least \<^verbatim>\<open>MIN_DISTANCE_BETWEEN_TRIGGER_POINTS\<close> = 300
  apart. The list only grows between two resets, so this holds for every pair of points
  recorded during the lifetime of one landscape.
\<close>

theorem trigger_points_spaced:
  "\<forall>i < length (generationTriggerPointsRef (run es (mounted m c))).
   \<forall>j < length (generationTriggerPointsRef (run es (mounted m c))).
     i \<noteq> j \<longrightarrow>
       MIN_DISTANCE_BETWEEN_TRIGGER_POINTS
         \<le> distanceTo (generationTriggerPointsRef (run es (mounted m c)) ! i)
              (generationTriggerPointsRef (run es (mounted m c)) ! j)"
proof -
  have "separated (generationTriggerPointsRef (mounted m c))"
    by (simp add: mounted_def separated_Nil)
  then have "separated (generationTriggerPointsRef (run es (mounted m c)))"
    by (rule run_separated)
  then show ?thesis by (simp only: separated_def)
qed

text \<open>The two points of the run \<open>twoTriggers\<close>.\<close>

theorem trigger_points_spaced_witness:
  "length (generationTriggerPointsRef (run twoTriggers (mounted mount0 lime))) = 2
   \<and> MIN_DISTANCE_BETWEEN_TRIGGER_POINTS
       \<le> distanceTo (generationTriggerPointsRef (run twoTriggers (mounted mount0 lime)) ! 0)
            (generationTriggerPointsRef (run twoTriggers (mounted mount0 lime)) ! 1)"
  using trigger_points_spaced [of twoTriggers mount0 lime, rule_format, of 0 1]
  by (simp add: twoTriggers_points)

section \<open>Batches in flight\<close>

lemma before_regeneration:
  "run [Frame 0 0, Settle 0 [Fulfilled (Some [streamed0])] 1,
      TurnViewDirection Right, TurnViewDirection Right, Frame 2 0] (mounted mount0 lime) =
   \<lparr>mountRef = Some \<lparr>rect_left = 0, rect_width = 800, clientWidth = 800, clientHeight = 600\<rparr>,
    sceneRef = True,
    cameraRef = Some \<lparr>cam_fov = 60, cam_aspect = 4 / 3,
                      cam_position = \<lparr>vx = 3 / 5, vy = 300, vz = 497 / 5\<rparr>\<rparr>,
    rendererRef = True, skyMeshRef = Some True,
    cityElementsGroupRef =
      Some [\<lparr>uuid = 2, geometry = 1, geometry_edges = BoxEdges 10 20 10,
             mat_color = 10741301, mat_opacity = 1, mat_transparent = True,
             seg_position = \<lparr>vx = 1, vy = 10, vz = - (2493 / 5)\<rparr>,
             rotation_y = 0, ud_id = ''dyn_c0_bld_1'', ud_height = 20,
             isDynamicallyGenerated = True, isAppearing = False, creationTime = Some 1\<rparr>],
    cameraAzimuthAngleRef = pi / 2, cameraFovRef = 60,
    isCapturingRef = False, isRotatingLeftRef = False,
    isRotatingRightRef = False, normalizedMouseXRef = 0,
    initialPinchDistanceRef = None, initialFovAtPinchStartRef = None,
    dynamicallyGeneratedBuildingsRef = {''dyn_c0_bld_1''},
    generationTriggerPointsRef =
      [\<lparr>vx = 0, vy = 300, vz = - (2503 / 5)\<rparr>, \<lparr>vx = 3003 / 5, vy = 300, vz = 497 / 5\<rparr>],
    activeClusterRequestsRef = 1, nextClusterIdCounterRef = Suc (Suc 0),
    clockRef = True, cityColorTHREE = 10741301,
    pending = [\<lparr>targetCenters = [\<lparr>vx = 3003 / 5, vy = 300, vz = 497 / 5\<rparr>],
                prefixes = [dyn_c (Suc 0)]\<rparr>],
    composing = 0, nextObject = 3, disposed = [Geometry 0],
    effects = [MainRender, MainRender]\<rparr>"
  by (simp add: sim streamed0_def createOrUpdateLineSegments_def translated_def fadeIn_def
        buildEdges_def placedAt_def heightOr0_def)

text \<open>The counter itself never exceeds the cap.\<close>

lemma step_counter:
  assumes "activeClusterRequestsRef s \<le> MAX_ACTIVE_CLUSTER_REQUESTS"
  shows "activeClusterRequestsRef (step e s) \<le> MAX_ACTIVE_CLUSTER_REQUESTS"
proof (cases "isInput e")
  case True
  with assms show ?thesis by (simp add: input_frame)
next
  case False
  then show ?thesis
  proof (cases e)
    case (Frame t r)
    with assms show ?thesis
      by (auto simp: animate_def issueBatch_def Let_def split: option.splits)
  next
    case (Settle k rs now)
    with assms show ?thesis by (simp add: settleBatch_def Let_def)
  next
    case (LandscapeChange l)
    with assms show ?thesis by (simp add: landscapeEffect_def clearDynamicBuildings_def)
  next
    case (Capture flt now)
    with assms show ?thesis by simp
  next
    case (Composed composed)
    with assms show ?thesis by simp
  qed simp_all
qed

lemma counter_bounded:
  "activeClusterRequestsRef (run es (mounted m c)) \<le> MAX_ACTIVE_CLUSTER_REQUESTS"
proof -
  have "\<And>s. activeClusterRequestsRef s \<le> MAX_ACTIVE_CLUSTER_REQUESTS \<Longrightarrow>
      activeClusterRequestsRef (run es s) \<le> MAX_ACTIVE_CLUSTER_REQUESTS"
    by (induction es) (simp_all add: step_counter del: MAX_ACTIVE_CLUSTER_REQUESTS_def)
  moreover have "activeClusterRequestsRef (mounted m c) \<le> MAX_ACTIVE_CLUSTER_REQUESTS"
    by (simp add: mounted_def)
  ultimately show ?thesis by blast
qed

text \<open>
  C1. The claim that at most one batch is in flight in every reachable state fails on
  the run \<open>overlap\<close>, for every landscape: the landscape effect sets the counter
  \<^verbatim>\<open>activeClusterRequestsRef\<close> to 0 while the second batch is pending, so the next
  frame issues a third batch beside it. Two batches are then in flight while the counter
  reads 1.
\<close>

theorem regeneration_overlaps_batches:
  "length (pending (run (overlap l) (mounted mount0 lime))) = 2
   \<and> activeClusterRequestsRef (run (overlap l) (mounted mount0 lime)) = 1"
proof -
  have split: "overlap l =
      [Frame 0 0, Settle 0 [Fulfilled (Some [streamed0])] 1,
       TurnViewDirection Right, TurnViewDirection Right, Frame 2 0]
      @ [LandscapeChange l, Frame 3 0]"
    by (simp add: overlap_def)
  show ?thesis
    unfolding split run_append before_regeneration
    by (simp add: landscapeEffect_def clearDynamicBuildings_def animate_def issueBatch_def
          triggerNewGeneration_def forwardDirection_quarter vec_def addScaledVector_def
          lengthSq_def Let_def split: option.splits)
qed

section \<open>The snapshot guard\<close>

lemma step_idle:
  assumes "\<not> isCapturingRef s"
  shows "\<not> isCapturingRef (step e s)"
proof (cases "isInput e")
  case True
  with assms show ?thesis by (simp add: input_frame)
next
  case False
  then show ?thesis
  proof (cases e)
    case (Capture flt now)
    with assms show ?thesis
      by (simp add: handleCanvasClickAndCapture_def endCapture_def Let_def split_beta
            split: option.splits)
  qed (use assms in simp_all)
qed

lemma run_idle: "\<not> isCapturingRef s \<Longrightarrow> \<not> isCapturingRef (run es s)"
  by (induction es arbitrary: s) (simp_all add: step_idle)

lemma renderPhase_capturing:
  "isCapturingRef (fst (renderPhase flt cols cam s)) = isCapturingRef s"
  by (simp add: renderPhase_def mapChildren_def Let_def)

lemma renderPhase_effects:
  "take (length (effects s)) (effects (fst (renderPhase flt cols cam s))) = effects s"
  by (simp add: renderPhase_def mapChildren_def Let_def)

lemma capturing_blocks: "isCapturingRef s \<Longrightarrow> handleCanvasClickAndCapture flt now s = s"
  by (simp add: handleCanvasClickAndCapture_def split: option.splits)

text \<open>
  The claim that a capture is a no-op while another capture is in progress fails for a
  capture that has ended its render phase and is waiting for its images: the flag is
  cleared by then, and a second invocation notifies the collaborator and renders again.
  Here two captures follow each other with no composition in between.
\<close>

theorem capture_while_composing_counterexample:
  "composing (run [Capture None 5] (mounted mount0 lime)) = 1
   \<and> effects (run [Capture None 5] (mounted mount0 lime))
       = [ScreenshotInitiated, OffscreenRender [], OffscreenRender []]
   \<and> composing (run [Capture None 5, Capture None 6] (mounted mount0 lime)) = 2
   \<and> effects (run [Capture None 5, Capture None 6] (mounted mount0 lime))
       = [ScreenshotInitiated, OffscreenRender [], OffscreenRender [],
          ScreenshotInitiated, OffscreenRender [], OffscreenRender []]"
  by (simp add: mounted_def mount0_def handleCanvasClickAndCapture_def beginCapture_def
        endCapture_def savedColors_def renderPhase_def mapChildren_def childColors_def Let_def)

text \<open>
  C8. A capture invoked while the flag \<^verbatim>\<open>isCapturingRef\<close> is set returns at once and
  leaves the whole state as it is: no notification of the collaborators, no render pass.
  The flag is set exactly during the render phase of a capture: a capture that passes
  its guards notifies the collaborator first and sets the flag, the flag is still set in
  the state \<open>mid\<close> that the render phase leaves, whether it threw or not, and an
  invocation in either of these states is a no-op. The handler ends with the
  \<^verbatim>\<open>finally\<close> block applied to \<open>mid\<close>, which clears the flag on every state, so the
  flag is clear when the handler returns and in every state between two events. A
  capture invoked after that is not blocked, whatever number of earlier captures are
  still composing their image.
\<close>

theorem capture_guarded:
  "(isCapturingRef s \<longrightarrow> handleCanvasClickAndCapture flt now s = s)
   \<and> (present s \<and> \<not> isCapturingRef s \<longrightarrow>
        (\<exists>cam sky mid threw.
           cameraRef s = Some cam \<and> skyMeshRef s = Some sky
           \<and> isCapturingRef (beginCapture s)
           \<and> effects (beginCapture s) = effects s @ [ScreenshotInitiated]
           \<and> handleCanvasClickAndCapture flt2 now2 (beginCapture s) = beginCapture s
           \<and> renderPhase flt (savedColors s) cam (beginCapture s) = (mid, threw)
           \<and> isCapturingRef mid
           \<and> handleCanvasClickAndCapture flt2 now2 mid = mid
           \<and> handleCanvasClickAndCapture flt now s =
               (let s3 = endCapture (savedColors s) (cam_aspect cam) sky now mid
                in if threw then s3 else s3\<lparr>composing := composing s3 + 1\<rparr>))
        \<and> take (Suc (length (effects s))) (effects (handleCanvasClickAndCapture flt now s))
            = effects s @ [ScreenshotInitiated]
        \<and> \<not> isCapturingRef (handleCanvasClickAndCapture flt now s))
   \<and> \<not> isCapturingRef (endCapture cols aspect visible now3 s3)
   \<and> \<not> isCapturingRef (run es (mounted m c))"
proof (intro conjI impI)
  assume "isCapturingRef s"
  then show "handleCanvasClickAndCapture flt now s = s" by (rule capturing_blocks)
next
  assume a: "present s \<and> \<not> isCapturingRef s"
  then obtain cam mnt sky where refs: "cameraRef s = Some cam" "mountRef s = Some mnt"
      "skyMeshRef s = Some sky" "rendererRef s" "sceneRef s"
    by (auto simp: present_def)
  obtain mid threw where r: "renderPhase flt (savedColors s) cam (beginCapture s) = (mid, threw)"
    by (cases "renderPhase flt (savedColors s) cam (beginCapture s)")
  have b: "isCapturingRef (beginCapture s)"
    by (simp add: beginCapture_def mapChildren_def)
  have m: "isCapturingRef mid"
    using renderPhase_capturing [of flt "savedColors s" cam "beginCapture s"] r b by simp
  have h: "handleCanvasClickAndCapture flt now s =
      (let s3 = endCapture (savedColors s) (cam_aspect cam) sky now mid
       in if threw then s3 else s3\<lparr>composing := composing s3 + 1\<rparr>)"
    using a refs r by (simp add: handleCanvasClickAndCapture_def Let_def)
  have e: "effects (beginCapture s) = effects s @ [ScreenshotInitiated]"
    by (simp add: beginCapture_def mapChildren_def)
  show "\<exists>cam sky mid threw.
           cameraRef s = Some cam \<and> skyMeshRef s = Some sky
           \<and> isCapturingRef (beginCapture s)
           \<and> effects (beginCapture s) = effects s @ [ScreenshotInitiated]
           \<and> handleCanvasClickAndCapture flt2 now2 (beginCapture s) = beginCapture s
           \<and> renderPhase flt (savedColors s) cam (beginCapture s) = (mid, threw)
           \<and> isCapturingRef mid
           \<and> handleCanvasClickAndCapture flt2 now2 mid = mid
           \<and> handleCanvasClickAndCapture flt now s =
               (let s3 = endCapture (savedColors s) (cam_aspect cam) sky now mid
                in if threw then s3 else s3\<lparr>composing := composing s3 + 1\<rparr>)"
    using refs b e r m h capturing_blocks by blast
  have "take (length (effects (beginCapture s))) (effects mid) = effects (beginCapture s)"
    using renderPhase_effects [of "beginCapture s" flt "savedColors s" cam] r by simp
  then have "take (Suc (length (effects s))) (effects mid) = effects s @ [ScreenshotInitiated]"
    by (simp add: e)
  then show "take (Suc (length (effects s))) (effects (handleCanvasClickAndCapture flt now s))
            = effects s @ [ScreenshotInitiated]"
    by (simp add: h endCapture_def mapChildren_def Let_def)
  show "\<not> isCapturingRef (handleCanvasClickAndCapture flt now s)"
    by (simp add: h endCapture_def Let_def)
next
  show "\<not> isCapturingRef (endCapture cols aspect visible now3 s3)"
    by (simp add: endCapture_def Let_def)
next
  show "\<not> isCapturingRef (run es (mounted m c))"
    by (rule run_idle) (simp add: mounted_def)
qed

text \<open>
  On the mounted component: an invocation in the state that the first half of a capture
  leaves, with the flag set; a capture whose first render pass throws; a full capture.
\<close>

theorem capture_guarded_witness:
  "isCapturingRef (beginCapture (mounted mount0 lime))
   \<and> handleCanvasClickAndCapture None 6 (beginCapture (mounted mount0 lime))
       = beginCapture (mounted mount0 lime)
   \<and> effects (beginCapture (mounted mount0 lime)) = [ScreenshotInitiated]
   \<and> \<not> isCapturingRef (handleCanvasClickAndCapture (Some GreenRenderFails) 5
          (mounted mount0 lime))
   \<and> effects (handleCanvasClickAndCapture (Some GreenRenderFails) 5 (mounted mount0 lime))
       = [ScreenshotInitiated]
   \<and> effects (handleCanvasClickAndCapture None 5 (mounted mount0 lime))
       = [ScreenshotInitiated, OffscreenRender [], OffscreenRender []]"
  using capture_guarded [of "beginCapture (mounted mount0 lime)" None 6]
    capture_guarded [of "mounted mount0 lime" "Some GreenRenderFails" 5]
  by (simp add: mounted_def mount0_def handleCanvasClickAndCapture_def beginCapture_def
        endCapture_def savedColors_def renderPhase_def mapChildren_def childColors_def
        Let_def present_def)

section \<open>Merging a cluster\<close>

lemma addCluster_adds:
  assumes "cityElementsGroupRef s = Some g" and "clockRef s"
  shows "\<exists>new. cityElementsGroupRef (addCluster c now bs s) = Some (g @ new)
           \<and> length new = length bs
           \<and> (\<forall>j < length bs. streamedFrom (bs ! j) (vec (vx c) 0 (vz c)) now (new ! j))
           \<and> dynamicallyGeneratedBuildingsRef (addCluster c now bs s)
               = dynamicallyGeneratedBuildingsRef s \<union> elem_id ` set bs"
  using assms
proof (induction bs arbitrary: s g)
  case Nil
  then show ?case by simp
next
  case (Cons b bs)
  let ?b1 = "translated c b"
  let ?r = "createOrUpdateLineSegments ?b1 None True now s"
  let ?s3 = "(snd ?r)\<lparr>cityElementsGroupRef := Some (g @ [fst ?r]),
      dynamicallyGeneratedBuildingsRef := insert (elem_id ?b1) (dynamicallyGeneratedBuildingsRef s)\<rparr>"
  have unfold: "addCluster c now (b # bs) s = addCluster c now bs ?s3"
    using Cons.prems by (simp add: split_beta Let_def)
  have mesh: "streamedFrom b (vec (vx c) 0 (vz c)) now (fst ?r)"
    using Cons.prems
    by (simp add: streamedFrom_def createOrUpdateLineSegments_def Let_def translated_def
          placedAt_def heightOr0_def addv_def vec_def)
  have "cityElementsGroupRef ?s3 = Some (g @ [fst ?r])" and "clockRef ?s3"
    using Cons.prems by simp_all
  from Cons.IH [OF this] obtain new where new:
    "cityElementsGroupRef (addCluster c now bs ?s3) = Some ((g @ [fst ?r]) @ new)"
    "length new = length bs"
    "\<forall>j < length bs. streamedFrom (bs ! j) (vec (vx c) 0 (vz c)) now (new ! j)"
    "dynamicallyGeneratedBuildingsRef (addCluster c now bs ?s3)
       = dynamicallyGeneratedBuildingsRef ?s3 \<union> elem_id ` set bs"
    by blast
  have all: "\<forall>j < length (b # bs).
      streamedFrom ((b # bs) ! j) (vec (vx c) 0 (vz c)) now ((fst ?r # new) ! j)"
    using mesh new(3) by (auto simp: nth_Cons split: nat.splits)
  have ids: "dynamicallyGeneratedBuildingsRef (addCluster c now bs ?s3)
      = dynamicallyGeneratedBuildingsRef s \<union> elem_id ` set (b # bs)"
    using new(4) by (simp add: translated_def)
  show ?case
    unfolding unfold
    using new(1,2) all ids by (intro exI [of _ "fst ?r # new"]) simp
qed

lemma applyResults_append:
  "applyResults (xs @ ys) now s = applyResults ys now (applyResults xs now s)"
  by (induction xs now s rule: applyResults.induct) simp_all

lemma applyResults_adds:
  assumes "cityElementsGroupRef s = Some g" and "clockRef s"
  shows "\<exists>new. cityElementsGroupRef (applyResults rs now s) = Some (g @ new)
           \<and> length new = delivered (map fst rs)
           \<and> dynamicallyGeneratedBuildingsRef s
               \<subseteq> dynamicallyGeneratedBuildingsRef (applyResults rs now s)"
  using assms
proof (induction rs now s arbitrary: g rule: applyResults.induct)
  case (1 now s)
  then show ?case by simp
next
  case (2 bs c rest now s)
  let ?s1 = "addCluster c now bs s"
  from addCluster_adds [OF "2.prems", of c now bs] obtain new1 where new1:
    "cityElementsGroupRef ?s1 = Some (g @ new1)" "length new1 = length bs"
    "dynamicallyGeneratedBuildingsRef ?s1
       = dynamicallyGeneratedBuildingsRef s \<union> elem_id ` set bs"
    by blast
  have "clockRef ?s1" using "2.prems" by simp
  from "2.IH" [of "g @ new1"] new1(1) this "2.prems"(1) obtain new2 where new2:
    "cityElementsGroupRef (applyResults rest now ?s1) = Some ((g @ new1) @ new2)"
    "length new2 = delivered (map fst rest)"
    "dynamicallyGeneratedBuildingsRef ?s1
       \<subseteq> dynamicallyGeneratedBuildingsRef (applyResults rest now ?s1)"
    by auto
  show ?case
    using "2.prems"(1) new1 new2 by (intro exI [of _ "new1 @ new2"]) auto
next
  case (3 c rest now s)
  then show ?case by simp
next
  case (4 c rest now s)
  from "4.IH" [of g] "4.prems" show ?case by simp
qed

text \<open>
  C9. A batch has one to five requests. When the request at any position \<open>i\<close> of a
  pending batch has a target centre with x = 100 and z = 200, such as (100,0,200), and
  is fulfilled with 6 buildings, the continuation of the batch appends exactly 6 meshes
  to the city group for it: they come after the meshes of the results before it and
  before the meshes of the results after it, and the group grows by nothing else. Each
  of the 6 is flagged dynamic and appearing (opacity 0.01, creation time the clock
  reading), has its id in the dynamic-id set, and is placed where its cluster-local
  coordinates put it, moved by (100,0,200). The height of the centre is not read.
\<close>

theorem cluster_of_six_added:
  assumes "cityElementsGroupRef s = Some g" and "clockRef s"
    and "k < length (pending s)"
    and "length results = length (targetCenters (pending s ! k))"
    and "i < length results"
    and "results ! i = Fulfilled (Some newClusterBuildings)"
    and "vx (targetCenters (pending s ! k) ! i) = 100"
    and "vz (targetCenters (pending s ! k) ! i) = 200"
    and "length newClusterBuildings = 6"
  shows "\<exists>before new after.
           cityElementsGroupRef (settleBatch k results now s) = Some (g @ before @ new @ after)
           \<and> length before = delivered (take i results)
           \<and> length after = delivered (drop (Suc i) results)
           \<and> length new = 6
           \<and> (\<forall>j < 6. streamedFrom (newClusterBuildings ! j) (vec 100 0 200) now (new ! j)
                 \<and> ud_id (new ! j) \<in> dynamicallyGeneratedBuildingsRef
                      (settleBatch k results now s))"
proof -
  let ?cs = "targetCenters (pending s ! k)"
  let ?c = "?cs ! i"
  let ?pre = "zip (take i results) (take i ?cs)"
  let ?post = "zip (drop (Suc i) results) (drop (Suc i) ?cs)"
  let ?s1 = "s\<lparr>pending := take k (pending s) @ drop (Suc k) (pending s)\<rparr>"
  let ?sA = "applyResults ?pre now ?s1"
  let ?sB = "addCluster ?c now newClusterBuildings ?sA"
  let ?sC = "applyResults ?post now ?sB"
  have i: "i < length (zip results ?cs)" using assms(4,5) by simp
  have "zip results ?cs
      = take i (zip results ?cs) @ (zip results ?cs) ! i # drop (Suc i) (zip results ?cs)"
    using i by (rule id_take_nth_drop)
  then have split: "zip results ?cs = ?pre @ (Fulfilled (Some newClusterBuildings), ?c) # ?post"
    using assms(4,5,6) by (simp add: take_zip drop_zip)
  have g1: "cityElementsGroupRef ?s1 = Some g" and c1: "clockRef ?s1"
    using assms(1,2) by simp_all
  from applyResults_adds [OF g1 c1, of ?pre now] obtain before where before:
    "cityElementsGroupRef ?sA = Some (g @ before)"
    "length before = delivered (map fst ?pre)"
    by blast
  have cA: "clockRef ?sA" using c1 by simp
  from addCluster_adds [OF before(1) cA, of ?c now newClusterBuildings]
  obtain new where new:
    "cityElementsGroupRef ?sB = Some ((g @ before) @ new)"
    "length new = length newClusterBuildings"
    "\<forall>j < length newClusterBuildings.
       streamedFrom (newClusterBuildings ! j) (vec 100 0 200) now (new ! j)"
    "dynamicallyGeneratedBuildingsRef ?sB
       = dynamicallyGeneratedBuildingsRef ?sA \<union> elem_id ` set newClusterBuildings"
    using assms(7,8) by auto
  have cB: "clockRef ?sB" using cA by simp
  from applyResults_adds [OF new(1) cB, of ?post now] obtain after where after:
    "cityElementsGroupRef ?sC = Some (((g @ before) @ new) @ after)"
    "length after = delivered (map fst ?post)"
    "dynamicallyGeneratedBuildingsRef ?sB \<subseteq> dynamicallyGeneratedBuildingsRef ?sC"
    by blast
  have run: "applyResults (zip results ?cs) now ?s1 = ?sC"
    unfolding split using before(1) by (simp add: applyResults_append)
  have settle: "settleBatch k results now s
      = ?sC\<lparr>activeClusterRequestsRef := activeClusterRequestsRef ?sC - 1\<rparr>"
    using assms(3,4) run by (simp add: settleBatch_def Let_def)
  have lb: "length before = delivered (take i results)"
    using before(2) assms(4) by simp
  have la: "length after = delivered (drop (Suc i) results)"
    using after(2) assms(4) by simp
  have "\<forall>j < 6. ud_id (new ! j) \<in> dynamicallyGeneratedBuildingsRef ?sC"
  proof (intro allI impI)
    fix j :: nat
    assume j: "j < 6"
    with new(3) assms(9) have "ud_id (new ! j) = elem_id (newClusterBuildings ! j)"
      by (simp add: streamedFrom_def)
    moreover have "newClusterBuildings ! j \<in> set newClusterBuildings"
      using j assms(9) by simp
    ultimately have "ud_id (new ! j) \<in> dynamicallyGeneratedBuildingsRef ?sB"
      using new(4) by simp
    with after(3) show "ud_id (new ! j) \<in> dynamicallyGeneratedBuildingsRef ?sC" by blast
  qed
  then show ?thesis
    unfolding settle using after(1) new(2,3) lb la assms(9)
    by (intro exI [of _ before] exI [of _ new] exI [of _ after]) simp
qed

text \<open>
  The batch of \<open>awaiting\<close> settles: its first request brings one building, its second,
  for the centre (100,0,200), the cluster \<open>cluster6\<close>, and its third fails.
\<close>

theorem cluster_of_six_added_witness:
  "\<exists>before new.
     cityElementsGroupRef
         (settleBatch 0 [Fulfilled (Some [streamed0]), Fulfilled (Some cluster6), Rejected] 7
            awaiting)
       = Some (before @ new)
     \<and> length before = 1
     \<and> length new = 6
     \<and> seg_position (new ! 0) = vec 60 25 220
     \<and> seg_position (new ! 5) = vec 135 (55 / 2) 170
     \<and> isAppearing (new ! 5)
     \<and> ud_id (new ! 5) \<in> dynamicallyGeneratedBuildingsRef
          (settleBatch 0 [Fulfilled (Some [streamed0]), Fulfilled (Some cluster6), Rejected] 7
             awaiting)"
proof -
  let ?rs = "[Fulfilled (Some [streamed0]), Fulfilled (Some cluster6), Rejected]"
  have h: "cityElementsGroupRef awaiting = Some []" "clockRef awaiting"
    "0 < length (pending awaiting)"
    "length ?rs = length (targetCenters (pending awaiting ! 0))"
    "1 < length ?rs"
    "?rs ! 1 = Fulfilled (Some cluster6)"
    "vx (targetCenters (pending awaiting ! 0) ! 1) = 100"
    "vz (targetCenters (pending awaiting ! 0) ! 1) = 200"
    "length cluster6 = 6"
    by (simp_all add: awaiting_def mounted_def cluster6_def vec_def)
  from cluster_of_six_added [OF h, of 7] obtain before new after where new:
    "cityElementsGroupRef (settleBatch 0 ?rs 7 awaiting) = Some ([] @ before @ new @ after)"
    "length before = delivered (take 1 ?rs)"
    "length after = delivered (drop (Suc 1) ?rs)"
    "length new = 6"
    "\<forall>j < 6. streamedFrom (cluster6 ! j) (vec 100 0 200) 7 (new ! j)
       \<and> ud_id (new ! j) \<in> dynamicallyGeneratedBuildingsRef (settleBatch 0 ?rs 7 awaiting)"
    by blast
  from new(5) have a: "streamedFrom (cluster6 ! 0) (vec 100 0 200) 7 (new ! 0)"
    and b: "streamedFrom (cluster6 ! 5) (vec 100 0 200) 7 (new ! 5)"
    and c: "ud_id (new ! 5) \<in> dynamicallyGeneratedBuildingsRef (settleBatch 0 ?rs 7 awaiting)"
    by simp_all
  have p0: "seg_position (new ! 0) = vec 60 25 220"
    using a by (simp add: streamedFrom_def cluster6_def placedAt_def heightOr0_def addv_def vec_def)
  have p5: "seg_position (new ! 5) = vec 135 (55 / 2) 170"
    using b by (simp add: streamedFrom_def cluster6_def placedAt_def heightOr0_def addv_def vec_def)
  have f5: "isAppearing (new ! 5)" using b by (simp add: streamedFrom_def)
  have lb: "length before = 1" and la: "after = []" using new(2,3) by simp_all
  from new(1,4) lb la p0 p5 f5 c show ?thesis
    by (intro exI [of _ before] exI [of _ new]) simp
qed

section \<open>Fading in\<close>

lemma fadeIn_opacity:
  assumes "isDynamicallyGenerated e" and "isAppearing e" and "creationTime e = Some created"
  shows "mat_opacity (fadeIn t e) = min 1 ((t - created) / FADE_IN_DURATION)"
    and "isDynamicallyGenerated (fadeIn t e)"
    and "creationTime (fadeIn t e) = Some created"
    and "isAppearing (fadeIn t e) = (mat_opacity (fadeIn t e) < 1)"
  using assms by (auto simp: fadeIn_def Let_def)

lemma fadeIn_done: "\<not> isAppearing e \<Longrightarrow> fadeIn t e = e"
  by (simp add: fadeIn_def)

lemma animate_children:
  assumes "present s" and "\<not> isCapturingRef s" and "cityElementsGroupRef s = Some g"
  shows "cityElementsGroupRef (animate t r s) = Some (map (fadeIn t) g)"
  using assms by (auto simp: animate_def Let_def present_def split: option.splits)

text \<open>What a frame and a snapshot leave of one child, by its position in the group.\<close>

lemma animate_child:
  assumes "present s" and "\<not> isCapturingRef s" and "cityElementsGroupRef s = Some g"
    and "i < length g"
  shows "children (animate t r s) ! i = fadeIn t (g ! i)"
  using animate_children [OF assms(1,2,3)] assms(4) by (simp add: children_def)

lemma restoreChild_flags:
  "isDynamicallyGenerated (restoreChild cols col clock now e) = isDynamicallyGenerated e"
  "isAppearing (restoreChild cols col clock now e) = isAppearing e"
  "creationTime (restoreChild cols col clock now e) = creationTime e"
  by (simp_all add: restoreChild_def Let_def split: option.splits)

lemma restoreChild_look:
  "restoreChild cols col clock now (e\<lparr>mat_color := c\<rparr>) = restoreChild cols col clock now e"
  "restoreChild cols col clock now (e\<lparr>mat_color := c, mat_opacity := p, mat_transparent := q\<rparr>)
     = restoreChild cols col clock now (e\<lparr>mat_opacity := p, mat_transparent := q\<rparr>)"
  by (simp_all add: restoreChild_def originalColor_def Let_def split: option.splits)

lemma capture_children:
  assumes "present s" and "\<not> isCapturingRef s" and "cityElementsGroupRef s = Some g"
  shows "cityElementsGroupRef (handleCanvasClickAndCapture flt now s)
           = Some (map (\<lambda>e. restoreChild (savedColors s) (cityColorTHREE s) True now
                          (e\<lparr>mat_opacity := 1, mat_transparent := False\<rparr>)) g)"
proof -
  obtain cam mnt sky where refs: "cameraRef s = Some cam" "mountRef s = Some mnt"
      "skyMeshRef s = Some sky" "rendererRef s" "sceneRef s" "clockRef s"
    using assms(1) by (auto simp: present_def)
  from refs assms(2,3) show ?thesis
    by (simp add: handleCanvasClickAndCapture_def beginCapture_def endCapture_def
          renderPhase_def mapChildren_def Let_def restoreChild_look)
qed

lemma capture_child:
  assumes "present s" and "\<not> isCapturingRef s" and "cityElementsGroupRef s = Some g"
    and "i < length g"
  shows "isDynamicallyGenerated (children (handleCanvasClickAndCapture flt now s) ! i)
           = isDynamicallyGenerated (g ! i)"
    and "isAppearing (children (handleCanvasClickAndCapture flt now s) ! i) = isAppearing (g ! i)"
    and "creationTime (children (handleCanvasClickAndCapture flt now s) ! i)
           = creationTime (g ! i)"
    and "isDynamicallyGenerated (g ! i) \<Longrightarrow> isAppearing (g ! i)
           \<Longrightarrow> creationTime (g ! i) = Some created
           \<Longrightarrow> mat_opacity (children (handleCanvasClickAndCapture flt now s) ! i)
                 = min 1 ((now - created) / FADE_IN_DURATION)"
    and "\<not> isAppearing (g ! i)
           \<Longrightarrow> mat_opacity (children (handleCanvasClickAndCapture flt now s) ! i) = 1"
proof -
  have c: "children (handleCanvasClickAndCapture flt now s)
         = map (\<lambda>e. restoreChild (savedColors s) (cityColorTHREE s) True now
                  (e\<lparr>mat_opacity := 1, mat_transparent := False\<rparr>)) g"
    using capture_children [OF assms(1,2,3), of flt now] by (simp add: children_def)
  show "isDynamicallyGenerated (children (handleCanvasClickAndCapture flt now s) ! i)
           = isDynamicallyGenerated (g ! i)"
    and "isAppearing (children (handleCanvasClickAndCapture flt now s) ! i) = isAppearing (g ! i)"
    and "creationTime (children (handleCanvasClickAndCapture flt now s) ! i)
           = creationTime (g ! i)"
    using assms(4) by (simp_all add: c restoreChild_flags)
  show "isDynamicallyGenerated (g ! i) \<Longrightarrow> isAppearing (g ! i)
           \<Longrightarrow> creationTime (g ! i) = Some created
           \<Longrightarrow> mat_opacity (children (handleCanvasClickAndCapture flt now s) ! i)
                 = min 1 ((now - created) / FADE_IN_DURATION)"
    using assms(4) by (simp add: c restoreChild_def Let_def)
  show "\<not> isAppearing (g ! i)
           \<Longrightarrow> mat_opacity (children (handleCanvasClickAndCapture flt now s) ! i) = 1"
    using assms(4) by (simp add: c restoreChild_def Let_def)
qed

lemma fade_mono:
  fixes a b c :: real
  assumes "a \<le> b"
  shows "min 1 ((a - c) / FADE_IN_DURATION) \<le> min 1 ((b - c) / FADE_IN_DURATION)"
  using assms by (simp add: min_def divide_right_mono)

lemma fade_full:
  fixes a b c :: real
  assumes "a \<le> b" and "min 1 ((a - c) / FADE_IN_DURATION) = 1"
  shows "min 1 ((b - c) / FADE_IN_DURATION) = 1"
  using fade_mono [OF assms(1), of c] assms(2) by (simp add: min_def split: if_splits)

text \<open>An aging pass and a snapshot on a child whose fade has come to clock reading \<open>t\<close>.\<close>

lemma fadeIn_later:
  assumes "isDynamicallyGenerated x" and "creationTime x = Some created"
    and "mat_opacity x = min 1 ((t - created) / FADE_IN_DURATION)"
    and "\<not> isAppearing x \<Longrightarrow> mat_opacity x = 1"
    and "t \<le> t'"
  shows "mat_opacity (fadeIn t' x) = min 1 ((t' - created) / FADE_IN_DURATION)"
    and "isDynamicallyGenerated (fadeIn t' x)"
    and "creationTime (fadeIn t' x) = Some created"
    and "\<not> isAppearing (fadeIn t' x) \<Longrightarrow> mat_opacity (fadeIn t' x) = 1"
proof -
  show "mat_opacity (fadeIn t' x) = min 1 ((t' - created) / FADE_IN_DURATION)"
  proof (cases "isAppearing x")
    case True
    from fadeIn_opacity(1) [OF assms(1) True assms(2)] show ?thesis .
  next
    case False
    with assms(3,4) have "min 1 ((t - created) / FADE_IN_DURATION) = 1" by simp
    from fade_full [OF assms(5) this] False assms(4) show ?thesis by (simp add: fadeIn_done)
  qed
  show "isDynamicallyGenerated (fadeIn t' x)" and "creationTime (fadeIn t' x) = Some created"
    using assms(1,2) by (auto simp: fadeIn_def Let_def)
  show "\<not> isAppearing (fadeIn t' x) \<Longrightarrow> mat_opacity (fadeIn t' x) = 1"
  proof (cases "isAppearing x")
    case True
    assume "\<not> isAppearing (fadeIn t' x)"
    with fadeIn_opacity(1,4) [OF assms(1) True assms(2), of t'] show ?thesis
      by (simp add: min_def split: if_splits)
  next
    case False
    with assms(4) show ?thesis by (simp add: fadeIn_done)
  qed
qed

lemma capture_later:
  assumes "present s" and "\<not> isCapturingRef s" and "cityElementsGroupRef s = Some g"
    and "i < length g"
    and "isDynamicallyGenerated (g ! i)" and "creationTime (g ! i) = Some created"
    and "mat_opacity (g ! i) = min 1 ((t - created) / FADE_IN_DURATION)"
    and "\<not> isAppearing (g ! i) \<Longrightarrow> mat_opacity (g ! i) = 1"
    and "t \<le> t'"
  shows "mat_opacity (children (handleCanvasClickAndCapture flt t' s) ! i)
           = min 1 ((t' - created) / FADE_IN_DURATION)"
proof (cases "isAppearing (g ! i)")
  case True
  from capture_child(4) [OF assms(1,2,3,4) assms(5) True assms(6)] show ?thesis .
next
  case False
  with assms(7,8) have "min 1 ((t - created) / FADE_IN_DURATION) = 1" by simp
  from fade_full [OF assms(9) this] capture_child(5) [OF assms(1,2,3,4) False]
  show ?thesis by simp
qed

lemma streamed_child:
  "\<exists>x. cityElementsGroupRef (run oneStreamed (mounted mount0 lime)) = Some [x]
     \<and> isDynamicallyGenerated x \<and> isAppearing x \<and> creationTime x = Some 1
     \<and> mat_opacity x = 1 / 100"
  by (simp add: oneStreamed_def sim streamed0_def createOrUpdateLineSegments_def translated_def
        buildEdges_def placedAt_def heightOr0_def)

text \<open>
  C5, as stated, fails between the creation of a mesh and its first aging pass: the
  builder sets the opacity to 0.01, not to \<open>min 1 (0 / 0.35)\<close>, and an aging pass
  that comes within 3.5 ms of the creation lowers it. A building streamed at clock
  reading 10 has opacity 1/100; the frame at 10.001 sets it to 1/350.
\<close>

theorem fresh_opacity_counterexample:
  "map isAppearing
     (children (run [Frame 0 0, Settle 0 [Fulfilled (Some [streamed0])] 10] (mounted mount0 lime)))
     = [True]
   \<and> map creationTime
     (children (run [Frame 0 0, Settle 0 [Fulfilled (Some [streamed0])] 10] (mounted mount0 lime)))
     = [Some 10]
   \<and> map mat_opacity
     (children (run [Frame 0 0, Settle 0 [Fulfilled (Some [streamed0])] 10] (mounted mount0 lime)))
     = [1 / 100]
   \<and> map mat_opacity
     (children (run [Frame 0 0, Settle 0 [Fulfilled (Some [streamed0])] 10, Frame (10 + 1 / 1000) 0]
        (mounted mount0 lime)))
     = [1 / 350]"
  by (simp add: sim children_def streamed0_def createOrUpdateLineSegments_def translated_def
        fadeIn_def buildEdges_def placedAt_def heightOr0_def)

text \<open>
  C5, amended. The builder creates a streamed mesh flagged appearing, with the clock
  reading as its creation time and with opacity 0.01. For a child of the group that is
  flagged dynamic and appearing and was created at \<open>created\<close>, in a state in which
  the refs are filled and no snapshot is being rendered:
  the aging pass of a frame at clock reading \<open>t1\<close> applies \<open>fadeIn\<close> to every child
  and sets the opacity of this one to \<open>min 1 ((t1 - created) / 0.35)\<close>; the cleanup
  of a snapshot taken at \<open>t1\<close> instead sets the same opacity and leaves the flag.
  The aging pass of a later frame at \<open>t2\<close> gives \<open>min 1 ((t2 - created) / 0.35)\<close>,
  also when a snapshot at a clock reading \<open>tc\<close> in between has set
  \<open>min 1 ((tc - created) / 0.35)\<close>; so from one aging pass to the next, and through a
  snapshot between them, the opacity does not decrease. After an aging pass the child is
  flagged appearing exactly when its opacity is below 1; once it is 1, no later aging
  pass changes the child, and a later snapshot leaves the opacity at 1 and the flag
  cleared.
\<close>

theorem fade_in_by_aging:
  assumes "present s" and "\<not> isCapturingRef s" and "cityElementsGroupRef s = Some g"
    and "i < length g"
    and "isDynamicallyGenerated (g ! i)" and "isAppearing (g ! i)"
    and "creationTime (g ! i) = Some created"
    and "created \<le> t1" and "t1 \<le> tc" and "tc \<le> t2"
  shows "mat_opacity (fst (createOrUpdateLineSegments b_data None True now s)) = 1 / 100
    \<and> isAppearing (fst (createOrUpdateLineSegments b_data None True now s))
    \<and> creationTime (fst (createOrUpdateLineSegments b_data None True now s)) = Some now
    \<and> cityElementsGroupRef (animate t1 r s) = Some (map (fadeIn t1) g)
    \<and> mat_opacity (children (animate t1 r s) ! i) = min 1 ((t1 - created) / FADE_IN_DURATION)
    \<and> mat_opacity (children (handleCanvasClickAndCapture flt t1 s) ! i)
        = min 1 ((t1 - created) / FADE_IN_DURATION)
    \<and> isAppearing (children (handleCanvasClickAndCapture flt t1 s) ! i)
    \<and> mat_opacity (children (animate t2 r2 (animate t1 r s)) ! i)
        = min 1 ((t2 - created) / FADE_IN_DURATION)
    \<and> mat_opacity (children (handleCanvasClickAndCapture flt tc (animate t1 r s)) ! i)
        = min 1 ((tc - created) / FADE_IN_DURATION)
    \<and> mat_opacity
          (children (animate t2 r2 (handleCanvasClickAndCapture flt tc (animate t1 r s))) ! i)
        = min 1 ((t2 - created) / FADE_IN_DURATION)
    \<and> mat_opacity (children (animate t1 r s) ! i)
        \<le> mat_opacity (children (animate t2 r2 (animate t1 r s)) ! i)
    \<and> mat_opacity (children (animate t1 r s) ! i)
        \<le> mat_opacity (children (handleCanvasClickAndCapture flt tc (animate t1 r s)) ! i)
    \<and> mat_opacity (children (handleCanvasClickAndCapture flt tc (animate t1 r s)) ! i)
        \<le> mat_opacity
             (children (animate t2 r2 (handleCanvasClickAndCapture flt tc (animate t1 r s))) ! i)
    \<and> isAppearing (children (animate t1 r s) ! i)
        = (mat_opacity (children (animate t1 r s) ! i) < 1)
    \<and> (mat_opacity (children (animate t1 r s) ! i) = 1 \<longrightarrow>
          (\<forall>t r3. children (animate t r3 (animate t1 r s)) ! i = children (animate t1 r s) ! i)
          \<and> (\<forall>t flt3.
                \<not> isAppearing (children (handleCanvasClickAndCapture flt3 t (animate t1 r s)) ! i)
                \<and> mat_opacity (children (handleCanvasClickAndCapture flt3 t (animate t1 r s)) ! i)
                    = 1))"
proof -
  let ?f = "\<lambda>t. min 1 ((t - created) / FADE_IN_DURATION)"
  let ?sA = "animate t1 r s"
  let ?gA = "map (fadeIn t1) g"
  let ?sS = "handleCanvasClickAndCapture flt tc ?sA"
  let ?gS = "map (\<lambda>e. restoreChild (savedColors ?sA) (cityColorTHREE ?sA) True tc
                     (e\<lparr>mat_opacity := 1, mat_transparent := False\<rparr>)) ?gA"
  have clock: "clockRef s" using assms(1) by (simp add: present_def)
  have built: "mat_opacity (fst (createOrUpdateLineSegments b_data None True now s)) = 1 / 100"
    "isAppearing (fst (createOrUpdateLineSegments b_data None True now s))"
    "creationTime (fst (createOrUpdateLineSegments b_data None True now s)) = Some now"
    using clock by (simp_all add: createOrUpdateLineSegments_def Let_def)
  have pA: "present ?sA" using step_present [OF assms(1), of "Frame t1 r"] by simp
  have nA: "\<not> isCapturingRef ?sA" using assms(2) by simp
  have gA: "cityElementsGroupRef ?sA = Some ?gA" by (rule animate_children [OF assms(1,2,3)])
  have iA: "i < length ?gA" using assms(4) by simp
  have eA: "?gA ! i = fadeIn t1 (g ! i)" using assms(4) by simp
  have cA: "children ?sA ! i = fadeIn t1 (g ! i)" by (rule animate_child [OF assms(1,2,3,4)])
  note first = fadeIn_opacity [OF assms(5,6,7), of t1]
  have doneA: "\<not> isAppearing (?gA ! i) \<Longrightarrow> mat_opacity (?gA ! i) = 1"
    using first(4) first(1) by (simp add: eA min_def split: if_splits)
  have o1: "mat_opacity (children ?sA ! i) = ?f t1" using first(1) by (simp add: cA)
  have s1: "mat_opacity (children (handleCanvasClickAndCapture flt t1 s) ! i) = ?f t1"
    by (rule capture_child(4) [OF assms(1,2,3,4) assms(5,6,7)])
  have s1a: "isAppearing (children (handleCanvasClickAndCapture flt t1 s) ! i)"
    using capture_child(2) [OF assms(1,2,3,4), of flt t1] assms(6) by simp
  have o2: "mat_opacity (children (animate t2 r2 ?sA) ! i) = ?f t2"
    using animate_child [OF pA nA gA iA, of t2 r2]
      fadeIn_later(1) [of "?gA ! i" created t1 t2] first doneA assms(9,10)
    by (simp add: eA)
  have oS: "mat_opacity (children ?sS ! i) = ?f tc"
    using capture_later [OF pA nA gA iA, of created t1 tc flt] first doneA assms(9)
    by (simp add: eA)
  have pS: "present ?sS" using step_present [OF pA, of "Capture flt tc"] by simp
  have nS: "\<not> isCapturingRef ?sS" using step_idle [OF nA, of "Capture flt tc"] by simp
  have gS: "cityElementsGroupRef ?sS = Some ?gS" by (rule capture_children [OF pA nA gA])
  have iS: "i < length ?gS" using assms(4) by simp
  have cS: "children ?sS ! i = ?gS ! i" using gS by (simp add: children_def)
  have fS: "isDynamicallyGenerated (?gS ! i)" "creationTime (?gS ! i) = Some created"
    "isAppearing (?gS ! i) = isAppearing (?gA ! i)"
    using capture_child(1,2,3) [OF pA nA gA iA, of flt tc] first(2,3) unfolding cS
    by (simp_all add: eA)
  have doneS: "\<not> isAppearing (?gS ! i) \<Longrightarrow> mat_opacity (?gS ! i) = 1"
    using capture_child(5) [OF pA nA gA iA, of flt tc] fS(3) unfolding cS by simp
  have o3: "mat_opacity (children (animate t2 r2 ?sS) ! i) = ?f t2"
    using animate_child [OF pS nS gS iS, of t2 r2]
      fadeIn_later(1) [OF fS(1,2) _ doneS assms(10)] oS
    by (simp add: cS)
  have app: "isAppearing (children ?sA ! i) = (mat_opacity (children ?sA ! i) < 1)"
    using first(4) by (simp add: cA)
  have stop: "mat_opacity (children ?sA ! i) = 1 \<longrightarrow>
          (\<forall>t r3. children (animate t r3 ?sA) ! i = children ?sA ! i)
          \<and> (\<forall>t flt3.
                \<not> isAppearing (children (handleCanvasClickAndCapture flt3 t ?sA) ! i)
                \<and> mat_opacity (children (handleCanvasClickAndCapture flt3 t ?sA) ! i) = 1)"
  proof (intro impI conjI allI)
    assume one: "mat_opacity (children ?sA ! i) = 1"
    then have off: "\<not> isAppearing (?gA ! i)" using app by (simp add: cA eA)
    fix t r3 flt3
    show "children (animate t r3 ?sA) ! i = children ?sA ! i"
      using animate_child [OF pA nA gA iA, of t r3] off by (simp add: cA eA fadeIn_done)
    show "\<not> isAppearing (children (handleCanvasClickAndCapture flt3 t ?sA) ! i)"
      using capture_child(2) [OF pA nA gA iA, of flt3 t] off by simp
    show "mat_opacity (children (handleCanvasClickAndCapture flt3 t ?sA) ! i) = 1"
      using capture_child(5) [OF pA nA gA iA off, of flt3 t] .
  qed
  have m1: "?f t1 \<le> ?f t2" using assms(9,10) by (intro fade_mono) simp
  have m2: "?f t1 \<le> ?f tc" using assms(9) by (rule fade_mono)
  have m3: "?f tc \<le> ?f t2" using assms(10) by (rule fade_mono)
  show ?thesis
    unfolding o1 s1 o2 oS o3
    using built gA s1a m1 m2 m3 app [unfolded o1] stop [unfolded o1]
    by (intro conjI) simp_all
qed

text \<open>
  The building streamed at clock reading 1 in the run \<open>oneStreamed\<close>: frames and
  snapshots at a fifth, two fifths and three fifths of the fade, and a frame after it.
\<close>

theorem fade_in_by_aging_witness:
  "mat_opacity (children (animate (1 + 7 / 100) 0 (run oneStreamed (mounted mount0 lime))) ! 0)
     = 1 / 5
   \<and> mat_opacity (children (handleCanvasClickAndCapture None (1 + 7 / 100)
        (run oneStreamed (mounted mount0 lime))) ! 0) = 1 / 5
   \<and> mat_opacity (children (handleCanvasClickAndCapture None (1 + 14 / 100)
        (animate (1 + 7 / 100) 0 (run oneStreamed (mounted mount0 lime)))) ! 0) = 2 / 5
   \<and> mat_opacity (children (animate (1 + 21 / 100) 0
        (handleCanvasClickAndCapture None (1 + 14 / 100)
           (animate (1 + 7 / 100) 0 (run oneStreamed (mounted mount0 lime))))) ! 0) = 3 / 5
   \<and> mat_opacity (children (animate 2 0 (run oneStreamed (mounted mount0 lime))) ! 0) = 1
   \<and> \<not> isAppearing (children (animate 2 0 (run oneStreamed (mounted mount0 lime))) ! 0)
   \<and> children (animate 3 0 (animate 2 0 (run oneStreamed (mounted mount0 lime)))) ! 0
       = children (animate 2 0 (run oneStreamed (mounted mount0 lime))) ! 0"
proof -
  let ?s = "run oneStreamed (mounted mount0 lime)"
  from streamed_child obtain x where x: "cityElementsGroupRef ?s = Some [x]"
    "isDynamicallyGenerated x" "isAppearing x" "creationTime x = Some 1"
    by blast
  have idle: "\<not> isCapturingRef (mounted mount0 lime)" by (simp add: mounted_def)
  have h: "present ?s" "\<not> isCapturingRef ?s" "cityElementsGroupRef ?s = Some [x]"
    "0 < length [x]" "isDynamicallyGenerated ([x] ! 0)" "isAppearing ([x] ! 0)"
    "creationTime ([x] ! 0) = Some 1"
    using x run_idle [OF idle, of oneStreamed] by (simp_all add: run_present mounted_present)
  have a: "(1::real) \<le> 1 + 7 / 100" "(1::real) + 7 / 100 \<le> 1 + 14 / 100"
    "(1::real) + 14 / 100 \<le> 1 + 21 / 100" by simp_all
  have b: "(1::real) \<le> 2" "(2::real) \<le> 3" "(3::real) \<le> 3" by simp_all
  from fade_in_by_aging [OF h a, of streamed0 1 0 None 0]
    fade_in_by_aging [OF h b, of streamed0 1 0 None 0]
  show ?thesis by simp
qed

section \<open>Validation of generated content\<close>

lemma js_eq [simp]: "(js a = js b) = (a = b)"
  unfolding js_def by (simp add: inj_map_eq_map inj_on_def)

lemma js_Nil [simp]: "(js a = []) = (a = [])"
  by (simp add: js_def)

lemma isString_iff: "isString v = (\<exists>str. v = Some (JString str))"
  by (cases v rule: isString.cases) simp_all

lemma landscapeAccepted_iff:
  "landscapeAccepted d =
     (\<exists>sky top hor bs.
        getProp d (js ''sky'') = Some sky \<and> truthy sky
        \<and> getProp sky (js ''topColor'') = Some (JString top)
        \<and> getProp sky (js ''horizonColor'') = Some (JString hor)
        \<and> getProp d (js ''buildings'') = Some (JArray bs)
        \<and> 25 \<le> length bs \<and> length bs \<le> 50
        \<and> (\<forall>b \<in> set bs. isValidBuildingElement b))"
  by (auto simp: landscapeAccepted_def isString_iff list_all_iff split: option.splits json.splits)

lemma landscapeFailed_fields:
  "app_landscapeData (landscapeFailed err a) = None"
  by (simp add: landscapeFailed_def)

lemma errorMessage_nonempty: "errorMessage err \<noteq> []"
  by (simp add: errorMessage_def split: option.splits)

lemma landscapeFailed_shown: "errorShown (landscapeFailed err a)"
  by (simp add: errorShown_def landscapeFailed_def errorMessage_nonempty)

lemma rejected_shown:
  assumes "app_landscapeData (generateNewLandscape apiKey parse resp a) = None"
  shows "errorShown (generateNewLandscape apiKey parse resp a)"
proof (cases apiKey)
  case False
  then show ?thesis by (simp add: generateNewLandscape_def errorShown_def)
next
  case True
  with assms show ?thesis
    by (auto simp: generateNewLandscape_def Let_def landscapeFailed_shown
        split: if_splits response.splits option.splits)
qed

lemma bld_1_not_blank: "\<not> trimsToEmpty (js ''bld_1'')"
  by (simp add: trimsToEmpty_def whiteSpace_def js_def)

lemma validBox_valid: "isValidBuildingElement validBox"
  using bld_1_not_blank by (simp add: isValidBuildingElement_def validBox_def)

lemma skyline_accepted: "landscapeAccepted (skyline n) = (25 \<le> n \<and> n \<le> 50)"
  by (auto simp: landscapeAccepted_def skyline_def list_all_iff validBox_valid)

text \<open>
  C7. \<^verbatim>\<open>generateNewLandscape\<close> stores a landscape only if the response text parses
  and the parsed document has a \<^verbatim>\<open>sky\<close> with two strings \<^verbatim>\<open>topColor\<close> and
  \<^verbatim>\<open>horizonColor\<close> and an array \<^verbatim>\<open>buildings\<close> of 25 to 50 elements that all
  pass \<^verbatim>\<open>isValidBuildingElement\<close>; what it stores is the parsed document itself.
  In every other case \<^verbatim>\<open>landscapeData\<close> is null, the error is set to a message
  that is not the empty string and loading has ended, which is the condition
  \<^verbatim>\<open>error && !isLoading\<close> under which the application renders the message.
  \<^verbatim>\<open>generateBuildingCluster\<close> returns a cluster only if the parsed document is an
  array of 5 to 8 elements that all pass the validation, and then it returns every
  element, with the prefixed id; otherwise it returns null.
\<close>

theorem generated_content_validated:
  "(app_landscapeData (generateNewLandscape apiKey parse resp a) = Some d \<longrightarrow>
      (\<exists>jsonStr sky top hor bs.
         resp = Text jsonStr \<and> parse jsonStr = Some d
         \<and> getProp d (js ''sky'') = Some sky
         \<and> getProp sky (js ''topColor'') = Some (JString top)
         \<and> getProp sky (js ''horizonColor'') = Some (JString hor)
         \<and> getProp d (js ''buildings'') = Some (JArray bs)
         \<and> 25 \<le> length bs \<and> length bs \<le> 50
         \<and> (\<forall>b \<in> set bs. isValidBuildingElement b)))
   \<and> (app_landscapeData (generateNewLandscape apiKey parse resp a) = None \<longrightarrow>
         (\<exists>message.
            app_error (generateNewLandscape apiKey parse resp a) = Some message
            \<and> message \<noteq> [])
         \<and> \<not> app_isLoading (generateNewLandscape apiKey parse resp a)
         \<and> errorShown (generateNewLandscape apiKey parse resp a))
   \<and> (generateBuildingCluster apiKey parse resp clusterIdPrefix = Some cluster \<longrightarrow>
      (\<exists>jsonStr elements.
         resp = Text jsonStr \<and> parse jsonStr = Some (JArray elements)
         \<and> 5 \<le> length elements \<and> length elements \<le> 8
         \<and> (\<forall>b \<in> set elements. isValidBuildingElement b)
         \<and> cluster = map (withPrefix clusterIdPrefix) elements))"
proof (intro conjI impI)
  assume acc: "app_landscapeData (generateNewLandscape apiKey parse resp a) = Some d"
  then obtain jsonStr where "resp = Text jsonStr" "parse jsonStr = Some d" "landscapeAccepted d"
    by (auto simp: generateNewLandscape_def Let_def landscapeFailed_fields
        split: if_splits response.splits option.splits)
  then show "\<exists>jsonStr sky top hor bs.
         resp = Text jsonStr \<and> parse jsonStr = Some d
         \<and> getProp d (js ''sky'') = Some sky
         \<and> getProp sky (js ''topColor'') = Some (JString top)
         \<and> getProp sky (js ''horizonColor'') = Some (JString hor)
         \<and> getProp d (js ''buildings'') = Some (JArray bs)
         \<and> 25 \<le> length bs \<and> length bs \<le> 50
         \<and> (\<forall>b \<in> set bs. isValidBuildingElement b)"
    unfolding landscapeAccepted_iff by blast
next
  assume "app_landscapeData (generateNewLandscape apiKey parse resp a) = None"
  then have shown: "errorShown (generateNewLandscape apiKey parse resp a)"
    by (rule rejected_shown)
  then show "errorShown (generateNewLandscape apiKey parse resp a)" .
  from shown show "\<exists>message.
            app_error (generateNewLandscape apiKey parse resp a) = Some message
            \<and> message \<noteq> []"
    by (auto simp: errorShown_def split: option.splits)
  from shown show "\<not> app_isLoading (generateNewLandscape apiKey parse resp a)"
    by (auto simp: errorShown_def split: option.splits)
next
  assume "generateBuildingCluster apiKey parse resp clusterIdPrefix = Some cluster"
  then show "\<exists>jsonStr elements.
         resp = Text jsonStr \<and> parse jsonStr = Some (JArray elements)
         \<and> 5 \<le> length elements \<and> length elements \<le> 8
         \<and> (\<forall>b \<in> set elements. isValidBuildingElement b)
         \<and> cluster = map (withPrefix clusterIdPrefix) elements"
    by (auto simp: generateBuildingCluster_def list_all_iff
        split: if_splits response.splits option.splits json.splits)
qed

text \<open>Responses that parse to landscapes of 25 and of 24 valid buildings, and to
  clusters of 5 and of 9.\<close>

theorem generated_content_validated_witness:
  "app_landscapeData
     (generateNewLandscape True (\<lambda>jsonStr. Some (skyline 25)) (Text (js ''{}'')) freshApp)
     = Some (skyline 25)
   \<and> getProp (skyline 25) (js ''buildings'') = Some (JArray (replicate 25 validBox))
   \<and> app_landscapeData
     (generateNewLandscape True (\<lambda>jsonStr. Some (skyline 24)) (Text (js ''{}'')) freshApp)
     = None
   \<and> errorShown
     (generateNewLandscape True (\<lambda>jsonStr. Some (skyline 24)) (Text (js ''{}'')) freshApp)
   \<and> app_error
     (generateNewLandscape True (\<lambda>jsonStr. Some (skyline 24)) (Text (js ''{}'')) freshApp)
     = Some (js ''Error: Failed to parse landscape data from API. Invalid JSON structure. Raw: {}'')
   \<and> generateBuildingCluster True (\<lambda>jsonStr. Some (JArray (replicate 5 validBox)))
        (Text (js ''[]'')) (js ''dyn_c0_'')
     = Some (replicate 5 (withPrefix (js ''dyn_c0_'') validBox))
   \<and> generateBuildingCluster True (\<lambda>jsonStr. Some (JArray (replicate 9 validBox)))
        (Text (js ''[]'')) (js ''dyn_c0_'')
     = None"
proof -
  let ?bad = "generateNewLandscape True (\<lambda>jsonStr. Some (skyline 24)) (Text (js ''{}'')) freshApp"
  have a: "app_landscapeData
      (generateNewLandscape True (\<lambda>jsonStr. Some (skyline 25)) (Text (js ''{}'')) freshApp)
      = Some (skyline 25)"
    by (simp add: generateNewLandscape_def skyline_accepted) (simp add: skyline_def)
  have b: "app_landscapeData ?bad = None"
    by (simp add: generateNewLandscape_def skyline_accepted landscapeFailed_fields)
  have c: "generateBuildingCluster True (\<lambda>jsonStr. Some (JArray (replicate 5 validBox)))
      (Text (js ''[]'')) (js ''dyn_c0_'')
      = Some (replicate 5 (withPrefix (js ''dyn_c0_'') validBox))"
    by (simp add: generateBuildingCluster_def list_all_iff validBox_valid)
  have e: "generateBuildingCluster True (\<lambda>jsonStr. Some (JArray (replicate 9 validBox)))
      (Text (js ''[]'')) (js ''dyn_c0_'') = None"
    by (simp add: generateBuildingCluster_def)
  have no_key: "\<not> sublist (js ''API key not valid'')
      (js ''Failed to parse landscape data from API. Invalid JSON structure. Raw: {}'')"
    by (simp add: js_def sublist_Cons_right prefix_Cons)
  have m: "app_error ?bad
      = Some (js ''Error: Failed to parse landscape data from API. Invalid JSON structure. Raw: {}'')"
    using no_key
    by (simp add: generateNewLandscape_def skyline_accepted landscapeFailed_def errorMessage_def
          parseFailureMessage_def rawResponseLog_def)
       (simp add: skyline_def js_def)
  from generated_content_validated
    [of True "\<lambda>jsonStr. Some (skyline 25)" "Text (js ''{}'')" freshApp "skyline 25"
        "js ''dyn_c0_''" "replicate 5 (withPrefix (js ''dyn_c0_'') validBox)"]
    generated_content_validated
    [of True "\<lambda>jsonStr. Some (skyline 24)" "Text (js ''{}'')" freshApp "skyline 24"
        "js ''dyn_c0_''" "replicate 5 (withPrefix (js ''dyn_c0_'') validBox)"]
    a b c e m
  show ?thesis by (simp add: skyline_def)
qed

section \<open>Merging a landscape\<close>

lemma replaceFirst_map:
  "find P g = Some x \<Longrightarrow> f e = f x \<Longrightarrow> map f (replaceFirst P e g) = map f g"
  by (induction g) (auto split: if_splits)

lemma replaceFirst_subset: "set (replaceFirst P e g) \<subseteq> insert e (set g)"
  by (induction g) auto

lemma replaceFirst_keeps: "c \<in> set g \<Longrightarrow> \<not> P c \<Longrightarrow> c \<in> set (replaceFirst P e g)"
  by (induction g) auto

lemma mergeBuilding_found:
  assumes "elem_id b \<notin> dynamicallyGeneratedBuildingsRef s"
    and "cityElementsGroupRef s = Some g"
    and "find (\<lambda>c. ud_id c = elem_id b) g = Some x"
  shows "\<exists>e. cityElementsGroupRef (mergeBuilding b s)
               = Some (replaceFirst (\<lambda>c. ud_id c = elem_id b) e g)
           \<and> uuid e = uuid x \<and> ud_id e = ud_id x \<and> \<not> isDynamicallyGenerated e
           \<and> geometry e = nextObject s + 1"
    and "disposed (mergeBuilding b s)
           = disposed s @ [Geometry (nextObject s), Geometry (geometry x)]"
    and "nextObject (mergeBuilding b s) = nextObject s + 2"
proof -
  show "\<exists>e. cityElementsGroupRef (mergeBuilding b s)
               = Some (replaceFirst (\<lambda>c. ud_id c = elem_id b) e g)
           \<and> uuid e = uuid x \<and> ud_id e = ud_id x \<and> \<not> isDynamicallyGenerated e
           \<and> geometry e = nextObject s + 1"
    using assms
    by (simp add: mergeBuilding_def createOrUpdateLineSegments_def Let_def)
       (intro exI conjI, rule refl, simp_all)
  show "disposed (mergeBuilding b s)
           = disposed s @ [Geometry (nextObject s), Geometry (geometry x)]"
    and "nextObject (mergeBuilding b s) = nextObject s + 2"
    using assms by (simp_all add: mergeBuilding_def createOrUpdateLineSegments_def Let_def)
qed

lemma mergeBuilding_new:
  assumes "elem_id b \<notin> dynamicallyGeneratedBuildingsRef s"
    and "cityElementsGroupRef s = Some g"
    and "find (\<lambda>c. ud_id c = elem_id b) g = None"
  shows "\<exists>e. cityElementsGroupRef (mergeBuilding b s) = Some (g @ [e])
           \<and> ud_id e = elem_id b \<and> \<not> isDynamicallyGenerated e"
    and "disposed (mergeBuilding b s) = disposed s @ [Geometry (nextObject s)]"
    and "nextObject (mergeBuilding b s) = nextObject s + 3"
proof -
  show "\<exists>e. cityElementsGroupRef (mergeBuilding b s) = Some (g @ [e])
           \<and> ud_id e = elem_id b \<and> \<not> isDynamicallyGenerated e"
    using assms
    by (simp add: mergeBuilding_def createOrUpdateLineSegments_def Let_def)
  show "disposed (mergeBuilding b s) = disposed s @ [Geometry (nextObject s)]"
    and "nextObject (mergeBuilding b s) = nextObject s + 3"
    using assms by (simp_all add: mergeBuilding_def createOrUpdateLineSegments_def Let_def)
qed

lemma find_id_Some:
  "elem_id b \<in> ud_id ` set g \<Longrightarrow> \<exists>x. find (\<lambda>c. ud_id c = elem_id b) g = Some x"
  by (cases "find (\<lambda>c. ud_id c = elem_id b) g") (auto simp: find_None_iff)

lemma find_id_props:
  "find (\<lambda>c. ud_id c = i) g = Some x \<Longrightarrow> x \<in> set g \<and> ud_id x = i"
  by (auto simp: find_Some_iff)

text \<open>The loop over the buildings when every id is in the group already.\<close>

lemma updateOrAdd_in_place:
  assumes "dynamicallyGeneratedBuildingsRef s = {}"
    and "cityElementsGroupRef s = Some g"
    and "\<forall>b \<in> set bs. elem_id b \<in> ud_id ` set g"
  shows "\<exists>g' ns. cityElementsGroupRef (updateOrAdd bs s) = Some g'
           \<and> map uuid g' = map uuid g \<and> map ud_id g' = map ud_id g
           \<and> disposed (updateOrAdd bs s) = disposed s @ map Geometry ns
           \<and> length ns = 2 * length bs
           \<and> nextObject (updateOrAdd bs s) = nextObject s + 2 * length bs"
  using assms
proof (induction bs arbitrary: s g)
  case Nil
  then show ?case by simp
next
  case (Cons b bs)
  let ?P = "\<lambda>c. ud_id c = elem_id b"
  let ?s1 = "mergeBuilding b s"
  from Cons.prems(3) obtain x where x: "find ?P g = Some x"
    using find_id_Some [of b g] by auto
  have nd: "elem_id b \<notin> dynamicallyGeneratedBuildingsRef s" using Cons.prems(1) by simp
  from mergeBuilding_found(1) [OF nd Cons.prems(2) x] obtain e where e:
    "cityElementsGroupRef ?s1 = Some (replaceFirst ?P e g)" "uuid e = uuid x" "ud_id e = ud_id x"
    by blast
  let ?g1 = "replaceFirst ?P e g"
  have uu: "map uuid ?g1 = map uuid g" and ii: "map ud_id ?g1 = map ud_id g"
    using x e(2,3) by (simp_all add: replaceFirst_map)
  have "ud_id ` set ?g1 = ud_id ` set g"
    using ii by (metis set_map)
  then have all: "\<forall>b \<in> set bs. elem_id b \<in> ud_id ` set ?g1" using Cons.prems(3) by simp
  have d1: "dynamicallyGeneratedBuildingsRef ?s1 = {}" using Cons.prems(1) by simp
  from Cons.IH [OF d1 e(1) all] obtain g' ns where IH:
    "cityElementsGroupRef (updateOrAdd bs ?s1) = Some g'"
    "map uuid g' = map uuid ?g1" "map ud_id g' = map ud_id ?g1"
    "disposed (updateOrAdd bs ?s1) = disposed ?s1 @ map Geometry ns"
    "length ns = 2 * length bs"
    "nextObject (updateOrAdd bs ?s1) = nextObject ?s1 + 2 * length bs"
    by blast
  have "disposed (updateOrAdd (b # bs) s)
      = disposed s @ map Geometry (nextObject s # geometry x # ns)"
    using IH(4) mergeBuilding_found(2) [OF nd Cons.prems(2) x] by simp
  moreover have "nextObject (updateOrAdd (b # bs) s) = nextObject s + 2 * length (b # bs)"
    using IH(6) mergeBuilding_found(3) [OF nd Cons.prems(2) x] by simp
  ultimately show ?case
    using IH(1,2,3,5) uu ii
    by (intro exI [of _ g'] exI [of _ "nextObject s # geometry x # ns"]) simp
qed

lemma replaceFirst_in: "find P g = Some x \<Longrightarrow> e \<in> set (replaceFirst P e g)"
  by (induction g) (auto split: if_splits)

text \<open>
  With distinct ids, each child named by a building ends with a geometry that the loop
  constructed: its identity is one of those allotted since the loop began.
\<close>

lemma updateOrAdd_rebuilt:
  assumes "dynamicallyGeneratedBuildingsRef s = {}"
    and "cityElementsGroupRef s = Some g"
    and "\<forall>b \<in> set bs. elem_id b \<in> ud_id ` set g"
    and "distinct (map ud_id g)"
    and "n0 \<le> nextObject s"
    and "\<forall>c \<in> set g. ud_id c \<notin> elem_id ` set bs
           \<longrightarrow> n0 \<le> geometry c \<and> geometry c < nextObject s"
  shows "\<exists>g'. cityElementsGroupRef (updateOrAdd bs s) = Some g'
           \<and> (\<forall>c \<in> set g'. n0 \<le> geometry c \<and> geometry c < nextObject (updateOrAdd bs s))"
  using assms
proof (induction bs arbitrary: s g)
  case Nil
  then show ?case by simp
next
  case (Cons b bs)
  let ?P = "\<lambda>c. ud_id c = elem_id b"
  let ?s1 = "mergeBuilding b s"
  from Cons.prems(3) obtain x where x: "find ?P g = Some x"
    using find_id_Some [of b g] by auto
  have nd: "elem_id b \<notin> dynamicallyGeneratedBuildingsRef s" using Cons.prems(1) by simp
  from mergeBuilding_found(1) [OF nd Cons.prems(2) x] obtain e where e:
    "cityElementsGroupRef ?s1 = Some (replaceFirst ?P e g)" "ud_id e = ud_id x"
    "geometry e = nextObject s + 1"
    by blast
  let ?g1 = "replaceFirst ?P e g"
  have nx: "nextObject ?s1 = nextObject s + 2"
    using mergeBuilding_found(3) [OF nd Cons.prems(2) x] .
  have ii: "map ud_id ?g1 = map ud_id g" using x e(2) by (simp add: replaceFirst_map)
  have "ud_id ` set ?g1 = ud_id ` set g" using ii by (metis set_map)
  then have all: "\<forall>b \<in> set bs. elem_id b \<in> ud_id ` set ?g1" using Cons.prems(3) by simp
  have d1: "dynamicallyGeneratedBuildingsRef ?s1 = {}" using Cons.prems(1) by simp
  have dist: "distinct (map ud_id ?g1)" using ii Cons.prems(4) by simp
  have n1: "n0 \<le> nextObject ?s1" using nx Cons.prems(5) by simp
  have ein: "e \<in> set ?g1" using x by (rule replaceFirst_in)
  have eid: "ud_id e = elem_id b" using e(2) find_id_props [OF x] by simp
  have rest: "\<forall>c \<in> set ?g1. ud_id c \<notin> elem_id ` set bs
      \<longrightarrow> n0 \<le> geometry c \<and> geometry c < nextObject ?s1"
  proof (intro ballI impI)
    fix c assume c: "c \<in> set ?g1" and out: "ud_id c \<notin> elem_id ` set bs"
    show "n0 \<le> geometry c \<and> geometry c < nextObject ?s1"
    proof (cases "c = e")
      case True
      then show ?thesis using e(3) nx Cons.prems(5) by simp
    next
      case False
      have "ud_id c \<noteq> elem_id b"
      proof
        assume "ud_id c = elem_id b"
        then have "ud_id c = ud_id e" using eid by simp
        moreover have "inj_on ud_id (set ?g1)" using dist by (simp add: distinct_map)
        ultimately have "c = e" using c ein by (simp add: inj_on_def)
        with False show False by simp
      qed
      with out have o: "ud_id c \<notin> elem_id ` set (b # bs)" by simp
      from c False replaceFirst_subset [of ?P e g] have "c \<in> set g" by auto
      with Cons.prems(6) o have "n0 \<le> geometry c \<and> geometry c < nextObject s" by blast
      then show ?thesis using nx by simp
    qed
  qed
  from Cons.IH [OF d1 e(1) all dist n1 rest] show ?case by simp
qed

text \<open>The loop over the buildings from a group without dynamic children.\<close>

lemma updateOrAdd_covers:
  assumes "dynamicallyGeneratedBuildingsRef s = {}"
    and "cityElementsGroupRef s = Some g"
    and "\<forall>c \<in> set g. \<not> isDynamicallyGenerated c"
    and "distinct (map ud_id g)"
  shows "\<exists>g'. cityElementsGroupRef (updateOrAdd bs s) = Some g'
           \<and> ud_id ` set g' = ud_id ` set g \<union> elem_id ` set bs
           \<and> (\<forall>c \<in> set g'. \<not> isDynamicallyGenerated c)
           \<and> distinct (map ud_id g')"
  using assms
proof (induction bs arbitrary: s g)
  case Nil
  then show ?case by simp
next
  case (Cons b bs)
  let ?P = "\<lambda>c. ud_id c = elem_id b"
  let ?s1 = "mergeBuilding b s"
  have nd: "elem_id b \<notin> dynamicallyGeneratedBuildingsRef s" using Cons.prems(1) by simp
  have d1: "dynamicallyGeneratedBuildingsRef ?s1 = {}" using Cons.prems(1) by simp
  have "\<exists>g1. cityElementsGroupRef ?s1 = Some g1
          \<and> ud_id ` set g1 = insert (elem_id b) (ud_id ` set g)
          \<and> (\<forall>c \<in> set g1. \<not> isDynamicallyGenerated c)
          \<and> distinct (map ud_id g1)"
  proof (cases "find ?P g")
    case None
    from mergeBuilding_new(1) [OF nd Cons.prems(2) None] obtain e where e:
      "cityElementsGroupRef ?s1 = Some (g @ [e])" "ud_id e = elem_id b"
      "\<not> isDynamicallyGenerated e"
      by blast
    have "elem_id b \<notin> ud_id ` set g" using None by (auto simp: find_None_iff)
    then show ?thesis
      using e Cons.prems(3,4) by (intro exI [of _ "g @ [e]"]) auto
  next
    case (Some x)
    from mergeBuilding_found(1) [OF nd Cons.prems(2) Some] obtain e where e:
      "cityElementsGroupRef ?s1 = Some (replaceFirst ?P e g)" "ud_id e = ud_id x"
      "\<not> isDynamicallyGenerated e"
      by blast
    let ?g1 = "replaceFirst ?P e g"
    have ii: "map ud_id ?g1 = map ud_id g" using Some e(2) by (simp add: replaceFirst_map)
    then have im: "ud_id ` set ?g1 = ud_id ` set g" by (metis set_map)
    have "elem_id b \<in> ud_id ` set g" using find_id_props [OF Some] by force
    moreover have "\<forall>c \<in> set ?g1. \<not> isDynamicallyGenerated c"
      using replaceFirst_subset [of ?P e g] e(3) Cons.prems(3) by auto
    ultimately show ?thesis
      using e(1) im ii Cons.prems(4) by (intro exI [of _ ?g1]) auto
  qed
  then obtain g1 where g1: "cityElementsGroupRef ?s1 = Some g1"
    "ud_id ` set g1 = insert (elem_id b) (ud_id ` set g)"
    "\<forall>c \<in> set g1. \<not> isDynamicallyGenerated c" "distinct (map ud_id g1)"
    by blast
  from Cons.IH [OF d1 g1(1,3,4)] obtain g' where
    "cityElementsGroupRef (updateOrAdd bs ?s1) = Some g'"
    "ud_id ` set g' = ud_id ` set g1 \<union> elem_id ` set bs"
    "\<forall>c \<in> set g'. \<not> isDynamicallyGenerated c" "distinct (map ud_id g')"
    by blast
  then show ?case using g1(2) by (intro exI [of _ g']) auto
qed

lemma updateOrAdd_disposed_grows:
  "\<exists>rs. disposed (updateOrAdd bs s) = disposed s @ rs"
proof (induction bs arbitrary: s)
  case Nil
  show ?case by simp
next
  case (Cons b bs)
  have "\<exists>rs. disposed (mergeBuilding b s) = disposed s @ rs"
    by (simp add: mergeBuilding_def createOrUpdateLineSegments_def Let_def split: option.splits)
  then obtain rs where rs: "disposed (mergeBuilding b s) = disposed s @ rs" by blast
  from Cons.IH [of "mergeBuilding b s"] obtain rs' where
    "disposed (updateOrAdd bs (mergeBuilding b s)) = disposed (mergeBuilding b s) @ rs'"
    by blast
  with rs show ?case by simp
qed

text \<open>With distinct ids, each child named by a building loses the geometry it had.\<close>

lemma updateOrAdd_disposes:
  assumes "dynamicallyGeneratedBuildingsRef s = {}"
    and "cityElementsGroupRef s = Some g"
    and "\<forall>b \<in> set bs. elem_id b \<in> ud_id ` set g"
    and "distinct (map ud_id g)"
    and "c \<in> set g" and "ud_id c \<in> elem_id ` set bs"
  shows "Geometry (geometry c) \<in> set (drop (length (disposed s)) (disposed (updateOrAdd bs s)))"
  using assms
proof (induction bs arbitrary: s g)
  case Nil
  then show ?case by simp
next
  case (Cons b bs)
  let ?P = "\<lambda>c. ud_id c = elem_id b"
  let ?s1 = "mergeBuilding b s"
  from Cons.prems(3) obtain x where x: "find ?P g = Some x"
    using find_id_Some [of b g] by auto
  have nd: "elem_id b \<notin> dynamicallyGeneratedBuildingsRef s" using Cons.prems(1) by simp
  from mergeBuilding_found(1) [OF nd Cons.prems(2) x] obtain e where e:
    "cityElementsGroupRef ?s1 = Some (replaceFirst ?P e g)" "ud_id e = ud_id x"
    by blast
  let ?g1 = "replaceFirst ?P e g"
  have ii: "map ud_id ?g1 = map ud_id g" using x e(2) by (simp add: replaceFirst_map)
  have one: "disposed ?s1 = disposed s @ [Geometry (nextObject s), Geometry (geometry x)]"
    using mergeBuilding_found(2) [OF nd Cons.prems(2) x] .
  from updateOrAdd_disposed_grows [of bs ?s1] obtain rs where
    rs: "disposed (updateOrAdd bs ?s1) = disposed ?s1 @ rs" by blast
  show ?case
  proof (cases "ud_id c = elem_id b")
    case True
    have "x \<in> set g" "ud_id x = elem_id b" using find_id_props [OF x] by simp_all
    with True Cons.prems(4,5) have "c = x"
      by (metis distinct_map inj_on_def)
    then show ?thesis using rs one by simp
  next
    case False
    then have c1: "c \<in> set ?g1" using Cons.prems(5) by (simp add: replaceFirst_keeps)
    have c2: "ud_id c \<in> elem_id ` set bs" using False Cons.prems(6) by auto
    have "ud_id ` set ?g1 = ud_id ` set g" using ii by (metis set_map)
    then have all: "\<forall>b \<in> set bs. elem_id b \<in> ud_id ` set ?g1" using Cons.prems(3) by simp
    have d1: "dynamicallyGeneratedBuildingsRef ?s1 = {}" using Cons.prems(1) by simp
    have dist: "distinct (map ud_id ?g1)" using ii Cons.prems(4) by simp
    from Cons.IH [OF d1 e(1) all dist c1 c2]
    have "Geometry (geometry c) \<in> set (drop (length (disposed ?s1)) (disposed (updateOrAdd bs ?s1)))" .
    then show ?thesis using rs one by simp
  qed
qed

lemma clearDynamicBuildings_tidy:
  assumes "tidy s" and "cityElementsGroupRef s = Some g"
  shows "\<exists>g'. cityElementsGroupRef (clearDynamicBuildings s) = Some g'
           \<and> (\<forall>c \<in> set g'. \<not> isDynamicallyGenerated c)
           \<and> distinct (map ud_id g')"
proof -
  let ?D = "dynamicallyGeneratedBuildingsRef s"
  let ?keep = "\<lambda>c. ud_id c \<notin> ?D"
  from assms have flagged: "\<forall>c \<in> set g. isDynamicallyGenerated c \<longrightarrow> ud_id c \<in> ?D"
    and dist: "distinct (map ud_id (filter (\<lambda>c. \<not> isDynamicallyGenerated c) g))"
    by (simp_all add: tidy_def children_def)
  show ?thesis
  proof (cases "?D = {}")
    case True
    with flagged have none: "\<forall>c \<in> set g. \<not> isDynamicallyGenerated c" by simp
    then have "filter (\<lambda>c. \<not> isDynamicallyGenerated c) g = g" by simp
    with dist none True assms(2) show ?thesis by (simp add: clearDynamicBuildings_def)
  next
    case False
    have grp: "cityElementsGroupRef (clearDynamicBuildings s) = Some (filter ?keep g)"
      using False assms(2) by (simp add: clearDynamicBuildings_def removeChildren_def)
    have none: "\<forall>c \<in> set (filter ?keep g). \<not> isDynamicallyGenerated c"
      using flagged by auto
    have "filter ?keep g = filter ?keep (filter (\<lambda>c. \<not> isDynamicallyGenerated c) g)"
      using flagged by (auto intro: filter_cong)
    then have "distinct (map ud_id (filter ?keep g))"
      using dist by (metis distinct_map_filter)
    with grp none show ?thesis by blast
  qed
qed

text \<open>After the effect has merged a landscape with buildings, the group holds exactly
  their ids, each once, and no dynamic child.\<close>

lemma landscapeEffect_merged:
  assumes "cityElementsGroupRef s = Some g" and "sceneRef s" and "tidy s"
    and "buildings l \<noteq> []"
  shows "\<exists>g1. cityElementsGroupRef (landscapeEffect (Some l) s) = Some g1
           \<and> ud_id ` set g1 = elem_id ` set (buildings l)
           \<and> (\<forall>c \<in> set g1. \<not> isDynamicallyGenerated c)
           \<and> distinct (map ud_id g1)"
proof -
  let ?s0 = "clearDynamicBuildings s"
  let ?ids = "set (map elem_id (buildings l))"
  let ?doomed = "\<lambda>child. \<not> isDynamicallyGenerated child \<and> ud_id child \<notin> ?ids"
  from clearDynamicBuildings_tidy [OF assms(3,1)] obtain g0 where g0:
    "cityElementsGroupRef ?s0 = Some g0" "\<forall>c \<in> set g0. \<not> isDynamicallyGenerated c"
    "distinct (map ud_id g0)"
    by blast
  have d0: "dynamicallyGeneratedBuildingsRef ?s0 = {}" by simp
  from updateOrAdd_covers [OF d0 g0, of "buildings l"] obtain g' where g':
    "cityElementsGroupRef (updateOrAdd (buildings l) ?s0) = Some g'"
    "ud_id ` set g' = ud_id ` set g0 \<union> elem_id ` set (buildings l)"
    "\<forall>c \<in> set g'. \<not> isDynamicallyGenerated c" "distinct (map ud_id g')"
    by blast
  have eff: "cityElementsGroupRef (landscapeEffect (Some l) s)
      = Some (filter (\<lambda>child. \<not> ?doomed child) g')"
    using assms(1,2,4) g'(1)
    by (simp add: landscapeEffect_def reconcile_def removeChildren_def Let_def)
  have same: "filter (\<lambda>child. \<not> ?doomed child) g' = filter (\<lambda>c. ud_id c \<in> ?ids) g'"
    using g'(3) by (auto intro: filter_cong)
  have "ud_id ` set (filter (\<lambda>c. ud_id c \<in> ?ids) g')
      = ud_id ` set g' \<inter> elem_id ` set (buildings l)"
    by auto
  then have "ud_id ` set (filter (\<lambda>c. ud_id c \<in> ?ids) g') = elem_id ` set (buildings l)"
    unfolding g'(2) by blast
  moreover have "distinct (map ud_id (filter (\<lambda>c. ud_id c \<in> ?ids) g'))"
    using g'(4) by (rule distinct_map_filter)
  moreover have "\<forall>c \<in> set (filter (\<lambda>c. ud_id c \<in> ?ids) g'). \<not> isDynamicallyGenerated c"
    using g'(3) by simp
  ultimately show ?thesis using eff same by simp
qed

text \<open>Merging the landscape that the group holds already.\<close>

lemma landscapeEffect_again:
  assumes "cityElementsGroupRef s = Some g" and "sceneRef s"
    and "dynamicallyGeneratedBuildingsRef s = {}"
    and "ud_id ` set g = elem_id ` set (buildings l)"
    and "distinct (map ud_id g)"
    and "buildings l \<noteq> []"
  shows "\<exists>g' ns. cityElementsGroupRef (landscapeEffect (Some l) s) = Some g'
           \<and> map uuid g' = map uuid g
           \<and> disposed (landscapeEffect (Some l) s) = disposed s @ map Geometry ns
           \<and> length ns = 2 * length (buildings l)
           \<and> nextObject (landscapeEffect (Some l) s) = nextObject s + 2 * length (buildings l)
           \<and> (\<forall>c \<in> set g. Geometry (geometry c)
                 \<in> set (drop (length (disposed s)) (disposed (landscapeEffect (Some l) s))))
           \<and> (\<forall>c \<in> set g'. nextObject s \<le> geometry c
                 \<and> geometry c < nextObject (landscapeEffect (Some l) s))"
proof -
  let ?ids = "set (map elem_id (buildings l))"
  let ?doomed = "\<lambda>child. \<not> isDynamicallyGenerated child \<and> ud_id child \<notin> ?ids"
  have clr: "clearDynamicBuildings s = s" using assms(3) by (simp add: clearDynamicBuildings_def)
  have all: "\<forall>b \<in> set (buildings l). elem_id b \<in> ud_id ` set g" using assms(4) by simp
  from updateOrAdd_in_place [OF assms(3,1) all] obtain g' ns where g':
    "cityElementsGroupRef (updateOrAdd (buildings l) s) = Some g'"
    "map uuid g' = map uuid g" "map ud_id g' = map ud_id g"
    "disposed (updateOrAdd (buildings l) s) = disposed s @ map Geometry ns"
    "length ns = 2 * length (buildings l)"
    "nextObject (updateOrAdd (buildings l) s) = nextObject s + 2 * length (buildings l)"
    by blast
  have "\<forall>c \<in> set g. ud_id c \<notin> elem_id ` set (buildings l)
      \<longrightarrow> nextObject s \<le> geometry c \<and> geometry c < nextObject s"
    using assms(4) by blast
  from updateOrAdd_rebuilt [OF assms(3,1) all assms(5) order_refl this] g'(1)
  have built: "\<forall>c \<in> set g'. nextObject s \<le> geometry c
      \<and> geometry c < nextObject (updateOrAdd (buildings l) s)"
    by simp
  have "ud_id ` set g' = ud_id ` set g" using g'(3) by (metis set_map)
  then have named: "\<forall>c \<in> set g'. ud_id c \<in> ?ids" using assms(4) by auto
  then have none: "filter ?doomed g' = []" by (simp add: filter_empty_conv)
  from named have every: "filter (\<lambda>child. \<not> ?doomed child) g' = g'"
    by (simp add: filter_id_conv)
  have eff: "landscapeEffect (Some l) s
      = removeChildren ?doomed (updateOrAdd (buildings l) s)"
    using assms(1,2,6) clr by (simp add: landscapeEffect_def reconcile_def Let_def)
  have grp: "cityElementsGroupRef (landscapeEffect (Some l) s) = Some g'"
    and dsp: "disposed (landscapeEffect (Some l) s) = disposed s @ map Geometry ns"
    and nxt: "nextObject (landscapeEffect (Some l) s) = nextObject s + 2 * length (buildings l)"
    unfolding eff using g'(1,4,6) none every by (simp_all add: removeChildren_def)
  have built': "\<forall>c \<in> set g'. nextObject s \<le> geometry c
      \<and> geometry c < nextObject (landscapeEffect (Some l) s)"
    using built unfolding nxt g'(6) .
  have "\<forall>c \<in> set g. Geometry (geometry c)
      \<in> set (drop (length (disposed s)) (disposed (landscapeEffect (Some l) s)))"
  proof
    fix c assume c: "c \<in> set g"
    then have "ud_id c \<in> elem_id ` set (buildings l)" using assms(4) by blast
    from updateOrAdd_disposes [OF assms(3,1) all assms(5) c this]
    show "Geometry (geometry c)
        \<in> set (drop (length (disposed s)) (disposed (landscapeEffect (Some l) s)))"
      unfolding dsp g'(4) .
  qed
  with grp g'(2,5) dsp nxt built' show ?thesis by blast
qed

section \<open>The group stays tidy\<close>

lemma sameTags_static:
  assumes "sameTags cs' cs"
  shows "map ud_id (filter (\<lambda>c. \<not> isDynamicallyGenerated c) cs')
       = map ud_id (filter (\<lambda>c. \<not> isDynamicallyGenerated c) cs)"
  using assms unfolding sameTags_def by (induction rule: list_all2_induct) auto

lemma sameTags_flagged:
  assumes "sameTags cs' cs"
  shows "(\<forall>c \<in> set cs'. isDynamicallyGenerated c \<longrightarrow> ud_id c \<in> D)
       = (\<forall>c \<in> set cs. isDynamicallyGenerated c \<longrightarrow> ud_id c \<in> D)"
  using assms unfolding sameTags_def by (induction rule: list_all2_induct) auto

lemma sameTags_map:
  assumes "\<And>c. ud_id (f c) = ud_id c" and "\<And>c. isDynamicallyGenerated (f c) = isDynamicallyGenerated c"
  shows "sameTags (map f cs) cs"
  using assms by (simp add: sameTags_def list_all2_map1 list_all2_same)

lemma sameTags_refl: "sameTags cs cs"
  by (simp add: sameTags_def list_all2_same)

lemma tidy_cong:
  assumes "sameTags (children s') (children s)"
    and "dynamicallyGeneratedBuildingsRef s' = dynamicallyGeneratedBuildingsRef s"
  shows "tidy s' = tidy s"
  using sameTags_static [OF assms(1)] sameTags_flagged [OF assms(1)] assms(2)
  by (simp add: tidy_def)

lemma fadeIn_tags:
  "ud_id (fadeIn t c) = ud_id c" "isDynamicallyGenerated (fadeIn t c) = isDynamicallyGenerated c"
  by (simp_all add: fadeIn_def Let_def split: option.splits)

lemma restoreChild_tags:
  "ud_id (restoreChild cols col clock now c) = ud_id c"
  "isDynamicallyGenerated (restoreChild cols col clock now c) = isDynamicallyGenerated c"
  by (simp_all add: restoreChild_def Let_def split: option.splits)

lemma animate_tags: "sameTags (children (animate t r s)) (children s)"
proof -
  have "children (animate t r s) = children s
      \<or> children (animate t r s) = map (fadeIn t) (children s)"
    by (simp add: animate_def issueBatch_def children_def Let_def split: option.splits)
  then show ?thesis
    using sameTags_refl sameTags_map [of "fadeIn t", OF fadeIn_tags] by metis
qed

lemma capture_tags: "sameTags (children (handleCanvasClickAndCapture flt now s)) (children s)"
  by (auto simp: handleCanvasClickAndCapture_def beginCapture_def endCapture_def renderPhase_def
        mapChildren_def children_def Let_def sameTags_def list_all2_map1 list_all2_same
        restoreChild_tags split: option.splits)

lemma addCluster_tidy:
  assumes "tidy s" and "cityElementsGroupRef s = Some g" and "clockRef s"
  shows "tidy (addCluster c now bs s)"
proof -
  from addCluster_adds [OF assms(2,3), of c now bs] obtain new where new:
    "cityElementsGroupRef (addCluster c now bs s) = Some (g @ new)"
    "length new = length bs"
    "\<forall>j < length bs. streamedFrom (bs ! j) (vec (vx c) 0 (vz c)) now (new ! j)"
    "dynamicallyGeneratedBuildingsRef (addCluster c now bs s)
       = dynamicallyGeneratedBuildingsRef s \<union> elem_id ` set bs"
    by blast
  have fresh: "\<forall>e \<in> set new. isDynamicallyGenerated e \<and> ud_id e \<in> elem_id ` set bs"
  proof
    fix e assume "e \<in> set new"
    then obtain j where j: "j < length new" "e = new ! j" by (auto simp: in_set_conv_nth)
    with new(2,3) have "streamedFrom (bs ! j) (vec (vx c) 0 (vz c)) now e" by simp
    moreover have "bs ! j \<in> set bs" using j(1) new(2) by simp
    ultimately show "isDynamicallyGenerated e \<and> ud_id e \<in> elem_id ` set bs"
      by (auto simp: streamedFrom_def)
  qed
  then have "filter (\<lambda>c. \<not> isDynamicallyGenerated c) new = []"
    by (simp add: filter_empty_conv)
  with assms(1,2) new(1,4) fresh show ?thesis
    by (auto simp: tidy_def children_def)
qed

lemma applyResults_tidy:
  assumes "tidy s" and "clockRef s"
  shows "tidy (applyResults rs now s)"
  using assms
proof (induction rs now s rule: applyResults.induct)
  case (2 bs c rest now s)
  show ?case
  proof (cases "cityElementsGroupRef s")
    case None
    with 2 show ?thesis by simp
  next
    case (Some g)
    have "tidy (addCluster c now bs s)" using addCluster_tidy [OF "2.prems"(1) Some "2.prems"(2)] .
    with 2 Some show ?thesis by simp
  qed
next
  case (4 c rest now s)
  have "tidy (s\<lparr>effects := effects s @ [ConsoleError]\<rparr>)"
    using "4.prems"(1) by (simp add: tidy_def children_def)
  with 4 show ?case by simp
qed simp_all

lemma tidy_update [simp]:
  "tidy (s\<lparr>pending := p\<rparr>) = tidy s"
  "tidy (s\<lparr>activeClusterRequestsRef := n\<rparr>) = tidy s"
  "tidy (s\<lparr>effects := e\<rparr>) = tidy s"
  "tidy (s\<lparr>composing := waiting\<rparr>) = tidy s"
  by (simp_all add: tidy_def children_def)

lemma settleBatch_tidy:
  assumes "tidy s" and "clockRef s"
  shows "tidy (settleBatch k rs now s)"
  using assms by (simp add: settleBatch_def Let_def applyResults_tidy)

lemma landscapeEffect_tidy:
  assumes "tidy s"
  shows "tidy (landscapeEffect l s)"
proof (cases "cityElementsGroupRef s = None \<or> \<not> sceneRef s")
  case True
  with assms show ?thesis by (simp add: landscapeEffect_def)
next
  case False
  then obtain g where g: "cityElementsGroupRef s = Some g" and scene: "sceneRef s" by auto
  show ?thesis
  proof (cases "l = None \<or> (\<exists>x. l = Some x \<and> buildings x = [])")
    case True
    then have "cityElementsGroupRef (landscapeEffect l s) = Some []"
      using g scene
      by (auto simp: landscapeEffect_def reconcile_def removeChildren_def clearDynamicBuildings_def)
    then show ?thesis by (simp add: tidy_def children_def)
  next
    case False
    then obtain x where x: "l = Some x" "buildings x \<noteq> []" by auto
    from landscapeEffect_merged [OF g scene assms x(2)] x(1) obtain g1 where
      "cityElementsGroupRef (landscapeEffect l s) = Some g1"
      "\<forall>c \<in> set g1. \<not> isDynamicallyGenerated c" "distinct (map ud_id g1)"
      by blast
    then show ?thesis by (simp add: tidy_def children_def)
  qed
qed

lemma step_tidy:
  assumes "present s" and "tidy s"
  shows "tidy (step e s)"
proof (cases "isInput e")
  case True
  then have "children (step e s) = children s"
    and "dynamicallyGeneratedBuildingsRef (step e s) = dynamicallyGeneratedBuildingsRef s"
    by (simp_all add: children_def input_frame)
  with assms(2) show ?thesis by (simp add: tidy_def)
next
  case False
  then show ?thesis
  proof (cases e)
    case (Frame t r)
    with assms(2) tidy_cong [OF animate_tags, of t r s] show ?thesis by simp
  next
    case (Settle k rs now)
    with assms show ?thesis by (simp add: settleBatch_tidy present_def)
  next
    case (LandscapeChange l)
    with assms(2) show ?thesis by (simp add: landscapeEffect_tidy)
  next
    case (Capture flt now)
    with assms(2) tidy_cong [OF capture_tags, of flt now s] show ?thesis by simp
  next
    case (Composed composed)
    with assms(2) show ?thesis by (simp add: composeCover_def)
  qed simp_all
qed

lemma run_tidy: "present s \<Longrightarrow> tidy s \<Longrightarrow> tidy (run es s)"
  by (induction es arbitrary: s) (simp_all add: step_tidy step_present)

lemma mounted_tidy: "tidy (mounted m c)"
  by (simp add: tidy_def children_def mounted_def)

lemma reachable_present: "present (run es (mounted m c))"
  by (rule run_present [OF mounted_present])

lemma reachable_tidy: "tidy (run es (mounted m c))"
  by (rule run_tidy [OF mounted_present mounted_tidy])

text \<open>Two merges of one landscape, from a tidy state.\<close>

lemma merged_twice:
  assumes "present s" and "tidy s" and "buildings l \<noteq> []"
  shows "ud_id ` set (children (landscapeEffect (Some l) s)) = elem_id ` set (buildings l)"
    and "map uuid (children (landscapeEffect (Some l) (landscapeEffect (Some l) s)))
       = map uuid (children (landscapeEffect (Some l) s))"
    and "\<exists>ns. disposed (landscapeEffect (Some l) (landscapeEffect (Some l) s))
              = disposed (landscapeEffect (Some l) s) @ map Geometry ns
            \<and> length ns = 2 * length (buildings l)"
    and "nextObject (landscapeEffect (Some l) (landscapeEffect (Some l) s))
       = nextObject (landscapeEffect (Some l) s) + 2 * length (buildings l)"
    and "\<forall>c \<in> set (children (landscapeEffect (Some l) s)).
           Geometry (geometry c)
             \<in> set (drop (length (disposed (landscapeEffect (Some l) s)))
                     (disposed (landscapeEffect (Some l) (landscapeEffect (Some l) s))))"
    and "\<forall>c \<in> set (children (landscapeEffect (Some l) (landscapeEffect (Some l) s))).
           nextObject (landscapeEffect (Some l) s) \<le> geometry c
           \<and> geometry c < nextObject (landscapeEffect (Some l) (landscapeEffect (Some l) s))"
proof -
  let ?s1 = "landscapeEffect (Some l) s"
  from assms(1) obtain g where g: "cityElementsGroupRef s = Some g" and scene: "sceneRef s"
    by (auto simp: present_def)
  from landscapeEffect_merged [OF g scene assms(2,3)] obtain g1 where g1:
    "cityElementsGroupRef ?s1 = Some g1" "ud_id ` set g1 = elem_id ` set (buildings l)"
    "distinct (map ud_id g1)"
    by blast
  have scene1: "sceneRef ?s1" using scene by simp
  have dyn1: "dynamicallyGeneratedBuildingsRef ?s1 = {}"
    using g scene by (simp add: landscapeEffect_def)
  from landscapeEffect_again [OF g1(1) scene1 dyn1 g1(2,3) assms(3)] obtain g2 ns where g2:
    "cityElementsGroupRef (landscapeEffect (Some l) ?s1) = Some g2"
    "map uuid g2 = map uuid g1"
    "disposed (landscapeEffect (Some l) ?s1) = disposed ?s1 @ map Geometry ns"
    "length ns = 2 * length (buildings l)"
    "nextObject (landscapeEffect (Some l) ?s1) = nextObject ?s1 + 2 * length (buildings l)"
    "\<forall>c \<in> set g1. Geometry (geometry c)
        \<in> set (drop (length (disposed ?s1)) (disposed (landscapeEffect (Some l) ?s1)))"
    "\<forall>c \<in> set g2. nextObject ?s1 \<le> geometry c
        \<and> geometry c < nextObject (landscapeEffect (Some l) ?s1)"
    by blast
  show "ud_id ` set (children ?s1) = elem_id ` set (buildings l)"
    using g1(1,2) by (simp add: children_def)
  show "map uuid (children (landscapeEffect (Some l) ?s1)) = map uuid (children ?s1)"
    using g1(1) g2(1,2) by (simp add: children_def)
  show "\<exists>ns. disposed (landscapeEffect (Some l) ?s1) = disposed ?s1 @ map Geometry ns
            \<and> length ns = 2 * length (buildings l)"
    using g2(3,4) by blast
  show "nextObject (landscapeEffect (Some l) ?s1) = nextObject ?s1 + 2 * length (buildings l)"
    using g2(5) .
  show "\<forall>c \<in> set (children ?s1). Geometry (geometry c)
        \<in> set (drop (length (disposed ?s1)) (disposed (landscapeEffect (Some l) ?s1)))"
    using g1(1) g2(6) by (simp add: children_def)
  show "\<forall>c \<in> set (children (landscapeEffect (Some l) ?s1)).
           nextObject ?s1 \<le> geometry c
           \<and> geometry c < nextObject (landscapeEffect (Some l) ?s1)"
    using g2(1,7) by (simp add: children_def)
qed

lemma plaza_size: "length (buildings plaza) = 25" "buildings plaza \<noteq> []"
  by (simp_all add: plaza_def)

text \<open>
  C2, as stated, fails: merging the landscape that was merged last disposes the geometry
  of the elements it keeps and builds new ones. After \<open>plaza\<close> has been merged
  into the mounted component, merging \<open>plaza\<close> again disposes the geometry of
  the first child (like that of every other child); the second merge of the 25 buildings
  calls \<^verbatim>\<open>dispose()\<close> 50 times and constructs 50 geometries.
\<close>

theorem second_merge_counterexample:
  "children (run [LandscapeChange (Some plaza)] (mounted mount0 lime)) \<noteq> []
   \<and> Geometry (geometry (hd (children (run [LandscapeChange (Some plaza)] (mounted mount0 lime)))))
       \<in> set (drop (length (disposed (run [LandscapeChange (Some plaza)] (mounted mount0 lime))))
               (disposed (run [LandscapeChange (Some plaza), LandscapeChange (Some plaza)]
                  (mounted mount0 lime))))
   \<and> length (disposed (run [LandscapeChange (Some plaza), LandscapeChange (Some plaza)]
                (mounted mount0 lime)))
       = length (disposed (run [LandscapeChange (Some plaza)] (mounted mount0 lime))) + 50
   \<and> nextObject (run [LandscapeChange (Some plaza), LandscapeChange (Some plaza)]
                (mounted mount0 lime))
       = nextObject (run [LandscapeChange (Some plaza)] (mounted mount0 lime)) + 50"
proof -
  let ?s = "mounted mount0 lime"
  let ?s1 = "landscapeEffect (Some plaza) ?s"
  let ?s2 = "landscapeEffect (Some plaza) ?s1"
  note m = merged_twice [OF mounted_present mounted_tidy plaza_size(2), of mount0 lime]
  have "ud_id ` set (children ?s1) \<noteq> {}" using m(1) plaza_size(2) by simp
  then have ne: "children ?s1 \<noteq> []" by auto
  then have "hd (children ?s1) \<in> set (children ?s1)" by simp
  with m(5) have "Geometry (geometry (hd (children ?s1)))
      \<in> set (drop (length (disposed ?s1)) (disposed ?s2))" by blast
  moreover from m(3) have "length (disposed ?s2) = length (disposed ?s1) + 50"
    using plaza_size(1) by auto
  moreover from m(4) have "nextObject ?s2 = nextObject ?s1 + 50" using plaza_size(1) by simp
  ultimately show ?thesis using ne by simp
qed

text \<open>
  C2, amended. In every state the mounted component can reach, merging a landscape with
  buildings and then the identical landscape again keeps the children of the city group
  in place in the second merge: the same objects in the same order, none added, none
  removed, and nothing but geometries disposed, so every child keeps its material. The
  group holds exactly the ids of the landscape. The geometries are not kept: every child
  loses the geometry it had, which the second merge disposes, and ends with a geometry
  that the second merge constructed (its identity is one of those allotted during the
  second merge). For every building of the landscape the update path of
  \<^verbatim>\<open>createOrUpdateLineSegments\<close> constructs two geometries, the box or cylinder
  and the edges geometry made from it, and disposes two, that box or cylinder and the
  edges geometry the child had.
\<close>

theorem merging_again_in_place:
  assumes "buildings l \<noteq> []"
  shows "map uuid (children (run (es @ [LandscapeChange (Some l), LandscapeChange (Some l)])
                     (mounted m c)))
       = map uuid (children (run (es @ [LandscapeChange (Some l)]) (mounted m c)))
    \<and> ud_id ` set (children (run (es @ [LandscapeChange (Some l)]) (mounted m c)))
       = elem_id ` set (buildings l)
    \<and> (\<exists>ns. disposed (run (es @ [LandscapeChange (Some l), LandscapeChange (Some l)])
                 (mounted m c))
              = disposed (run (es @ [LandscapeChange (Some l)]) (mounted m c)) @ map Geometry ns
            \<and> length ns = 2 * length (buildings l))
    \<and> nextObject (run (es @ [LandscapeChange (Some l), LandscapeChange (Some l)]) (mounted m c))
       = nextObject (run (es @ [LandscapeChange (Some l)]) (mounted m c))
           + 2 * length (buildings l)
    \<and> (\<forall>child \<in> set (children (run (es @ [LandscapeChange (Some l)]) (mounted m c))).
          Geometry (geometry child)
            \<in> set (drop (length (disposed (run (es @ [LandscapeChange (Some l)]) (mounted m c))))
                 (disposed (run (es @ [LandscapeChange (Some l), LandscapeChange (Some l)])
                    (mounted m c)))))
    \<and> (\<forall>child \<in> set (children (run (es @ [LandscapeChange (Some l), LandscapeChange (Some l)])
                                   (mounted m c))).
          nextObject (run (es @ [LandscapeChange (Some l)]) (mounted m c)) \<le> geometry child
          \<and> geometry child
              < nextObject (run (es @ [LandscapeChange (Some l), LandscapeChange (Some l)])
                  (mounted m c)))"
proof -
  let ?s = "run es (mounted m c)"
  have one: "run (es @ [LandscapeChange (Some l)]) (mounted m c) = landscapeEffect (Some l) ?s"
    by (simp add: run_append)
  have two: "run (es @ [LandscapeChange (Some l), LandscapeChange (Some l)]) (mounted m c)
      = landscapeEffect (Some l) (landscapeEffect (Some l) ?s)"
    by (simp add: run_append)
  note m = merged_twice [OF reachable_present reachable_tidy assms, of es m c]
  show ?thesis unfolding one two using m(1) m(2) m(3) m(4) m(5) m(6) by (intro conjI)
qed

text \<open>The landscape \<open>plaza\<close>, merged twice into the mounted component.\<close>

theorem merging_again_in_place_witness:
  "map uuid (children (run ([] @ [LandscapeChange (Some plaza), LandscapeChange (Some plaza)])
                     (mounted mount0 lime)))
     = map uuid (children (run ([] @ [LandscapeChange (Some plaza)]) (mounted mount0 lime)))
   \<and> ud_id ` set (children (run ([] @ [LandscapeChange (Some plaza)]) (mounted mount0 lime)))
     = elem_id ` set (buildings plaza)
   \<and> nextObject (run ([] @ [LandscapeChange (Some plaza), LandscapeChange (Some plaza)])
         (mounted mount0 lime))
     = nextObject (run ([] @ [LandscapeChange (Some plaza)]) (mounted mount0 lime)) + 50"
  using merging_again_in_place [OF plaza_size(2), of "[]" mount0 lime] plaza_size(1)
  by simp

section \<open>Regeneration\<close>

lemma reconcile_disposed_grows: "\<exists>rs. disposed (reconcile l s) = disposed s @ rs"
proof -
  have rm: "\<And>P t. \<exists>rs. disposed (removeChildren P t) = disposed t @ rs"
    by (simp add: removeChildren_def split: option.splits)
  show ?thesis
  proof (cases "l = None \<or> (\<exists>x. l = Some x \<and> buildings x = [])")
    case True
    then show ?thesis using rm [of "\<lambda>child. True" s] by (auto simp: reconcile_def)
  next
    case False
    then obtain x where x: "l = Some x" "buildings x \<noteq> []" by auto
    let ?t = "updateOrAdd (buildings x) s"
    let ?P = "\<lambda>child. \<not> isDynamicallyGenerated child \<and> ud_id child \<notin> set (map elem_id (buildings x))"
    from updateOrAdd_disposed_grows [of "buildings x" s] obtain rs where
      "disposed ?t = disposed s @ rs" by blast
    moreover from rm [of ?P ?t] obtain rs' where
      "disposed (removeChildren ?P ?t) = disposed ?t @ rs'" by blast
    ultimately show ?thesis using x by (simp add: reconcile_def Let_def)
  qed
qed

lemma landscapeEffect_no_dynamic:
  assumes "present s" and "tidy s"
  shows "\<forall>c \<in> set (children (landscapeEffect l s)). \<not> isDynamicallyGenerated c"
proof -
  from assms(1) obtain g where g: "cityElementsGroupRef s = Some g" and scene: "sceneRef s"
    by (auto simp: present_def)
  show ?thesis
  proof (cases "l = None \<or> (\<exists>x. l = Some x \<and> buildings x = [])")
    case True
    then have "cityElementsGroupRef (landscapeEffect l s) = Some []"
      using g scene
      by (auto simp: landscapeEffect_def reconcile_def removeChildren_def clearDynamicBuildings_def)
    then show ?thesis by (simp add: children_def)
  next
    case False
    then obtain x where x: "l = Some x" "buildings x \<noteq> []" by auto
    from landscapeEffect_merged [OF g scene assms(2) x(2)] x(1) obtain g1 where
      "cityElementsGroupRef (landscapeEffect l s) = Some g1"
      "\<forall>c \<in> set g1. \<not> isDynamicallyGenerated c"
      by blast
    then show ?thesis by (simp add: children_def)
  qed
qed

lemma landscapeEffect_disposes_dynamic:
  assumes "present s" and "tidy s" and "c \<in> set (children s)" and "isDynamicallyGenerated c"
  shows "Geometry (geometry c) \<in> set (drop (length (disposed s)) (disposed (landscapeEffect l s)))"
    and "Material (uuid c) \<in> set (drop (length (disposed s)) (disposed (landscapeEffect l s)))"
proof -
  let ?D = "dynamicallyGeneratedBuildingsRef s"
  from assms(1) obtain g where g: "cityElementsGroupRef s = Some g" and scene: "sceneRef s"
    by (auto simp: present_def)
  have cg: "c \<in> set g" using assms(3) g by (simp add: children_def)
  have cd: "ud_id c \<in> ?D" using assms(2,4) cg g by (simp add: tidy_def children_def)
  then have ne: "?D \<noteq> {}" by auto
  have clr: "disposed (clearDynamicBuildings s)
      = disposed s @ concat (map disposeChild (filter (\<lambda>child. ud_id child \<in> ?D) g))"
    using ne g by (simp add: clearDynamicBuildings_def removeChildren_def)
  have "c \<in> set (filter (\<lambda>child. ud_id child \<in> ?D) g)" using cg cd by simp
  then have in_clr: "Geometry (geometry c) \<in> set (concat (map disposeChild (filter (\<lambda>child. ud_id child \<in> ?D) g)))"
    "Material (uuid c) \<in> set (concat (map disposeChild (filter (\<lambda>child. ud_id child \<in> ?D) g)))"
    by (auto simp: disposeChild_def)
  from reconcile_disposed_grows [of l "clearDynamicBuildings s"] obtain rs where
    rs: "disposed (reconcile l (clearDynamicBuildings s)) = disposed (clearDynamicBuildings s) @ rs"
    by blast
  have eff: "landscapeEffect l s = reconcile l (clearDynamicBuildings s)"
    using g scene by (simp add: landscapeEffect_def)
  show "Geometry (geometry c) \<in> set (drop (length (disposed s)) (disposed (landscapeEffect l s)))"
    and "Material (uuid c) \<in> set (drop (length (disposed s)) (disposed (landscapeEffect l s)))"
    unfolding eff rs clr using in_clr by simp_all
qed

lemma landscapeEffect_bookkeeping:
  assumes "present s"
  shows "dynamicallyGeneratedBuildingsRef (landscapeEffect l s) = {}"
    and "dynamicallyGeneratedBuildingsRef s \<noteq> {} \<Longrightarrow>
           generationTriggerPointsRef (landscapeEffect l s) = []
           \<and> activeClusterRequestsRef (landscapeEffect l s) = 0
           \<and> nextClusterIdCounterRef (landscapeEffect l s) = 0"
    and "dynamicallyGeneratedBuildingsRef s = {} \<Longrightarrow>
           generationTriggerPointsRef (landscapeEffect l s) = generationTriggerPointsRef s
           \<and> activeClusterRequestsRef (landscapeEffect l s) = activeClusterRequestsRef s
           \<and> nextClusterIdCounterRef (landscapeEffect l s) = nextClusterIdCounterRef s"
  using assms by (auto simp: present_def landscapeEffect_def clearDynamicBuildings_def)

text \<open>
  C3, as stated, fails for a prior state whose dynamic-id set is empty: the resets sit
  inside \<^verbatim>\<open>if (dynamicallyGeneratedBuildingsRef.current.size > 0)\<close>. After the
  first frame a batch is pending and nothing has been streamed yet; a landscape that
  arrives then leaves the trigger point, the counter at 1 and the id counter at 1.
\<close>

theorem regeneration_keeps_counter_counterexample:
  "dynamicallyGeneratedBuildingsRef (run [Frame 0 0] (mounted mount0 lime)) = {}
   \<and> generationTriggerPointsRef (run [Frame 0 0, LandscapeChange (Some plaza)] (mounted mount0 lime))
       = [vec 0 300 (- (2503 / 5))]
   \<and> activeClusterRequestsRef (run [Frame 0 0, LandscapeChange (Some plaza)] (mounted mount0 lime))
       = 1
   \<and> nextClusterIdCounterRef (run [Frame 0 0, LandscapeChange (Some plaza)] (mounted mount0 lime))
       = 1"
  by (simp add: mounted_def mount0_def animate_def issueBatch_def triggerNewGeneration_def
        numClustersToGenerate_def forwardDirection_0 vec_def addScaledVector_def lengthSq_def
        landscapeEffect_def clearDynamicBuildings_def Let_def)

text \<open>
  C3, amended. Whenever the landscape changes in a state the mounted component can
  reach: the dynamic-id set is empty afterwards, no child of the city group is flagged
  dynamic, and every child that was flagged dynamic has had its geometry and its material
  disposed by the effect. If the dynamic-id set was not empty, the trigger point list is
  reset to empty and the in-flight counter and the cluster-id counter to 0; if it was
  empty, the three are left as they were.
\<close>

theorem regeneration_resets:
  "dynamicallyGeneratedBuildingsRef (run (es @ [LandscapeChange l]) (mounted m c)) = {}
   \<and> (\<forall>child \<in> set (children (run (es @ [LandscapeChange l]) (mounted m c))).
         \<not> isDynamicallyGenerated child)
   \<and> (\<forall>child \<in> set (children (run es (mounted m c))).
         isDynamicallyGenerated child \<longrightarrow>
           Geometry (geometry child)
             \<in> set (drop (length (disposed (run es (mounted m c))))
                     (disposed (run (es @ [LandscapeChange l]) (mounted m c))))
           \<and> Material (uuid child)
             \<in> set (drop (length (disposed (run es (mounted m c))))
                     (disposed (run (es @ [LandscapeChange l]) (mounted m c)))))
   \<and> (dynamicallyGeneratedBuildingsRef (run es (mounted m c)) \<noteq> {} \<longrightarrow>
         generationTriggerPointsRef (run (es @ [LandscapeChange l]) (mounted m c)) = []
         \<and> activeClusterRequestsRef (run (es @ [LandscapeChange l]) (mounted m c)) = 0
         \<and> nextClusterIdCounterRef (run (es @ [LandscapeChange l]) (mounted m c)) = 0)
   \<and> (dynamicallyGeneratedBuildingsRef (run es (mounted m c)) = {} \<longrightarrow>
         generationTriggerPointsRef (run (es @ [LandscapeChange l]) (mounted m c))
           = generationTriggerPointsRef (run es (mounted m c))
         \<and> activeClusterRequestsRef (run (es @ [LandscapeChange l]) (mounted m c))
           = activeClusterRequestsRef (run es (mounted m c))
         \<and> nextClusterIdCounterRef (run (es @ [LandscapeChange l]) (mounted m c))
           = nextClusterIdCounterRef (run es (mounted m c)))"
proof -
  let ?s = "run es (mounted m c)"
  have eff: "run (es @ [LandscapeChange l]) (mounted m c) = landscapeEffect l ?s"
    by (simp add: run_append)
  note p = reachable_present [of es m c] and t = reachable_tidy [of es m c]
  show ?thesis
    unfolding eff
    using landscapeEffect_bookkeeping [OF p, of l] landscapeEffect_no_dynamic [OF p t, of l]
      landscapeEffect_disposes_dynamic [OF p t, of _ l]
    by blast
qed

lemma oneStreamed_state:
  "dynamicallyGeneratedBuildingsRef (run oneStreamed (mounted mount0 lime)) = {''dyn_c0_bld_1''}"
  "map uuid (children (run oneStreamed (mounted mount0 lime))) = [2]"
  "map geometry (children (run oneStreamed (mounted mount0 lime))) = [1]"
  "map isDynamicallyGenerated (children (run oneStreamed (mounted mount0 lime))) = [True]"
  "generationTriggerPointsRef (run oneStreamed (mounted mount0 lime)) = [vec 0 300 (- (2503 / 5))]"
  "nextClusterIdCounterRef (run oneStreamed (mounted mount0 lime)) = 1"
  "disposed (run oneStreamed (mounted mount0 lime)) = [Geometry 0]"
  by (simp_all add: oneStreamed_def sim children_def streamed0_def createOrUpdateLineSegments_def
        translated_def buildEdges_def placedAt_def heightOr0_def)

text \<open>A landscape arriving after one building has been streamed.\<close>

theorem regeneration_resets_witness:
  "dynamicallyGeneratedBuildingsRef (run oneStreamed (mounted mount0 lime)) \<noteq> {}
   \<and> generationTriggerPointsRef (run oneStreamed (mounted mount0 lime)) \<noteq> []
   \<and> generationTriggerPointsRef (run (oneStreamed @ [LandscapeChange (Some plaza)])
        (mounted mount0 lime)) = []
   \<and> activeClusterRequestsRef (run (oneStreamed @ [LandscapeChange (Some plaza)])
        (mounted mount0 lime)) = 0
   \<and> nextClusterIdCounterRef (run (oneStreamed @ [LandscapeChange (Some plaza)])
        (mounted mount0 lime)) = 0
   \<and> dynamicallyGeneratedBuildingsRef (run (oneStreamed @ [LandscapeChange (Some plaza)])
        (mounted mount0 lime)) = {}
   \<and> Geometry 1 \<in> set (drop 1 (disposed (run (oneStreamed @ [LandscapeChange (Some plaza)])
        (mounted mount0 lime))))
   \<and> Material 2 \<in> set (drop 1 (disposed (run (oneStreamed @ [LandscapeChange (Some plaza)])
        (mounted mount0 lime))))"
proof -
  let ?s = "run oneStreamed (mounted mount0 lime)"
  obtain child where child: "children ?s = [child]" "uuid child = 2" "geometry child = 1"
    "isDynamicallyGenerated child"
    using oneStreamed_state(2,3,4) by (cases "children ?s") auto
  then have "child \<in> set (children ?s)" by simp
  with regeneration_resets [of oneStreamed "Some plaza" mount0 lime] child oneStreamed_state(1,5,7)
  show ?thesis by (auto simp: vec_def)
qed

end
